theory Spec2Isabelle
  imports Complex_Main
begin

section \<open>Tippet's technique: measuring a multiport with a 2-port analyzer\<close>

text \<open>
  The development follows the notebook
  \<^verbatim>\<open>Measuring a Mutiport Device with a 2-Port Network Analyzer.ipynb\<close>.
  The notebook's own code (the port bookkeeping, the composition loop, the function
  \<^verbatim>\<open>tippits\<close>) is translated as it is written. The numerical engine it calls
  (\<^verbatim>\<open>rf.connect\<close>, \<^verbatim>\<open>Network.renormalize\<close>, \<^verbatim>\<open>Network.z\<close>, the media's
  \<^verbatim>\<open>load\<close> and \<^verbatim>\<open>match\<close>) is not part of the sources at hand; those
  operations are modelled from the specification and marked as such.
\<close>

subsection \<open>Errors\<close>

datatype error =
    ValueError          \<comment> \<open>Python: wrong number of values to unpack, shapes that do not broadcast\<close>
  | IndexError          \<comment> \<open>Python: index out of range\<close>
  | DomainError         \<comment> \<open>Connector: frequency grids differ, port index out of range\<close>
  | ShapeError          \<comment> \<open>operand dimensions do not fit\<close>
  | SingularityError    \<comment> \<open>the linear system of a conversion step is singular\<close>

subsection \<open>Port bookkeeping of the notebook\<close>

text \<open>\<^verbatim>\<open>ports = arange(dut.nports)\<close>\<close>

definition ports :: "nat \<Rightarrow> nat list" where
  "ports n = [0..<n]"

text \<open>\<^verbatim>\<open>port_combos = list(combinations(ports, 2))\<close>: all pairs, in lexicographic order of
  position.\<close>

fun combinations2 :: "'a list \<Rightarrow> ('a \<times> 'a) list" where
  "combinations2 [] = []"
| "combinations2 (x # xs) = map (Pair x) xs @ combinations2 xs"

definition port_combos :: "nat \<Rightarrow> (nat \<times> nat) list" where
  "port_combos n = combinations2 (ports n)"

text \<open>\<^verbatim>\<open>c,d = ports[(ports!=a) & (ports!=b)]\<close>: the boolean mask keeps the ports other than
  \<open>a\<close> and \<open>b\<close>; unpacking into two names raises unless exactly two are left.\<close>

definition other_ports :: "nat list \<Rightarrow> nat \<Rightarrow> nat \<Rightarrow> error + nat \<times> nat" where
  "other_ports ps a b =
     (case filter (\<lambda>p. p \<noteq> a \<and> p \<noteq> b) ps of
        [c, d] \<Rightarrow> Inr (c, d)
      | _ \<Rightarrow> Inl ValueError)"

text \<open>\<^verbatim>\<open>e = where(ports[ports!=c]==d)[0][0]\<close>: the first position of \<open>d\<close> among the ports
  other than \<open>c\<close>; indexing the empty result raises.\<close>

definition where_eq :: "nat list \<Rightarrow> nat \<Rightarrow> nat list" where
  "where_eq xs d = filter (\<lambda>i. xs ! i = d) [0..<length xs]"

definition index_after :: "nat list \<Rightarrow> nat \<Rightarrow> nat \<Rightarrow> error + nat" where
  "index_after ps c d =
     (case where_eq (filter (\<lambda>p. p \<noteq> c) ps) d of
        [] \<Rightarrow> Inl IndexError
      | e # _ \<Rightarrow> Inr e)"

text \<open>Deleting position \<open>i\<close> of a list, keeping the order of the rest.\<close>

definition delete_at :: "nat \<Rightarrow> 'a list \<Rightarrow> 'a list" where
  "delete_at i xs = take i xs @ drop (Suc i) xs"

text \<open>Modelled from the spec: the Connector's renumbering rule (the code of
  \<^verbatim>\<open>rf.connect\<close> is missing). Joining port \<open>i\<close> of A to port \<open>j\<close> of B removes the
  joined ports; all other ports are renumbered by deleting the joined indices and
  preserving the relative order of the rest, A's before B's. A port index out of range is
  a DomainError. The function acts on whatever is attached to the ports; below it is
  used on port labels and on reference impedances.\<close>

definition connect_ports :: "'a list \<Rightarrow> nat \<Rightarrow> 'a list \<Rightarrow> nat \<Rightarrow> error + 'a list" where
  "connect_ports pa i pb j =
     (if i < length pa \<and> j < length pb
      then Inr (delete_at i pa @ delete_at j pb)
      else Inl DomainError)"

text \<open>The two terminations of one loop iteration, on port labels: the device's ports
  carry their own indices, each load carries the label of the port it is assigned to.
  \<^verbatim>\<open>three_port = rf.connect(dut, c, loads[c], 0)\<close>,
  \<^verbatim>\<open>two_port = rf.connect(three_port, e, loads[d], 0)\<close>.\<close>

definition measured_ports :: "nat \<Rightarrow> nat \<Rightarrow> nat \<Rightarrow> error + nat list" where
  "measured_ports n a b =
     (case other_ports (ports n) a b of
        Inl err \<Rightarrow> Inl err
      | Inr (c, d) \<Rightarrow>
          (case index_after (ports n) c d of
             Inl err \<Rightarrow> Inl err
           | Inr e \<Rightarrow>
               (case connect_ports (ports n) c [c] 0 of
                  Inl err \<Rightarrow> Inl err
                | Inr three_port \<Rightarrow> connect_ports three_port e [d] 0)))"


subsection \<open>Networks, and the media that makes loads\<close>

type_synonym cvec = "complex list"
type_synonym cmat = "complex list list"

text \<open>A network: the frequency grid, the number of ports \<open>P\<close> (a numpy array carries
  its shape, the record carries it as a field), one \<open>P \<times> P\<close> scattering matrix and one
  vector of \<open>P\<close> reference impedances per frequency point.\<close>

record network =
  frequency :: "real list"
  nports :: nat
  ntwk_s :: "cmat list"
  ntwk_z0 :: "cvec list"

definition square_mat :: "nat \<Rightarrow> cmat \<Rightarrow> bool" where
  "square_mat n A = (length A = n \<and> list_all (\<lambda>row. length row = n) A)"

text \<open>The data model's invariant: \<open>s\<close> and \<open>z0\<close> are indexed consistently by frequency
  and port.\<close>

definition wf_network :: "network \<Rightarrow> bool" where
  "wf_network N =
     (length (ntwk_s N) = length (frequency N) \<and>
      length (ntwk_z0 N) = length (frequency N) \<and>
      list_all (square_mat (nports N)) (ntwk_s N) \<and>
      list_all (\<lambda>z. length z = nports N) (ntwk_z0 N))"

text \<open>Modelled from the spec: the network source (\<^verbatim>\<open>wg\<close> in the notebook; its class is
  missing). A medium has a frequency grid and a characteristic impedance at each point of
  it. \<open>load\<close> is the 1-port with the given reflection coefficient, \<open>match\<close> the
  network with the all-zero scattering matrix; both are referenced to the medium's
  impedance.\<close>

record media =
  med_frequency :: "real list"
  med_z0 :: "complex list"

definition load :: "media \<Rightarrow> complex \<Rightarrow> network" where
  "load wg gamma =
     \<lparr> frequency = med_frequency wg, nports = 1,
       ntwk_s = map (\<lambda>_. [[gamma]]) (med_frequency wg),
       ntwk_z0 = map (\<lambda>z. [z]) (med_z0 wg) \<rparr>"

definition match :: "media \<Rightarrow> nat \<Rightarrow> network" where
  "match wg n =
     \<lparr> frequency = med_frequency wg, nports = n,
       ntwk_s = map (\<lambda>_. replicate n (replicate n 0)) (med_frequency wg),
       ntwk_z0 = map (\<lambda>z. replicate n z) (med_z0 wg) \<rparr>"

text \<open>\<^verbatim>\<open>loads = [wg.load(gamma) for k in ports]\<close> in \<^verbatim>\<open>tippits\<close>.\<close>

definition tippits_loads :: "media \<Rightarrow> nat \<Rightarrow> complex \<Rightarrow> network list" where
  "tippits_loads wg n gamma = map (\<lambda>k. load wg gamma) (ports n)"

subsection \<open>Errors as values\<close>

definition bind_err :: "error + 'a \<Rightarrow> ('a \<Rightarrow> error + 'b) \<Rightarrow> error + 'b" where
  "bind_err m f = (case m of Inl err \<Rightarrow> Inl err | Inr x \<Rightarrow> f x)"

text \<open>Running a list of computations: the first failure is the failure of the whole.\<close>

fun sequence_err :: "(error + 'a) list \<Rightarrow> error + 'a list" where
  "sequence_err [] = Inr []"
| "sequence_err (m # ms) =
     (case m of
        Inl err \<Rightarrow> Inl err
      | Inr x \<Rightarrow> (case sequence_err ms of Inl err \<Rightarrow> Inl err | Inr xs \<Rightarrow> Inr (x # xs)))"

text \<open>Python's \<^verbatim>\<open>xs[i]\<close> on a list, for an index that is not negative.\<close>

definition nth_err :: "'a list \<Rightarrow> nat \<Rightarrow> error + 'a" where
  "nth_err xs i = (if i < length xs then Inr (xs ! i) else Inl IndexError)"

subsection \<open>Complex matrices\<close>

definition mat_id :: "nat \<Rightarrow> cmat" where
  "mat_id n = map (\<lambda>i. map (\<lambda>j. if i = j then 1 else 0) [0..<n]) [0..<n]"

definition diag_mat :: "cvec \<Rightarrow> cmat" where
  "diag_mat v = map (\<lambda>i. map (\<lambda>j. if i = j then v ! i else 0) [0..<length v]) [0..<length v]"

definition mat_add :: "cmat \<Rightarrow> cmat \<Rightarrow> cmat" where
  "mat_add A B = map2 (map2 (+)) A B"

definition mat_sub :: "cmat \<Rightarrow> cmat \<Rightarrow> cmat" where
  "mat_sub A B = map2 (map2 (-)) A B"

text \<open>The product of square matrices of the same size.\<close>

definition mat_mul :: "cmat \<Rightarrow> cmat \<Rightarrow> cmat" where
  "mat_mul A B =
     map (\<lambda>row. map (\<lambda>j. sum_list (map (\<lambda>k. row ! k * B ! k ! j) [0..<length B]))
                     [0..<length B]) A"

text \<open>Matrix inversion by Gauss-Jordan elimination on the matrix extended by the identity.
  Column \<open>k\<close> is cleared with the first row at or below \<open>k\<close> that has a non-zero entry in
  it; there is none exactly when the matrix is singular.\<close>

definition eliminate :: "nat \<Rightarrow> cmat \<Rightarrow> cmat option" where
  "eliminate k M =
     (case find (\<lambda>i. M ! i ! k \<noteq> 0) [k..<length M] of
        None \<Rightarrow> None
      | Some p \<Rightarrow>
          (let M1 = M[k := M ! p, p := M ! k];
               pr = map (\<lambda>x. x / M1 ! k ! k) (M1 ! k)
           in Some (map (\<lambda>i. if i = k then pr
                              else map2 (\<lambda>x y. x - M1 ! i ! k * y) (M1 ! i) pr)
                        [0..<length M])))"

fun reduce_columns :: "nat list \<Rightarrow> cmat \<Rightarrow> cmat option" where
  "reduce_columns [] M = Some M"
| "reduce_columns (k # ks) M =
     (case eliminate k M of None \<Rightarrow> None | Some M' \<Rightarrow> reduce_columns ks M')"

definition mat_inv :: "cmat \<Rightarrow> cmat option" where
  "mat_inv A =
     (case reduce_columns [0..<length A] (map2 (@) A (mat_id (length A))) of
        None \<Rightarrow> None
      | Some M \<Rightarrow> Some (map (drop (length A)) M))"

subsection \<open>Scattering and impedance parameters\<close>

text \<open>Modelled from the spec: the conversion between scattering and impedance parameters
  at one frequency point (\<^verbatim>\<open>s2z\<close> and \<^verbatim>\<open>z2s\<close>; the library's code is missing). It is the
  standard bilinear relation, for complex reference impedances that may differ from port
  to port: with the impedance matrix normalised by the square roots of the reference
  impedances, \<^verbatim>\<open>z' = sqrt(z0)^-1 z sqrt(z0)^-1\<close>, the relation is
  \<^verbatim>\<open>s = (z' - 1) (z' + 1)^-1\<close> and \<^verbatim>\<open>z' = (1 - s)^-1 (1 + s)\<close>.
  Operands whose dimensions do not fit are a ShapeError; a singular linear system, and a
  reference impedance of zero to divide by, are a SingularityError.

  A fully reflective port is tolerated without a runtime guard (sections 3 and 4.1 of the
  spec), and the notebook's own sweep ends at \<^verbatim>\<open>gamma = 1\<close>, where the impedance of the load
  with \<^verbatim>\<open>s = [[1]]\<close> is computed and used: before the conversion to impedance parameters
  an entry of \<open>s\<close> that is exactly \<open>1\<close> or \<open>-1\<close> is moved off the singularity by \<open>10^-12\<close>, so
  that the open circuit has an impedance and comes back from the round trip as
  \<open>1 + 10^-12\<close>.\<close>

definition singularity_shift :: complex where
  "singularity_shift = 1 / 10 ^ 12"

definition regularise :: "cmat \<Rightarrow> cmat" where
  "regularise s =
     map (map (\<lambda>x. if x = 1 then 1 + singularity_shift
                    else if x = - 1 then - 1 + singularity_shift
                    else x)) s"

definition normalise_z :: "cmat \<Rightarrow> cvec \<Rightarrow> cmat" where
  "normalise_z z z0 =
     mat_mul (diag_mat (map (\<lambda>x. 1 / csqrt x) z0))
       (mat_mul z (diag_mat (map (\<lambda>x. 1 / csqrt x) z0)))"

definition denormalise_z :: "cmat \<Rightarrow> cvec \<Rightarrow> cmat" where
  "denormalise_z z' z0 =
     mat_mul (diag_mat (map csqrt z0)) (mat_mul z' (diag_mat (map csqrt z0)))"

definition s2z_point :: "cmat \<Rightarrow> cvec \<Rightarrow> error + cmat" where
  "s2z_point s z0 =
     (if \<not> square_mat (length z0) s then Inl ShapeError
      else
        (case mat_inv (mat_sub (mat_id (length z0)) (regularise s)) of
           None \<Rightarrow> Inl SingularityError
         | Some X \<Rightarrow>
             Inr (denormalise_z (mat_mul X (mat_add (mat_id (length z0)) (regularise s))) z0)))"

definition z2s_point :: "cmat \<Rightarrow> cvec \<Rightarrow> error + cmat" where
  "z2s_point z z0 =
     (if \<not> square_mat (length z0) z then Inl ShapeError
      else if list_ex (\<lambda>x. x = 0) z0 then Inl SingularityError
      else
        (case mat_inv (mat_add (normalise_z z z0) (mat_id (length z0))) of
           None \<Rightarrow> Inl SingularityError
         | Some X \<Rightarrow> Inr (mat_mul (mat_sub (normalise_z z z0) (mat_id (length z0))) X)))"

text \<open>The conversions over the whole frequency grid. \<^verbatim>\<open>Network.z\<close> is \<open>s2z\<close> of the
  network's own \<open>s\<close> and \<open>z0\<close>.\<close>

definition s2z :: "cmat list \<Rightarrow> cvec list \<Rightarrow> error + cmat list" where
  "s2z ss z0s =
     (if length ss \<noteq> length z0s then Inl ShapeError
      else sequence_err (map2 s2z_point ss z0s))"

definition z2s :: "cmat list \<Rightarrow> cvec list \<Rightarrow> error + cmat list" where
  "z2s zs z0s =
     (if length zs \<noteq> length z0s then Inl ShapeError
      else sequence_err (map2 z2s_point zs z0s))"

definition network_z :: "network \<Rightarrow> error + cmat list" where
  "network_z N = s2z (ntwk_s N) (ntwk_z0 N)"

subsection \<open>Renormalizer\<close>

text \<open>Modelled from the spec: \<^verbatim>\<open>Network.renormalize\<close> (its code is missing). The network is
  converted to impedance parameters with its current \<open>z0\<close> and back to scattering
  parameters with the new one, which replaces \<open>z0\<close>. The new impedances are given per
  frequency point and port.\<close>

definition renormalize :: "network \<Rightarrow> cvec list \<Rightarrow> error + network" where
  "renormalize N z0_new =
     bind_err (network_z N) (\<lambda>z.
     bind_err (z2s z z0_new) (\<lambda>s_new.
     Inr (N\<lparr> ntwk_s := s_new, ntwk_z0 := z0_new \<rparr>)))"

text \<open>A scalar target impedance applies to all ports and frequency points
  (\<^verbatim>\<open>composite.renormalize(50)\<close>).\<close>

definition scalar_z0 :: "network \<Rightarrow> complex \<Rightarrow> cvec list" where
  "scalar_z0 N z = map (\<lambda>_. replicate (nports N) z) (frequency N)"

subsection \<open>Connector\<close>

text \<open>Modelled from the spec: \<^verbatim>\<open>rf.connect\<close> (its code is missing). Both networks are
  converted to impedance parameters. With the ports of A numbered before those of B, the
  joined ports \<open>p\<close> (of A) and \<open>q\<close> (of B) have the same voltage and opposite currents;
  eliminating that current from \<open>V = Z I\<close> gives the impedance matrix of the surviving
  ports, which is converted back to scattering parameters referenced to the surviving
  ports' own impedances, in the order given by \<open>connect_ports\<close>.\<close>

definition block_diag :: "cmat \<Rightarrow> cmat \<Rightarrow> cmat" where
  "block_diag A B =
     map (\<lambda>row. row @ replicate (length B) 0) A @
     map (\<lambda>row. replicate (length A) 0 @ row) B"

definition join_ports :: "cmat \<Rightarrow> nat \<Rightarrow> nat \<Rightarrow> error + cmat" where
  "join_ports Z p q =
     (let den = Z ! p ! p + Z ! q ! q - Z ! p ! q - Z ! q ! p;
          keep = filter (\<lambda>r. r \<noteq> p \<and> r \<noteq> q) [0..<length Z]
      in if den = 0 then Inl SingularityError
         else Inr (map (\<lambda>r. map (\<lambda>c.
                 Z ! r ! c - (Z ! r ! p - Z ! r ! q) * (Z ! p ! c - Z ! q ! c) / den) keep) keep))"

definition connect_point ::
    "cmat \<Rightarrow> cvec \<Rightarrow> nat \<Rightarrow> cmat \<Rightarrow> cvec \<Rightarrow> nat \<Rightarrow> error + cmat \<times> cvec" where
  "connect_point zA z0A i zB z0B j =
     bind_err (join_ports (block_diag zA zB) i (length zA + j)) (\<lambda>z.
     bind_err (connect_ports z0A i z0B j) (\<lambda>z0.
     bind_err (z2s_point z z0) (\<lambda>s_new.
     Inr (s_new, z0))))"

definition connect :: "network \<Rightarrow> nat \<Rightarrow> network \<Rightarrow> nat \<Rightarrow> error + network" where
  "connect A i B j =
     (if frequency A \<noteq> frequency B then Inl DomainError
      else if \<not> (i < nports A \<and> j < nports B) then Inl DomainError
      else
        bind_err (network_z A) (\<lambda>zA.
        bind_err (network_z B) (\<lambda>zB.
        bind_err (sequence_err (map (\<lambda>f.
                    connect_point (zA ! f) (ntwk_z0 A ! f) i (zB ! f) (ntwk_z0 B ! f) j)
                    [0..<length (frequency A)])) (\<lambda>pts.
        Inr \<lparr> frequency = frequency A, nports = nports A + nports B - 2,
              ntwk_s = map fst pts, ntwk_z0 = map snd pts \<rparr>))))"

subsection \<open>The composition loop of the notebook\<close>

text \<open>\<^verbatim>\<open>z_loads = array([k.z.flatten() for k in loads]).T\<close>: the impedance of every load at
  every frequency point. The model keeps the array before the transposition, one row per
  load, so that the notebook's column \<^verbatim>\<open>z_loads[:,a]\<close> is row \<open>a\<close> here.\<close>

definition load_z :: "network \<Rightarrow> error + cvec" where
  "load_z L = bind_err (network_z L) (\<lambda>z. Inr (concat (map concat z)))"

definition z_loads :: "network list \<Rightarrow> error + cvec list" where
  "z_loads loads = sequence_err (map load_z loads)"

text \<open>The optional noise: \<^verbatim>\<open>two_port.add_noise_polar(*noise)\<close> draws fresh random numbers
  at every call, so the perturbation is a function of the pair being measured.\<close>

type_synonym noise = "(nat \<times> nat \<Rightarrow> network \<Rightarrow> network) option"

text \<open>The raw 2-port measurement of the pair \<open>(a, b)\<close>: the other two ports are
  terminated with their loads, \<open>c\<close> first and then \<open>d\<close>, which has moved to position
  \<open>e\<close>.\<close>

definition raw_measurement ::
    "network \<Rightarrow> network list \<Rightarrow> noise \<Rightarrow> nat \<Rightarrow> nat \<Rightarrow> error + network" where
  "raw_measurement dut loads noise a b =
     bind_err (other_ports (ports (nports dut)) a b) (\<lambda>(c, d).
     bind_err (index_after (ports (nports dut)) c d) (\<lambda>e.
     bind_err (nth_err loads c) (\<lambda>load_c.
     bind_err (connect dut c load_c 0) (\<lambda>three_port.
     bind_err (nth_err loads d) (\<lambda>load_d.
     bind_err (connect three_port e load_d 0) (\<lambda>two_port.
     Inr (case noise of None \<Rightarrow> two_port | Some perturb \<Rightarrow> perturb (a, b) two_port)))))))"

text \<open>\<^verbatim>\<open>two_port.renormalize(c_[z_loads[:,a], z_loads[:,b]])\<close>\<close>

definition renormalized_measurement ::
    "cvec list \<Rightarrow> nat \<Rightarrow> nat \<Rightarrow> network \<Rightarrow> error + network" where
  "renormalized_measurement zl a b two_port =
     bind_err (nth_err zl a) (\<lambda>za.
     bind_err (nth_err zl b) (\<lambda>zb.
     renormalize two_port (map2 (\<lambda>x y. [x, y]) za zb)))"

text \<open>Reading and writing one cell of \<open>s\<close>, or one slot of \<open>z0\<close>, at all frequency points:
  \<^verbatim>\<open>two_port.s[:,i,j]\<close>, \<^verbatim>\<open>composite.s[:,m,n] = ...\<close>, \<^verbatim>\<open>two_port.z0[:,i]\<close>,
  \<^verbatim>\<open>composite.z0[:,a] = ...\<close>. An index out of range raises; the assigned values must
  have the length of the frequency axis, or length one (numpy broadcasts a single value).\<close>

definition get_s :: "network \<Rightarrow> nat \<Rightarrow> nat \<Rightarrow> error + complex list" where
  "get_s T i j =
     (if i < nports T \<and> j < nports T then Inr (map (\<lambda>M. M ! i ! j) (ntwk_s T))
      else Inl IndexError)"

definition get_z0 :: "network \<Rightarrow> nat \<Rightarrow> error + complex list" where
  "get_z0 T i =
     (if i < nports T then Inr (map (\<lambda>z. z ! i) (ntwk_z0 T)) else Inl IndexError)"

definition broadcast :: "nat \<Rightarrow> complex list \<Rightarrow> error + complex list" where
  "broadcast F vals =
     (if length vals = F then Inr vals
      else if length vals = 1 then Inr (replicate F (vals ! 0))
      else Inl ValueError)"

definition set_s :: "network \<Rightarrow> nat \<Rightarrow> nat \<Rightarrow> complex list \<Rightarrow> error + network" where
  "set_s C m n vals =
     (if \<not> (m < nports C \<and> n < nports C) then Inl IndexError
      else bind_err (broadcast (length (ntwk_s C)) vals) (\<lambda>vs.
        Inr (C\<lparr> ntwk_s := map2 (\<lambda>M v. M[m := (M ! m)[n := v]]) (ntwk_s C) vs \<rparr>)))"

definition set_z0 :: "network \<Rightarrow> nat \<Rightarrow> complex list \<Rightarrow> error + network" where
  "set_z0 C m vals =
     (if \<not> m < nports C then Inl IndexError
      else bind_err (broadcast (length (ntwk_z0 C)) vals) (\<lambda>vs.
        Inr (C\<lparr> ntwk_z0 := map2 (\<lambda>z v. z[m := v]) (ntwk_z0 C) vs \<rparr>)))"

text \<open>Stuffing the 2-port into the composite: the four assignments of the double loop over
  \<^verbatim>\<open>enumerate([a,b])\<close>, in its order, and then the two port impedances.\<close>

definition write_block :: "network \<Rightarrow> nat \<Rightarrow> nat \<Rightarrow> network \<Rightarrow> error + network" where
  "write_block C a b T =
     bind_err (get_s T 0 0) (\<lambda>v. bind_err (set_s C a a v) (\<lambda>C1.
     bind_err (get_s T 0 1) (\<lambda>v. bind_err (set_s C1 a b v) (\<lambda>C2.
     bind_err (get_s T 1 0) (\<lambda>v. bind_err (set_s C2 b a v) (\<lambda>C3.
     bind_err (get_s T 1 1) (\<lambda>v. bind_err (set_s C3 b b v) (\<lambda>C4.
     bind_err (get_z0 T 0) (\<lambda>v. bind_err (set_z0 C4 a v) (\<lambda>C5.
     bind_err (get_z0 T 1) (\<lambda>v. set_z0 C5 b v)))))))))))"

text \<open>The state of the loop: the composite being filled, and the two dictionaries of raw
  and of renormalized measurements (keyed by the pair; the notebook's key is the string
  \<^verbatim>\<open>'%i%i'%(a,b)\<close>).\<close>

record composer_state =
  composite :: network
  measured :: "nat \<times> nat \<rightharpoonup> network"
  measured_renorm :: "nat \<times> nat \<rightharpoonup> network"

definition composer_step ::
    "network \<Rightarrow> network list \<Rightarrow> cvec list \<Rightarrow> noise \<Rightarrow> composer_state \<Rightarrow> nat \<times> nat
      \<Rightarrow> error + composer_state" where
  "composer_step dut loads zl noise st ab =
     (case ab of (a, b) \<Rightarrow>
        bind_err (raw_measurement dut loads noise a b) (\<lambda>raw.
        bind_err (renormalized_measurement zl a b raw) (\<lambda>ren.
        bind_err (write_block (composite st) a b ren) (\<lambda>C.
        Inr \<lparr> composite = C,
              measured = (measured st)((a, b) \<mapsto> raw),
              measured_renorm = (measured_renorm st)((a, b) \<mapsto> ren) \<rparr>))))"

fun composer_loop ::
    "network \<Rightarrow> network list \<Rightarrow> cvec list \<Rightarrow> noise \<Rightarrow> composer_state \<Rightarrow> (nat \<times> nat) list
      \<Rightarrow> error + composer_state" where
  "composer_loop dut loads zl noise st [] = Inr st"
| "composer_loop dut loads zl noise st (ab # rest) =
     (case composer_step dut loads zl noise st ab of
        Inl err \<Rightarrow> Inl err
      | Inr st' \<Rightarrow> composer_loop dut loads zl noise st' rest)"

text \<open>The whole composition up to the final renormalization: the impedances of the loads,
  the matched composite to be filled, the loop over all pairs.\<close>

definition compose :: "media \<Rightarrow> network \<Rightarrow> network list \<Rightarrow> noise \<Rightarrow> error + composer_state" where
  "compose wg dut loads noise =
     bind_err (z_loads loads) (\<lambda>zl.
     composer_loop dut loads zl noise
       \<lparr> composite = match wg (nports dut), measured = Map.empty, measured_renorm = Map.empty \<rparr>
       (port_combos (nports dut)))"

text \<open>The Composer: the loop, and \<^verbatim>\<open>composite.renormalize(50)\<close>.\<close>

definition composer :: "media \<Rightarrow> network \<Rightarrow> network list \<Rightarrow> noise \<Rightarrow> error + network" where
  "composer wg dut loads noise =
     bind_err (compose wg dut loads noise) (\<lambda>st.
     renormalize (composite st) (scalar_z0 (composite st) 50))"

text \<open>\<^verbatim>\<open>def tippits(dut, gamma, noise=None)\<close>: the Composer with the same load on every
  port.\<close>

definition tippits :: "media \<Rightarrow> network \<Rightarrow> complex \<Rightarrow> noise \<Rightarrow> error + network" where
  "tippits wg dut gamma noise = composer wg dut (tippits_loads wg (nports dut) gamma) noise"

subsection \<open>Notions used to state the properties of the loop\<close>

text \<open>The cells of \<open>s\<close> and the slots of \<open>z0\<close> that the iteration for the pair \<open>(a, b)\<close>
  assigns.\<close>

definition s_cells :: "nat \<Rightarrow> nat \<Rightarrow> (nat \<times> nat) set" where
  "s_cells a b = {(a, a), (a, b), (b, a), (b, b)}"

definition z0_slots :: "nat \<Rightarrow> nat \<Rightarrow> nat set" where
  "z0_slots a b = {a, b}"

text \<open>The pair measures port \<open>k\<close>.\<close>

definition touches :: "nat \<Rightarrow> nat \<times> nat \<Rightarrow> bool" where
  "touches k ab = (fst ab = k \<or> snd ab = k)"

text \<open>The pair assigns the cell \<open>(m, n)\<close> of \<open>s\<close>.\<close>

definition covers :: "nat \<Rightarrow> nat \<Rightarrow> nat \<times> nat \<Rightarrow> bool" where
  "covers m n ab = ((m, n) \<in> s_cells (fst ab) (snd ab))"

text \<open>The last pair of the loop that measures port \<open>k\<close>, and the position of \<open>k\<close> in
  it.\<close>

definition last_pair_with :: "nat \<Rightarrow> nat \<Rightarrow> nat \<times> nat" where
  "last_pair_with n k = last (filter (touches k) (port_combos n))"

definition position_in :: "nat \<Rightarrow> nat \<times> nat \<Rightarrow> nat" where
  "position_in k ab = (if fst ab = k then 0 else 1)"

text \<open>The data model's invariants on the inputs of a composition: the medium gives an
  impedance at every point of its grid, and the loads are well-formed 1-ports on that
  grid.\<close>

definition wf_media :: "media \<Rightarrow> bool" where
  "wf_media wg = (length (med_z0 wg) = length (med_frequency wg))"

definition loads_on :: "media \<Rightarrow> network list \<Rightarrow> bool" where
  "loads_on wg loads =
     list_all (\<lambda>L. wf_network L \<and> nports L = 1 \<and> frequency L = med_frequency wg) loads"

subsection \<open>A worked example\<close>

text \<open>A worked example, at a single frequency point. The medium has the impedance 50 Ohm.\<close>

definition ex_wg :: "media" where
  "ex_wg =
     \<lparr>med_frequency = [1], med_z0 = [50]\<rparr>"

text \<open>The device: port 0 is isolated from the other three ports, which are coupled to each
  other.\<close>

definition ex_dut :: "network" where
  "ex_dut =
     \<lparr>frequency = [1], nports = 4, ntwk_s = [[[1 / 2, 0, 0, 0], [0, 0, 1 / 3, 1 / 3], [0, 1 / 3, 0, 1 / 3], [0, 1 / 3, 1 / 3, 0]]], ntwk_z0 = [[50, 50, 50, 50]]\<rparr>"

text \<open>The loads, of 25, 100, 225 and 400 Ohm.\<close>

definition ex_loads :: "network list" where
  "ex_loads =
     [load ex_wg (- (1 / 3)), load ex_wg (1 / 3), load ex_wg (7 / 11), load ex_wg (7 / 9)]"

text \<open>The device with port 0 terminated by its load.\<close>

definition ex_three_0 :: "network" where
  "ex_three_0 =
     \<lparr>frequency = [1], nports = 3, ntwk_s = [[[0, 1 / 3, 1 / 3], [1 / 3, 0, 1 / 3], [1 / 3, 1 / 3, 0]]], ntwk_z0 = [[50, 50, 50]]\<rparr>"

definition ex_three_1 :: "network" where
  "ex_three_1 =
     \<lparr>frequency = [1], nports = 3, ntwk_s = [[[1 / 2, 0, 0], [0, 1 / 27, 10 / 27], [0, 10 / 27, 1 / 27]]], ntwk_z0 = [[50, 50, 50]]\<rparr>"

definition ex_three_2 :: "network" where
  "ex_three_2 =
     \<lparr>frequency = [1], nports = 3, ntwk_s = [[[1 / 2, 0, 0], [0, 7 / 99, 40 / 99], [0, 40 / 99, 7 / 99]]], ntwk_z0 = [[50, 50, 50]]\<rparr>"

text \<open>The composite, before the loop and after each of its six iterations.\<close>

definition ex_comp_0 :: "network" where
  "ex_comp_0 =
     \<lparr>frequency = [1], nports = 4, ntwk_s = [[[0, 0, 0, 0], [0, 0, 0, 0], [0, 0, 0, 0], [0, 0, 0, 0]]], ntwk_z0 = [[50, 50, 50, 50]]\<rparr>"

text \<open>The raw and the renormalized measurement of each pair.\<close>

definition ex_raw_01 :: "network" where
  "ex_raw_01 =
     \<lparr>frequency = [1], nports = 2, ntwk_s = [[[1 / 2, 0], [0, 259 / 1263]]], ntwk_z0 = [[50, 50]]\<rparr>"

definition ex_ren_01 :: "network" where
  "ex_ren_01 =
     \<lparr>frequency = [1], nports = 2, ntwk_s = [[[5 / 7, 0], [0, - (243 / 1765)]]], ntwk_z0 = [[25, 100]]\<rparr>"

definition ex_comp_1 :: "network" where
  "ex_comp_1 =
     \<lparr>frequency = [1], nports = 4, ntwk_s = [[[5 / 7, 0, 0, 0], [0, - (243 / 1765), 0, 0], [0, 0, 0, 0], [0, 0, 0, 0]]], ntwk_z0 = [[25, 100, 50, 50]]\<rparr>"

definition ex_raw_02 :: "network" where
  "ex_raw_02 =
     \<lparr>frequency = [1], nports = 2, ntwk_s = [[[1 / 2, 0], [0, 26 / 177]]], ntwk_z0 = [[50, 50]]\<rparr>"

definition ex_ren_02 :: "network" where
  "ex_ren_02 =
     \<lparr>frequency = [1], nports = 2, ntwk_s = [[[5 / 7, 0], [0, - (953 / 1765)]]], ntwk_z0 = [[25, 225]]\<rparr>"

definition ex_comp_2 :: "network" where
  "ex_comp_2 =
     \<lparr>frequency = [1], nports = 4, ntwk_s = [[[5 / 7, 0, 0, 0], [0, - (243 / 1765), 0, 0], [0, 0, - (953 / 1765), 0], [0, 0, 0, 0]]], ntwk_z0 = [[25, 100, 225, 50]]\<rparr>"

definition ex_raw_03 :: "network" where
  "ex_raw_03 =
     \<lparr>frequency = [1], nports = 2, ntwk_s = [[[1 / 2, 0], [0, 11 / 87]]], ntwk_z0 = [[50, 50]]\<rparr>"

definition ex_ren_03 :: "network" where
  "ex_ren_03 =
     \<lparr>frequency = [1], nports = 2, ntwk_s = [[[5 / 7, 0], [0, - (255 / 353)]]], ntwk_z0 = [[25, 400]]\<rparr>"

definition ex_comp_3 :: "network" where
  "ex_comp_3 =
     \<lparr>frequency = [1], nports = 4, ntwk_s = [[[5 / 7, 0, 0, 0], [0, - (243 / 1765), 0, 0], [0, 0, - (953 / 1765), 0], [0, 0, 0, - (255 / 353)]]], ntwk_z0 = [[25, 100, 225, 400]]\<rparr>"

definition ex_raw_12 :: "network" where
  "ex_raw_12 =
     \<lparr>frequency = [1], nports = 2, ntwk_s = [[[7 / 81, 34 / 81], [34 / 81, 7 / 81]]], ntwk_z0 = [[50, 50]]\<rparr>"

definition ex_ren_12 :: "network" where
  "ex_ren_12 =
     \<lparr>frequency = [1], nports = 2, ntwk_s = [[[- (243 / 1765), 612 / 1765], [612 / 1765, - (953 / 1765)]]], ntwk_z0 = [[100, 225]]\<rparr>"

definition ex_comp_4 :: "network" where
  "ex_comp_4 =
     \<lparr>frequency = [1], nports = 4, ntwk_s = [[[5 / 7, 0, 0, 0], [0, - (243 / 1765), 612 / 1765, 0], [0, 612 / 1765, - (953 / 1765), 0], [0, 0, 0, - (255 / 353)]]], ntwk_z0 = [[25, 100, 225, 400]]\<rparr>"

definition ex_raw_13 :: "network" where
  "ex_raw_13 =
     \<lparr>frequency = [1], nports = 2, ntwk_s = [[[7 / 99, 40 / 99], [40 / 99, 7 / 99]]], ntwk_z0 = [[50, 50]]\<rparr>"

definition ex_ren_13 :: "network" where
  "ex_ren_13 =
     \<lparr>frequency = [1], nports = 2, ntwk_s = [[[- (243 / 1765), 96 / 353], [96 / 353, - (255 / 353)]]], ntwk_z0 = [[100, 400]]\<rparr>"

definition ex_comp_5 :: "network" where
  "ex_comp_5 =
     \<lparr>frequency = [1], nports = 4, ntwk_s = [[[5 / 7, 0, 0, 0], [0, - (243 / 1765), 612 / 1765, 96 / 353], [0, 612 / 1765, - (953 / 1765), 0], [0, 96 / 353, 0, - (255 / 353)]]], ntwk_z0 = [[25, 100, 225, 400]]\<rparr>"

definition ex_raw_23 :: "network" where
  "ex_raw_23 =
     \<lparr>frequency = [1], nports = 2, ntwk_s = [[[1 / 27, 10 / 27], [10 / 27, 1 / 27]]], ntwk_z0 = [[50, 50]]\<rparr>"

definition ex_ren_23 :: "network" where
  "ex_ren_23 =
     \<lparr>frequency = [1], nports = 2, ntwk_s = [[[- (953 / 1765), 72 / 353], [72 / 353, - (255 / 353)]]], ntwk_z0 = [[225, 400]]\<rparr>"

definition ex_comp_6 :: "network" where
  "ex_comp_6 =
     \<lparr>frequency = [1], nports = 4, ntwk_s = [[[5 / 7, 0, 0, 0], [0, - (243 / 1765), 612 / 1765, 96 / 353], [0, 612 / 1765, - (953 / 1765), 72 / 353], [0, 96 / 353, 72 / 353, - (255 / 353)]]], ntwk_z0 = [[25, 100, 225, 400]]\<rparr>"

text \<open>The state of the loop at its end.\<close>

definition ex_state :: "composer_state" where
  "ex_state =
     \<lparr>composite = ex_comp_6,
       measured = [(0, 1) \<mapsto> ex_raw_01, (0, 2) \<mapsto> ex_raw_02, (0, 3) \<mapsto> ex_raw_03, (1, 2) \<mapsto> ex_raw_12, (1, 3) \<mapsto> ex_raw_13, (2, 3) \<mapsto> ex_raw_23],
       measured_renorm = [(0, 1) \<mapsto> ex_ren_01, (0, 2) \<mapsto> ex_ren_02, (0, 3) \<mapsto> ex_ren_03, (1, 2) \<mapsto> ex_ren_12, (1, 3) \<mapsto> ex_ren_13, (2, 3) \<mapsto> ex_ren_23]\<rparr>"

text \<open>The same run with measurement errors: the two reflection coefficients of each raw
  measurement are off by an amount that depends on the pair.\<close>

definition ex_perturb :: "nat \<times> nat \<Rightarrow> network \<Rightarrow> network" where
  "ex_perturb =
     (\<lambda>(a, b) N. N\<lparr>ntwk_s :=
        map (\<lambda>M. mat_add M [[of_nat (a + 2 * b) / 100, 0], [0, of_nat (2 * a + b) / 100]])
          (ntwk_s N)\<rparr>)"

text \<open>The raw and the renormalized measurement of each pair, with the errors.\<close>

definition nx_raw_01 :: "network" where
  "nx_raw_01 =
     \<lparr>frequency = [1], nports = 2, ntwk_s = [[[13 / 25, 0], [0, 27163 / 126300]]], ntwk_z0 = [[50, 50]]\<rparr>"

definition nx_ren_01 :: "network" where
  "nx_ren_01 =
     \<lparr>frequency = [1], nports = 2, ntwk_s = [[[8 / 11, 0], [0, - (44811 / 351737)]]], ntwk_z0 = [[25, 100]]\<rparr>"

text \<open>The composite after each of the six iterations, with the errors.\<close>

definition nx_comp_1 :: "network" where
  "nx_comp_1 =
     \<lparr>frequency = [1], nports = 4, ntwk_s = [[[8 / 11, 0, 0, 0], [0, - (44811 / 351737), 0, 0], [0, 0, 0, 0], [0, 0, 0, 0]]], ntwk_z0 = [[25, 100, 50, 50]]\<rparr>"

definition nx_raw_02 :: "network" where
  "nx_raw_02 =
     \<lparr>frequency = [1], nports = 2, ntwk_s = [[[27 / 50, 0], [0, 1477 / 8850]]], ntwk_z0 = [[50, 50]]\<rparr>"

definition nx_ren_02 :: "network" where
  "nx_ren_02 =
     \<lparr>frequency = [1], nports = 2, ntwk_s = [[[131 / 177, 0], [0, - (45703 / 87011)]]], ntwk_z0 = [[25, 225]]\<rparr>"

definition nx_comp_2 :: "network" where
  "nx_comp_2 =
     \<lparr>frequency = [1], nports = 4, ntwk_s = [[[131 / 177, 0, 0, 0], [0, - (44811 / 351737), 0, 0], [0, 0, - (45703 / 87011), 0], [0, 0, 0, 0]]], ntwk_z0 = [[25, 100, 225, 50]]\<rparr>"

definition nx_raw_03 :: "network" where
  "nx_raw_03 =
     \<lparr>frequency = [1], nports = 2, ntwk_s = [[[14 / 25, 0], [0, 1361 / 8700]]], ntwk_z0 = [[50, 50]]\<rparr>"

definition nx_ren_03 :: "network" where
  "nx_ren_03 =
     \<lparr>frequency = [1], nports = 2, ntwk_s = [[[67 / 89, 0], [0, - (48651 / 68773)]]], ntwk_z0 = [[25, 400]]\<rparr>"

definition nx_comp_3 :: "network" where
  "nx_comp_3 =
     \<lparr>frequency = [1], nports = 4, ntwk_s = [[[67 / 89, 0, 0, 0], [0, - (44811 / 351737), 0, 0], [0, 0, - (45703 / 87011), 0], [0, 0, 0, - (48651 / 68773)]]], ntwk_z0 = [[25, 100, 225, 400]]\<rparr>"

definition nx_raw_12 :: "network" where
  "nx_raw_12 =
     \<lparr>frequency = [1], nports = 2, ntwk_s = [[[221 / 1620, 34 / 81], [34 / 81, 256 / 2025]]], ntwk_z0 = [[50, 50]]\<rparr>"

definition nx_ren_12 :: "network" where
  "nx_ren_12 =
     \<lparr>frequency = [1], nports = 2, ntwk_s = [[[- (276453 / 3369431), 1224000 / 3369431], [1224000 / 3369431, - (1716163 / 3369431)]]], ntwk_z0 = [[100, 225]]\<rparr>"

definition nx_comp_4 :: "network" where
  "nx_comp_4 =
     \<lparr>frequency = [1], nports = 4, ntwk_s = [[[67 / 89, 0, 0, 0], [0, - (276453 / 3369431), 1224000 / 3369431, 0], [0, 1224000 / 3369431, - (1716163 / 3369431), 0], [0, 0, 0, - (48651 / 68773)]]], ntwk_z0 = [[25, 100, 225, 400]]\<rparr>"

definition nx_raw_13 :: "network" where
  "nx_raw_13 =
     \<lparr>frequency = [1], nports = 2, ntwk_s = [[[1393 / 9900, 40 / 99], [40 / 99, 239 / 1980]]], ntwk_z0 = [[50, 50]]\<rparr>"

definition nx_ren_13 :: "network" where
  "nx_ren_13 =
     \<lparr>frequency = [1], nports = 2, ntwk_s = [[[- (762939 / 13171913), 3840000 / 13171913], [3840000 / 13171913, - (9171111 / 13171913)]]], ntwk_z0 = [[100, 400]]\<rparr>"

definition nx_comp_5 :: "network" where
  "nx_comp_5 =
     \<lparr>frequency = [1], nports = 4, ntwk_s = [[[67 / 89, 0, 0, 0], [0, - (762939 / 13171913), 1224000 / 3369431, 3840000 / 13171913], [0, 1224000 / 3369431, - (1716163 / 3369431), 0], [0, 3840000 / 13171913, 0, - (9171111 / 13171913)]]], ntwk_z0 = [[25, 100, 225, 400]]\<rparr>"

definition nx_raw_23 :: "network" where
  "nx_raw_23 =
     \<lparr>frequency = [1], nports = 2, ntwk_s = [[[79 / 675, 10 / 27], [10 / 27, 289 / 2700]]], ntwk_z0 = [[50, 50]]\<rparr>"

definition nx_ren_23 :: "network" where
  "nx_ren_23 =
     \<lparr>frequency = [1], nports = 2, ntwk_s = [[[- (925696 / 1956077), 450000 / 1956077], [450000 / 1956077, - (1336899 / 1956077)]]], ntwk_z0 = [[225, 400]]\<rparr>"

definition nx_comp_6 :: "network" where
  "nx_comp_6 =
     \<lparr>frequency = [1], nports = 4, ntwk_s = [[[67 / 89, 0, 0, 0], [0, - (762939 / 13171913), 1224000 / 3369431, 3840000 / 13171913], [0, 1224000 / 3369431, - (925696 / 1956077), 450000 / 1956077], [0, 3840000 / 13171913, 450000 / 1956077, - (1336899 / 1956077)]]], ntwk_z0 = [[25, 100, 225, 400]]\<rparr>"

text \<open>The state of the loop at its end, with the errors.\<close>

definition nx_state :: "composer_state" where
  "nx_state =
     \<lparr>composite = nx_comp_6,
       measured = [(0, 1) \<mapsto> nx_raw_01, (0, 2) \<mapsto> nx_raw_02, (0, 3) \<mapsto> nx_raw_03, (1, 2) \<mapsto> nx_raw_12, (1, 3) \<mapsto> nx_raw_13, (2, 3) \<mapsto> nx_raw_23],
       measured_renorm = [(0, 1) \<mapsto> nx_ren_01, (0, 2) \<mapsto> nx_ren_02, (0, 3) \<mapsto> nx_ren_03, (1, 2) \<mapsto> nx_ren_12, (1, 3) \<mapsto> nx_ren_13, (2, 3) \<mapsto> nx_ren_23]\<rparr>"

subsection \<open>Notions used to state the correctness of the elimination\<close>

text \<open>An extended matrix \<open>[A | B]\<close> with \<open>n\<close> rows of length \<open>2n\<close> stands for the linear
  system \<open>A x = B y\<close>.\<close>

definition aug :: "nat \<Rightarrow> cmat \<Rightarrow> bool" where
  "aug n M = (length M = n \<and> (\<forall>i<n. length (M ! i) = 2 * n))"

definition row_holds :: "nat \<Rightarrow> cvec \<Rightarrow> (nat \<Rightarrow> complex) \<Rightarrow> (nat \<Rightarrow> complex) \<Rightarrow> bool" where
  "row_holds n r x y = ((\<Sum>j<n. r ! j * x j) = (\<Sum>j<n. r ! (n + j) * y j))"

definition sys :: "nat \<Rightarrow> cmat \<Rightarrow> (nat \<Rightarrow> complex) \<Rightarrow> (nat \<Rightarrow> complex) \<Rightarrow> bool" where
  "sys n M x y = (\<forall>i<n. row_holds n (M ! i) x y)"

definition unit_cols :: "nat \<Rightarrow> nat \<Rightarrow> cmat \<Rightarrow> bool" where
  "unit_cols n k M = (\<forall>i<n. \<forall>j<k. M ! i ! j = (if i = j then 1 else 0))"

text \<open>The multiple of a matrix by a scalar.\<close>

definition mat_scale :: "complex \<Rightarrow> cmat \<Rightarrow> cmat" where
  "mat_scale c A = map (map ((*) c)) A"

subsection \<open>Notions used to state the correctness of the composition\<close>

text \<open>Row \<open>k\<close> of the product of a matrix and a vector.\<close>

definition mv :: "nat \<Rightarrow> cmat \<Rightarrow> (nat \<Rightarrow> complex) \<Rightarrow> nat \<Rightarrow> complex" where
  "mv n A u k = (\<Sum>j<n. A ! k ! j * u j)"

text \<open>The index, before a port is removed, of what is at index \<open>r\<close> afterwards.\<close>

definition skip :: "nat \<Rightarrow> nat \<Rightarrow> nat" where
  "skip c r = (if r < c then r else Suc r)"

text \<open>The impedance matrix of a network whose port \<open>c\<close> is terminated with the impedance
  \<open>zl\<close>: with \<open>V c = - zl * I c\<close>, the current \<open>I c\<close> is eliminated from \<open>V = Z I\<close>.\<close>

definition terminate_z :: "cmat \<Rightarrow> nat \<Rightarrow> complex \<Rightarrow> cmat" where
  "terminate_z Z c zl =
     map (\<lambda>r. map (\<lambda>s. Z ! r ! s - Z ! r ! c * Z ! c ! s / (Z ! c ! c + zl))
                (delete_at c [0..<length Z]))
         (delete_at c [0..<length Z])"

text \<open>The bookkeeping of one pair of a 4-port: with \<open>a\<close> and \<open>b\<close> measured, the ports
  \<open>c\<close> and \<open>d\<close> are terminated, \<open>d\<close> at position \<open>e\<close> of the 3-port, and the two ports
  that remain are \<open>a\<close> and \<open>b\<close>.\<close>

definition pair_ok :: "nat \<Rightarrow> nat \<Rightarrow> nat \<Rightarrow> nat \<Rightarrow> nat \<Rightarrow> bool" where
  "pair_ok a b c d e =
     (other_ports (ports 4) a b = Inr (c, d) \<and> index_after (ports 4) c d = Inr e \<and>
      a < 4 \<and> b < 4 \<and> c < 4 \<and> d < 4 \<and> e < 3 \<and> a \<noteq> b \<and>
      c \<noteq> a \<and> c \<noteq> b \<and> d \<noteq> a \<and> d \<noteq> b \<and>
      skip c e = d \<and> skip c (skip e 0) = a \<and> skip c (skip e 1) = b)"

text \<open>The block of a matrix at the ports \<open>a\<close> and \<open>b\<close>.\<close>

definition block_at :: "cmat \<Rightarrow> nat \<Rightarrow> nat \<Rightarrow> cmat" where
  "block_at S a b = [[S ! a ! a, S ! a ! b], [S ! b ! a, S ! b ! b]]"

subsection \<open>Notions used to state the laws of the conversions\<close>

text \<open>A scattering matrix is regular when none of its entries is \<open>1\<close> or \<open>-1\<close>: the
  conversion to impedance parameters then takes it as it is.\<close>

definition regular :: "cmat \<Rightarrow> bool" where
  "regular s = list_all (list_all (\<lambda>x. x \<noteq> 1 \<and> x \<noteq> - 1)) s"



text \<open>The bilinear relation itself, from scattering to impedance parameters.\<close>

definition s2z_core :: "cmat \<Rightarrow> cvec \<Rightarrow> error + cmat" where
  "s2z_core s z0 =
     (if \<not> square_mat (length z0) s then Inl ShapeError
      else
        (case mat_inv (mat_sub (mat_id (length z0)) s) of
           None \<Rightarrow> Inl SingularityError
         | Some X \<Rightarrow> Inr (denormalise_z (mat_mul X (mat_add (mat_id (length z0)) s)) z0)))"

subsection \<open>Notions used to evaluate the conversions\<close>

text \<open>Scaling row \<open>i\<close> and column \<open>j\<close> of a matrix by \<open>r ! i\<close> and \<open>r ! j\<close>.\<close>

definition scale_ports :: "cvec \<Rightarrow> cmat \<Rightarrow> cmat" where
  "scale_ports r A =
     map (\<lambda>i. map (\<lambda>j. r ! i * A ! i ! j * r ! j) [0..<length r]) [0..<length r]"

subsection \<open>Preconditions of the conversions\<close>

text \<open>A matrix is non-singular when the elimination finds its inverse.\<close>

definition nonsingular :: "cmat \<Rightarrow> bool" where
  "nonsingular A = (case mat_inv A of None \<Rightarrow> False | Some _ \<Rightarrow> True)"



section \<open>Properties of the port bookkeeping\<close>

lemma port_combos_four:
  "port_combos 4 = [(0, 1), (0, 2), (0, 3), (1, 2), (1, 3), (2, 3)]"
  by code_simp

lemma pairs_below_four:
  assumes "a < b" and "b < (4::nat)"
  shows "a = 0 \<and> b = 1 \<or> a = 0 \<and> b = 2 \<or> a = 0 \<and> b = 3 \<or>
         a = 1 \<and> b = 2 \<or> a = 1 \<and> b = 3 \<or> a = 2 \<and> b = 3"
  using assms by arith

lemma measured_ports_four_cases:
  "measured_ports 4 0 1 = Inr [0, 1]"
  "measured_ports 4 0 2 = Inr [0, 2]"
  "measured_ports 4 0 3 = Inr [0, 3]"
  "measured_ports 4 1 2 = Inr [1, 2]"
  "measured_ports 4 1 3 = Inr [1, 3]"
  "measured_ports 4 2 3 = Inr [2, 3]"
  by code_simp+

section \<open>Matrix inversion is correct\<close>

text \<open>Every elimination step keeps the solutions of the linear system that the extended
  matrix stands for, and turns one more column into a unit column. When all columns are
  done the left half is the identity and the right half the inverse; when a column has no
  pivot, the system has a non-trivial solution with right-hand side zero and the matrix
  has no inverse.\<close>

lemma eliminate_Some:
  assumes "eliminate k M = Some M'" and "aug n M" and "k < n"
  obtains p where "k \<le> p" and "p < n" and "M ! p ! k \<noteq> 0"
    and "M' = map (\<lambda>i. if i = k then map (\<lambda>x. x / M ! p ! k) (M ! p)
                else map2 (\<lambda>x y. x - (if i = p then M ! k else M ! i) ! k * y)
                       (if i = p then M ! k else M ! i) (map (\<lambda>x. x / M ! p ! k) (M ! p)))
            [0..<n]"
proof -
  from assms(2) have len: "length M = n" by (simp add: aug_def)
  from assms(1) obtain p where f: "find (\<lambda>i. M ! i ! k \<noteq> 0) [k..<length M] = Some p"
    by (auto simp: eliminate_def split: option.splits)
  then have p: "k \<le> p" "p < n" "M ! p ! k \<noteq> 0"
    using len by (auto simp: find_Some_iff)
  have M1k: "M[k := M ! p, p := M ! k] ! k = M ! p"
    using p len assms(3) by (cases "p = k") simp_all
  have M1i: "M[k := M ! p, p := M ! k] ! i = (if i = p then M ! k else M ! i)"
    if "i \<noteq> k" "i < n" for i
    using that p len by simp
  have "M' = map (\<lambda>i. if i = k then map (\<lambda>x. x / M ! p ! k) (M ! p)
                else map2 (\<lambda>x y. x - (if i = p then M ! k else M ! i) ! k * y)
                       (if i = p then M ! k else M ! i) (map (\<lambda>x. x / M ! p ! k) (M ! p)))
            [0..<n]"
    using assms(1) f len M1k
    by (auto simp: eliminate_def Let_def M1i intro!: map_cong)
  with p show thesis by (rule that)
qed


lemma eliminate_nth:
  assumes "eliminate k M = Some M'" and "aug n M" and "k < n"
  shows "\<exists>p. k \<le> p \<and> p < n \<and> M ! p ! k \<noteq> 0 \<and>
    (\<forall>j<2 * n. M' ! k ! j = M ! p ! j / M ! p ! k) \<and>
    (\<forall>i<n. i \<noteq> k \<longrightarrow> (\<forall>j<2 * n.
           M' ! i ! j = (if i = p then M ! k else M ! i) ! j
              - (if i = p then M ! k else M ! i) ! k * (M ! p ! j / M ! p ! k))) \<and>
    length M' = n \<and> (\<forall>i<n. length (M' ! i) = 2 * n)"
proof -
  from assms obtain p where p: "k \<le> p" "p < n" "M ! p ! k \<noteq> 0"
    and M': "M' = map (\<lambda>i. if i = k then map (\<lambda>x. x / M ! p ! k) (M ! p)
                else map2 (\<lambda>x y. x - (if i = p then M ! k else M ! i) ! k * y)
                       (if i = p then M ! k else M ! i) (map (\<lambda>x. x / M ! p ! k) (M ! p)))
            [0..<n]"
    by (rule eliminate_Some)
  from assms(2) have len: "length M = n" "\<And>i. i < n \<Longrightarrow> length (M ! i) = 2 * n"
    by (simp_all add: aug_def)
  have 1: "M' ! k ! j = M ! p ! j / M ! p ! k" if "j < 2 * n" for j
    using that assms(3) p len by (simp add: M')
  have 2: "M' ! i ! j = (if i = p then M ! k else M ! i) ! j
              - (if i = p then M ! k else M ! i) ! k * (M ! p ! j / M ! p ! k)"
    if "i < n" "i \<noteq> k" "j < 2 * n" for i j
    using that assms(3) p len by (simp add: M')
  have 3: "length M' = n" by (simp add: M')
  have 4: "length (M' ! i) = 2 * n" if "i < n" for i
    using that assms(3) p len by (simp add: M')
  from p 1 2 3 4 show ?thesis by blast
qed

lemma eliminate_aug:
  assumes "eliminate k M = Some M'" and "aug n M" and "k < n"
  shows "aug n M'"
  using eliminate_nth [OF assms] by (auto simp: aug_def)

lemma eliminate_unit_cols:
  assumes "eliminate k M = Some M'" and "aug n M" and "k < n" and "unit_cols n k M"
  shows "unit_cols n (Suc k) M'"
proof -
  from eliminate_nth [OF assms(1-3)] obtain p where p: "k \<le> p" "p < n" "M ! p ! k \<noteq> 0"
    and rk: "\<And>j. j < 2 * n \<Longrightarrow> M' ! k ! j = M ! p ! j / M ! p ! k"
    and ri: "\<And>i j. i < n \<Longrightarrow> i \<noteq> k \<Longrightarrow> j < 2 * n \<Longrightarrow>
           M' ! i ! j = (if i = p then M ! k else M ! i) ! j
              - (if i = p then M ! k else M ! i) ! k * (M ! p ! j / M ! p ! k)"
    by blast
  from assms(4) have u: "\<And>i j. i < n \<Longrightarrow> j < k \<Longrightarrow> M ! i ! j = (if i = j then 1 else 0)"
    by (simp add: unit_cols_def)
  have "M' ! i ! j = (if i = j then 1 else 0)" if "i < n" "j < Suc k" for i j
  proof (cases "i = k")
    case True
    show ?thesis
    proof (cases "j = k")
      case True
      with \<open>i = k\<close> p assms(3) show ?thesis by (simp add: rk)
    next
      case False
      with that have "j < k" by simp
      with p have "M ! p ! j = 0" using u [of p j] by simp
      with \<open>i = k\<close> \<open>j < k\<close> assms(3) show ?thesis by (simp add: rk)
    qed
  next
    case False
    show ?thesis
    proof (cases "j = k")
      case True
      with False that p assms(3) show ?thesis by (simp add: ri)
    next
      case False
      with that have jk: "j < k" by simp
      with p have "M ! p ! j = 0" using u [of p j] by simp
      moreover have "(if i = p then M ! k else M ! i) ! j = (if i = j then 1 else 0)"
        using jk that p assms(3) u [of k j] u [of i j] by auto
      ultimately show ?thesis
        using \<open>i \<noteq> k\<close> that jk assms(3) by (simp add: ri)
    qed
  qed
  then show ?thesis by (simp add: unit_cols_def)
qed


lemma row_holds_scale:
  assumes "c \<noteq> 0" and "\<And>j. j < 2 * n \<Longrightarrow> r' ! j = r ! j / c"
  shows "row_holds n r' x y = row_holds n r x y"
proof -
  have "(\<Sum>j<n. r' ! j * x j) = (\<Sum>j<n. r ! j * x j) / c"
    using assms(2) by (simp add: sum_divide_distrib)
  moreover have "(\<Sum>j<n. r' ! (n + j) * y j) = (\<Sum>j<n. r ! (n + j) * y j) / c"
    using assms(2) by (simp add: sum_divide_distrib)
  ultimately show ?thesis
    using assms(1) by (simp add: row_holds_def)
qed

lemma row_holds_sub:
  assumes "row_holds n q x y" and "\<And>j. j < 2 * n \<Longrightarrow> r' ! j = r ! j - m * q ! j"
  shows "row_holds n r' x y = row_holds n r x y"
proof -
  have e: "r' ! j * v = r ! j * v - m * (q ! j * v)" if "j < 2 * n" for j v
    by (simp add: assms(2) [OF that] algebra_simps)
  have "(\<Sum>j<n. r' ! j * x j) = (\<Sum>j<n. r ! j * x j - m * (q ! j * x j))"
    by (intro sum.cong refl e) simp
  then have 1: "(\<Sum>j<n. r' ! j * x j) = (\<Sum>j<n. r ! j * x j) - m * (\<Sum>j<n. q ! j * x j)"
    by (simp add: sum_subtractf sum_distrib_left)
  have "(\<Sum>j<n. r' ! (n + j) * y j) = (\<Sum>j<n. r ! (n + j) * y j - m * (q ! (n + j) * y j))"
    by (intro sum.cong refl e) simp
  then have 2: "(\<Sum>j<n. r' ! (n + j) * y j)
      = (\<Sum>j<n. r ! (n + j) * y j) - m * (\<Sum>j<n. q ! (n + j) * y j)"
    by (simp add: sum_subtractf sum_distrib_left)
  from assms(1) show ?thesis
    by (simp add: row_holds_def 1 2)
qed

lemma eliminate_sys:
  assumes "eliminate k M = Some M'" and "aug n M" and "k < n"
  shows "sys n M' x y = sys n M x y"
proof -
  from eliminate_nth [OF assms(1-3)] obtain p where p: "k \<le> p" "p < n" "M ! p ! k \<noteq> 0"
    and rk: "\<And>j. j < 2 * n \<Longrightarrow> M' ! k ! j = M ! p ! j / M ! p ! k"
    and ri: "\<And>i j. i < n \<Longrightarrow> i \<noteq> k \<Longrightarrow> j < 2 * n \<Longrightarrow>
           M' ! i ! j = (if i = p then M ! k else M ! i) ! j
              - (if i = p then M ! k else M ! i) ! k * (M ! p ! j / M ! p ! k)"
    by blast
  let ?R = "\<lambda>i. if i = p then M ! k else M ! i"
  have pivot: "row_holds n (M' ! k) x y = row_holds n (M ! p) x y"
    using p(3) rk by (rule row_holds_scale)
  have other: "row_holds n (M' ! i) x y = row_holds n (?R i) x y"
    if "row_holds n (M ! p) x y" "i < n" "i \<noteq> k" for i
  proof (rule row_holds_sub [OF that(1)])
    fix j assume "j < 2 * n"
    with that show "M' ! i ! j = ?R i ! j - (?R i ! k / M ! p ! k) * M ! p ! j"
      by (simp add: ri)
  qed
  show ?thesis
  proof
    assume new: "sys n M' x y"
    with assms(3) have hp: "row_holds n (M ! p) x y"
      by (simp add: sys_def pivot [symmetric])
    have R: "row_holds n (?R i) x y" if "i < n" "i \<noteq> k" for i
      using new that other [OF hp that] by (simp add: sys_def)
    have "row_holds n (M ! i) x y" if "i < n" for i
    proof (cases "i = p")
      case True
      with hp show ?thesis by simp
    next
      case False
      show ?thesis
      proof (cases "i = k")
        case True
        with False p have "p \<noteq> k" by simp
        with R [of p] p True show ?thesis by simp
      next
        case False
        with R [of i] \<open>i \<noteq> p\<close> that show ?thesis by simp
      qed
    qed
    then show "sys n M x y" by (simp add: sys_def)
  next
    assume old: "sys n M x y"
    with p have hp: "row_holds n (M ! p) x y"
      by (simp add: sys_def)
    have "row_holds n (M' ! i) x y" if "i < n" for i
    proof (cases "i = k")
      case True
      with hp pivot show ?thesis by simp
    next
      case False
      have "row_holds n (?R i) x y"
        using old that assms(3) by (simp add: sys_def)
      with other [OF hp that False] show ?thesis by simp
    qed
    then show "sys n M' x y" by (simp add: sys_def)
  qed
qed

lemma eliminate_None:
  assumes "eliminate k M = None" and "aug n M" and "k < n" and "unit_cols n k M"
  shows "\<exists>x. x k = 1 \<and> sys n M x (\<lambda>_. 0)"
proof -
  from assms(2) have len: "length M = n" by (simp add: aug_def)
  from assms(1) have "find (\<lambda>i. M ! i ! k \<noteq> 0) [k..<length M] = None"
    by (simp add: eliminate_def Let_def split: option.splits)
  then have zero: "M ! i ! k = 0" if "k \<le> i" "i < n" for i
    using that len by (auto simp: find_None_iff)
  from assms(4) have u: "\<And>i j. i < n \<Longrightarrow> j < k \<Longrightarrow> M ! i ! j = (if i = j then 1 else 0)"
    by (simp add: unit_cols_def)
  define x where "x j = (if j = k then 1 else if j < k then - (M ! j ! k) else 0)" for j
  have "row_holds n (M ! i) x (\<lambda>_. 0)" if "i < n" for i
  proof -
    have "(\<Sum>j<n. M ! i ! j * x j) = (\<Sum>j<Suc k. M ! i ! j * x j)"
      using assms(3) by (intro sum.mono_neutral_right) (auto simp: x_def)
    also have "\<dots> = (\<Sum>j<k. M ! i ! j * x j) + M ! i ! k"
      by (simp add: x_def)
    also have "(\<Sum>j<k. M ! i ! j * x j) = (\<Sum>j<k. if i = j then - (M ! i ! k) else 0)"
      using that by (intro sum.cong) (auto simp: x_def u)
    also have "\<dots> = (if i < k then - (M ! i ! k) else 0)"
      by (simp add: sum.delta)
    finally have "(\<Sum>j<n. M ! i ! j * x j) = 0"
      using zero [of i] that by simp
    then show ?thesis by (simp add: row_holds_def)
  qed
  then have "sys n M x (\<lambda>_. 0)" by (simp add: sys_def)
  moreover have "x k = 1" by (simp add: x_def)
  ultimately show ?thesis by blast
qed


lemma reduce_columns_Some:
  assumes "reduce_columns [k..<n] M = Some M'" and "aug n M" and "unit_cols n k M" and "k \<le> n"
  shows "aug n M' \<and> unit_cols n n M' \<and> (\<forall>x y. sys n M' x y = sys n M x y)"
  using assms
proof (induction "n - k" arbitrary: k M)
  case 0
  then show ?case by simp
next
  case (Suc d)
  then have k: "k < n" by simp
  then have upt: "[k..<n] = k # [Suc k..<n]" by (simp add: upt_conv_Cons)
  from Suc.prems(1) obtain M1 where M1: "eliminate k M = Some M1"
    and rest: "reduce_columns [Suc k..<n] M1 = Some M'"
    by (auto simp: upt split: option.splits)
  have "aug n M1" using M1 Suc.prems(2) k by (rule eliminate_aug)
  moreover have "unit_cols n (Suc k) M1"
    using M1 Suc.prems(2) k Suc.prems(3) by (rule eliminate_unit_cols)
  moreover have "d = n - Suc k" using Suc.hyps(2) by simp
  ultimately have "aug n M' \<and> unit_cols n n M' \<and> (\<forall>x y. sys n M' x y = sys n M1 x y)"
    using rest k Suc_leI [OF k] by (intro Suc.hyps(1))
  moreover have "sys n M1 x y = sys n M x y" for x y
    using M1 Suc.prems(2) k by (rule eliminate_sys)
  ultimately show ?case by simp
qed

lemma reduce_columns_None:
  assumes "reduce_columns [k..<n] M = None" and "aug n M" and "unit_cols n k M" and "k \<le> n"
  shows "\<exists>x. (\<exists>j<n. x j \<noteq> 0) \<and> sys n M x (\<lambda>_. 0)"
  using assms
proof (induction "n - k" arbitrary: k M)
  case 0
  then show ?case by simp
next
  case (Suc d)
  then have k: "k < n" by simp
  then have upt: "[k..<n] = k # [Suc k..<n]" by (simp add: upt_conv_Cons)
  show ?case
  proof (cases "eliminate k M")
    case None
    from eliminate_None [OF None Suc.prems(2) k Suc.prems(3)]
    obtain x where "x k = 1" "sys n M x (\<lambda>_. 0)" by blast
    with k show ?thesis by (intro exI [of _ x]) auto
  next
    case (Some M1)
    with Suc.prems(1) have rest: "reduce_columns [Suc k..<n] M1 = None"
      by (simp add: upt)
    have "aug n M1" using Some Suc.prems(2) k by (rule eliminate_aug)
    moreover have "unit_cols n (Suc k) M1"
      using Some Suc.prems(2) k Suc.prems(3) by (rule eliminate_unit_cols)
    moreover have "d = n - Suc k" using Suc.hyps(2) by simp
    ultimately have "\<exists>x. (\<exists>j<n. x j \<noteq> 0) \<and> sys n M1 x (\<lambda>_. 0)"
      using rest k Suc_leI [OF k] by (intro Suc.hyps(1))
    moreover have "sys n M1 x y = sys n M x y" for x y
      using Some Suc.prems(2) k by (rule eliminate_sys)
    ultimately show ?thesis by simp
  qed
qed

lemma square_mat_iff:
  "square_mat n A \<longleftrightarrow> length A = n \<and> (\<forall>i<n. length (A ! i) = n)"
  by (auto simp: square_mat_def list_all_length)

lemma square_matD:
  assumes "square_mat n A"
  shows "length A = n" and "\<And>i. i < n \<Longrightarrow> length (A ! i) = n"
  using assms by (simp_all add: square_mat_iff)

lemma mat_eqI:
  assumes "square_mat n A" and "square_mat n B"
    and "\<And>i j. i < n \<Longrightarrow> j < n \<Longrightarrow> A ! i ! j = B ! i ! j"
  shows "A = B"
proof (rule nth_equalityI)
  show "length A = length B" using assms by (simp add: square_mat_iff)
next
  fix i assume "i < length A"
  then have i: "i < n" using assms(1) by (simp add: square_mat_iff)
  show "A ! i = B ! i"
    using assms i by (intro nth_equalityI) (simp_all add: square_mat_iff)
qed

lemma sum_list_upt: "sum_list (map f [0..<n]) = (\<Sum>k<n. f k)"
  by (simp add: interv_sum_list_conv_sum_set_nat atLeast0LessThan)

lemma mat_id_nth [simp]:
  "i < n \<Longrightarrow> j < n \<Longrightarrow> mat_id n ! i ! j = (if i = j then 1 else 0)"
  by (simp add: mat_id_def)

lemma square_mat_id [simp]: "square_mat n (mat_id n)"
  by (simp add: square_mat_iff mat_id_def)

lemma mat_mul_nth:
  assumes "square_mat n A" and "square_mat n B" and "i < n" and "j < n"
  shows "mat_mul A B ! i ! j = (\<Sum>k<n. A ! i ! k * B ! k ! j)"
  using assms by (simp add: mat_mul_def square_mat_iff sum_list_upt)

lemma square_mat_mul [simp]:
  "square_mat n A \<Longrightarrow> square_mat n B \<Longrightarrow> square_mat n (mat_mul A B)"
  by (simp add: mat_mul_def square_mat_iff)


lemma extended_nth:
  assumes "square_mat n A" and "i < n"
  shows "map2 (@) A (mat_id n) ! i = A ! i @ mat_id n ! i"
  using assms by (simp add: square_mat_iff mat_id_def)

lemma extended_aug:
  assumes "square_mat n A"
  shows "aug n (map2 (@) A (mat_id n))"
  using assms by (simp add: aug_def square_mat_iff mat_id_def)

lemma extended_sys:
  assumes "square_mat n A"
  shows "sys n (map2 (@) A (mat_id n)) x y \<longleftrightarrow> (\<forall>i<n. (\<Sum>j<n. A ! i ! j * x j) = y i)"
proof -
  have "row_holds n (map2 (@) A (mat_id n) ! i) x y \<longleftrightarrow> (\<Sum>j<n. A ! i ! j * x j) = y i"
    if "i < n" for i
  proof -
    have len: "length (A ! i) = n" using assms that by (simp add: square_mat_iff)
    have "(\<Sum>j<n. (A ! i @ mat_id n ! i) ! j * x j) = (\<Sum>j<n. A ! i ! j * x j)"
      by (intro sum.cong refl) (simp add: nth_append len)
    moreover have "(\<Sum>j<n. (A ! i @ mat_id n ! i) ! (n + j) * y j)
        = (\<Sum>j<n. (if i = j then 1 else 0) * y j)"
      using that by (intro sum.cong refl) (simp add: nth_append len)
    moreover have "(\<Sum>j<n. (if i = j then 1 else 0) * y j) = y i"
      using that by (simp add: if_distrib [of "\<lambda>c. c * _"] sum.delta cong: if_cong)
    ultimately show ?thesis
      using assms that by (simp add: row_holds_def extended_nth)
  qed
  then show ?thesis by (simp add: sys_def)
qed

lemma reduced_sys:
  assumes "aug n M" and "unit_cols n n M"
  shows "sys n M x y \<longleftrightarrow> (\<forall>i<n. x i = (\<Sum>j<n. M ! i ! (n + j) * y j))"
proof -
  have "row_holds n (M ! i) x y \<longleftrightarrow> x i = (\<Sum>j<n. M ! i ! (n + j) * y j)" if "i < n" for i
  proof -
    have "(\<Sum>j<n. M ! i ! j * x j) = (\<Sum>j<n. (if i = j then 1 else 0) * x j)"
      using assms(2) that by (intro sum.cong refl) (simp add: unit_cols_def)
    also have "\<dots> = x i"
      using that by (simp add: if_distrib [of "\<lambda>c. c * _"] sum.delta cong: if_cong)
    finally show ?thesis by (simp add: row_holds_def)
  qed
  then show ?thesis by (simp add: sys_def)
qed

lemma mat_inv_Some:
  assumes "square_mat n A" and "mat_inv A = Some B"
  shows "square_mat n B"
    and "(\<forall>i<n. (\<Sum>j<n. A ! i ! j * x j) = y i) \<longleftrightarrow> (\<forall>i<n. x i = (\<Sum>j<n. B ! i ! j * y j))"
proof -
  from assms(1) have len: "length A = n" by (simp add: square_mat_iff)
  from assms(2) obtain M where M: "reduce_columns [0..<n] (map2 (@) A (mat_id n)) = Some M"
    and B: "B = map (drop n) M"
    by (auto simp: mat_inv_def len split: option.splits)
  have "aug n M \<and> unit_cols n n M \<and> (\<forall>x y. sys n M x y = sys n (map2 (@) A (mat_id n)) x y)"
    using M extended_aug [OF assms(1)] by (rule reduce_columns_Some) (simp_all add: unit_cols_def)
  then have M_aug: "aug n M" and M_unit: "unit_cols n n M"
    and M_sys: "\<And>x y. sys n M x y = sys n (map2 (@) A (mat_id n)) x y"
    by simp_all
  from M_aug show "square_mat n B"
    by (simp add: B square_mat_iff aug_def)
  have Bnth: "B ! i ! j = M ! i ! (n + j)" if "i < n" "j < n" for i j
    using that M_aug by (simp add: B aug_def)
  have "(\<Sum>j<n. B ! i ! j * y j) = (\<Sum>j<n. M ! i ! (n + j) * y j)" if "i < n" for i
    using that by (intro sum.cong refl) (simp add: Bnth)
  then show "(\<forall>i<n. (\<Sum>j<n. A ! i ! j * x j) = y i) \<longleftrightarrow> (\<forall>i<n. x i = (\<Sum>j<n. B ! i ! j * y j))"
    using M_sys [of x y] by (simp add: extended_sys [OF assms(1)] reduced_sys [OF M_aug M_unit])
qed

lemma mat_inv_None:
  assumes "square_mat n A" and "mat_inv A = None"
  shows "\<exists>x. (\<exists>j<n. x j \<noteq> 0) \<and> (\<forall>i<n. (\<Sum>j<n. A ! i ! j * x j) = 0)"
proof -
  from assms(1) have len: "length A = n" by (simp add: square_mat_iff)
  from assms(2) have "reduce_columns [0..<n] (map2 (@) A (mat_id n)) = None"
    by (auto simp: mat_inv_def len split: option.splits)
  then have "\<exists>x. (\<exists>j<n. x j \<noteq> 0) \<and> sys n (map2 (@) A (mat_id n)) x (\<lambda>_. 0)"
    using extended_aug [OF assms(1)] by (rule reduce_columns_None) (simp_all add: unit_cols_def)
  then show ?thesis
    by (simp add: extended_sys [OF assms(1)])
qed

lemma sum_delta_left:
  "i < (n::nat) \<Longrightarrow> (\<Sum>j<n. (if i = j then 1 else 0) * f j) = (f i :: complex)"
  by (simp add: if_distrib [of "\<lambda>c. c * _"] cong: if_cong)

lemma sum_delta_right:
  "i < (n::nat) \<Longrightarrow> (\<Sum>j<n. f j * (if j = i then 1 else 0)) = (f i :: complex)"
  by (simp add: if_distrib [of "\<lambda>c. _ * c"] cong: if_cong)

lemma mat_inv_sound:
  assumes "square_mat n A" and "mat_inv A = Some B"
  shows "square_mat n B" and "mat_mul A B = mat_id n" and "mat_mul B A = mat_id n"
proof -
  show sq: "square_mat n B" using assms by (rule mat_inv_Some)
  note iff = mat_inv_Some(2) [OF assms]
  show "mat_mul A B = mat_id n"
  proof (rule mat_eqI [of n])
    fix i j assume ij: "i < n" "j < n"
    have "\<forall>i<n. B ! i ! j = (\<Sum>k<n. B ! i ! k * (if k = j then 1 else 0))"
      using ij by (simp add: sum_delta_right)
    then have "\<forall>i<n. (\<Sum>k<n. A ! i ! k * B ! k ! j) = (if i = j then 1 else 0)"
      using iff [of "\<lambda>k. B ! k ! j" "\<lambda>k. if k = j then 1 else 0"] by simp
    with ij show "mat_mul A B ! i ! j = mat_id n ! i ! j"
      by (simp add: mat_mul_nth [OF assms(1) sq])
  qed (use assms sq in simp_all)
  show "mat_mul B A = mat_id n"
  proof (rule mat_eqI [of n])
    fix i j assume ij: "i < n" "j < n"
    have "\<forall>i<n. (\<Sum>k<n. A ! i ! k * (if k = j then 1 else 0)) = A ! i ! j"
      using ij by (simp add: sum_delta_right)
    then have "\<forall>i<n. (if i = j then 1 else 0) = (\<Sum>k<n. B ! i ! k * A ! k ! j)"
      using iff [of "\<lambda>k. if k = j then 1 else 0" "\<lambda>k. A ! k ! j"] by simp
    with ij show "mat_mul B A ! i ! j = mat_id n ! i ! j"
      by (simp add: mat_mul_nth [OF sq assms(1)])
  qed (use assms sq in simp_all)
qed

lemma left_inverse_apply:
  assumes "square_mat n X" and "square_mat n A" and "mat_mul X A = mat_id n"
    and "\<And>k. k < n \<Longrightarrow> (\<Sum>i<n. A ! k ! i * x i) = y k" and "j < n"
  shows "(\<Sum>k<n. X ! j ! k * y k) = x j"
proof -
  have "(\<Sum>k<n. X ! j ! k * y k) = (\<Sum>k<n. X ! j ! k * (\<Sum>i<n. A ! k ! i * x i))"
    by (intro sum.cong refl) (simp add: assms(4))
  also have "\<dots> = (\<Sum>k<n. \<Sum>i<n. X ! j ! k * A ! k ! i * x i)"
    by (simp add: sum_distrib_left mult.assoc)
  also have "\<dots> = (\<Sum>i<n. \<Sum>k<n. X ! j ! k * A ! k ! i * x i)"
    by (rule sum.swap)
  also have "\<dots> = (\<Sum>i<n. mat_mul X A ! j ! i * x i)"
    using assms(5) by (intro sum.cong refl) (simp add: mat_mul_nth [OF assms(1,2)] sum_distrib_right)
  also have "\<dots> = (\<Sum>i<n. (if j = i then 1 else 0) * x i)"
    using assms(5) by (intro sum.cong refl) (simp add: assms(3))
  also have "\<dots> = x j"
    using assms(5) by (rule sum_delta_left)
  finally show ?thesis .
qed

lemma mat_inv_complete:
  assumes "square_mat n A" and "square_mat n X" and "mat_mul X A = mat_id n"
  shows "mat_inv A = Some X"
proof (cases "mat_inv A")
  case None
  from mat_inv_None [OF assms(1) None] obtain x j
    where j: "j < n" "x j \<noteq> 0" and zero: "\<And>i. i < n \<Longrightarrow> (\<Sum>j<n. A ! i ! j * x j) = 0"
    by blast
  have "(\<Sum>k<n. X ! j ! k * 0) = x j"
    using assms(2,1,3) zero j(1) by (rule left_inverse_apply)
  with j show ?thesis by simp
next
  case (Some B)
  have sq: "square_mat n B" and AB: "mat_mul A B = mat_id n"
    using mat_inv_sound [OF assms(1) Some] by simp_all
  have "B = X"
  proof (rule mat_eqI [OF sq assms(2)])
    fix i j assume ij: "i < n" "j < n"
    have "(\<Sum>k<n. A ! m ! k * B ! k ! j) = (if m = j then 1 else 0)" if "m < n" for m
      using that ij AB mat_mul_nth [OF assms(1) sq that ij(2)] by simp
    then have "(\<Sum>k<n. X ! i ! k * (if k = j then 1 else 0)) = B ! i ! j"
      using ij(1) by (intro left_inverse_apply [OF assms(2,1,3)]) simp_all
    with ij show "B ! i ! j = X ! i ! j" by (simp add: sum_delta_right)
  qed
  with Some show ?thesis by simp
qed

section \<open>The algebra of square matrices\<close>

lemma mat_add_nth:
  assumes "square_mat n A" and "square_mat n B" and "i < n" and "j < n"
  shows "mat_add A B ! i ! j = A ! i ! j + B ! i ! j"
  using assms by (simp add: mat_add_def square_mat_iff)

lemma mat_sub_nth:
  assumes "square_mat n A" and "square_mat n B" and "i < n" and "j < n"
  shows "mat_sub A B ! i ! j = A ! i ! j - B ! i ! j"
  using assms by (simp add: mat_sub_def square_mat_iff)

lemma mat_scale_nth:
  assumes "square_mat n A" and "i < n" and "j < n"
  shows "mat_scale c A ! i ! j = c * A ! i ! j"
  using assms by (simp add: mat_scale_def square_mat_iff)

lemma square_mat_add [simp]:
  "square_mat n A \<Longrightarrow> square_mat n B \<Longrightarrow> square_mat n (mat_add A B)"
  by (simp add: mat_add_def square_mat_iff)

lemma square_mat_sub [simp]:
  "square_mat n A \<Longrightarrow> square_mat n B \<Longrightarrow> square_mat n (mat_sub A B)"
  by (simp add: mat_sub_def square_mat_iff)

lemma square_mat_scale [simp]:
  "square_mat n A \<Longrightarrow> square_mat n (mat_scale c A)"
  by (simp add: mat_scale_def square_mat_iff)

lemma square_diag_mat [simp]: "length v = n \<Longrightarrow> square_mat n (diag_mat v)"
  by (auto simp: diag_mat_def square_mat_iff)

lemma diag_mat_nth [simp]:
  "i < length v \<Longrightarrow> j < length v \<Longrightarrow> diag_mat v ! i ! j = (if i = j then v ! i else 0)"
  by (simp add: diag_mat_def)

lemma mat_mul_assoc:
  assumes "square_mat n A" and "square_mat n B" and "square_mat n C"
  shows "mat_mul (mat_mul A B) C = mat_mul A (mat_mul B C)"
proof (rule mat_eqI [of n])
  fix i j assume ij: "i < n" "j < n"
  have "mat_mul (mat_mul A B) C ! i ! j = (\<Sum>k<n. (\<Sum>l<n. A ! i ! l * B ! l ! k) * C ! k ! j)"
    using assms ij by (simp add: mat_mul_nth [of n])
  also have "\<dots> = (\<Sum>k<n. \<Sum>l<n. A ! i ! l * (B ! l ! k * C ! k ! j))"
    by (simp add: sum_distrib_right mult.assoc)
  also have "\<dots> = (\<Sum>l<n. \<Sum>k<n. A ! i ! l * (B ! l ! k * C ! k ! j))"
    by (rule sum.swap)
  also have "\<dots> = (\<Sum>l<n. A ! i ! l * (\<Sum>k<n. B ! l ! k * C ! k ! j))"
    by (simp add: sum_distrib_left)
  also have "\<dots> = mat_mul A (mat_mul B C) ! i ! j"
    using assms ij by (simp add: mat_mul_nth [of n])
  finally show "mat_mul (mat_mul A B) C ! i ! j = mat_mul A (mat_mul B C) ! i ! j" .
qed (use assms in simp_all)

lemma mat_mul_id_left [simp]:
  assumes "square_mat n A"
  shows "mat_mul (mat_id n) A = A"
proof (rule mat_eqI [of n])
  fix i j assume "i < n" "j < n"
  then show "mat_mul (mat_id n) A ! i ! j = A ! i ! j"
    using assms by (simp add: mat_mul_nth [of n] sum_delta_left cong: sum.cong_simp)
qed (use assms in simp_all)

lemma mat_mul_id_right [simp]:
  assumes "square_mat n A"
  shows "mat_mul A (mat_id n) = A"
proof (rule mat_eqI [of n])
  fix i j assume "i < n" "j < n"
  then show "mat_mul A (mat_id n) ! i ! j = A ! i ! j"
    using assms by (simp add: mat_mul_nth [of n] sum_delta_right cong: sum.cong_simp)
qed (use assms in simp_all)

lemma mat_mul_add_left:
  assumes "square_mat n A" and "square_mat n B" and "square_mat n C"
  shows "mat_mul A (mat_add B C) = mat_add (mat_mul A B) (mat_mul A C)"
proof (rule mat_eqI [of n])
  fix i j assume "i < n" "j < n"
  then show "mat_mul A (mat_add B C) ! i ! j = mat_add (mat_mul A B) (mat_mul A C) ! i ! j"
    using assms by (simp add: mat_mul_nth [of n] mat_add_nth [of n] algebra_simps sum.distrib cong: sum.cong_simp)
qed (use assms in simp_all)

lemma mat_mul_add_right:
  assumes "square_mat n A" and "square_mat n B" and "square_mat n C"
  shows "mat_mul (mat_add A B) C = mat_add (mat_mul A C) (mat_mul B C)"
proof (rule mat_eqI [of n])
  fix i j assume "i < n" "j < n"
  then show "mat_mul (mat_add A B) C ! i ! j = mat_add (mat_mul A C) (mat_mul B C) ! i ! j"
    using assms by (simp add: mat_mul_nth [of n] mat_add_nth [of n] algebra_simps sum.distrib cong: sum.cong_simp)
qed (use assms in simp_all)

lemma mat_mul_sub_left:
  assumes "square_mat n A" and "square_mat n B" and "square_mat n C"
  shows "mat_mul A (mat_sub B C) = mat_sub (mat_mul A B) (mat_mul A C)"
proof (rule mat_eqI [of n])
  fix i j assume "i < n" "j < n"
  then show "mat_mul A (mat_sub B C) ! i ! j = mat_sub (mat_mul A B) (mat_mul A C) ! i ! j"
    using assms by (simp add: mat_mul_nth [of n] mat_sub_nth [of n] algebra_simps sum_subtractf cong: sum.cong_simp)
qed (use assms in simp_all)

lemma mat_mul_sub_right:
  assumes "square_mat n A" and "square_mat n B" and "square_mat n C"
  shows "mat_mul (mat_sub A B) C = mat_sub (mat_mul A C) (mat_mul B C)"
proof (rule mat_eqI [of n])
  fix i j assume "i < n" "j < n"
  then show "mat_mul (mat_sub A B) C ! i ! j = mat_sub (mat_mul A C) (mat_mul B C) ! i ! j"
    using assms by (simp add: mat_mul_nth [of n] mat_sub_nth [of n] algebra_simps sum_subtractf cong: sum.cong_simp)
qed (use assms in simp_all)

lemma mat_mul_scale_left:
  assumes "square_mat n A" and "square_mat n B"
  shows "mat_mul (mat_scale c A) B = mat_scale c (mat_mul A B)"
proof (rule mat_eqI [of n])
  fix i j assume "i < n" "j < n"
  then show "mat_mul (mat_scale c A) B ! i ! j = mat_scale c (mat_mul A B) ! i ! j"
    using assms by (simp add: mat_mul_nth [of n] mat_scale_nth [of n] sum_distrib_left mult.assoc cong: sum.cong_simp)
qed (use assms in simp_all)

lemma mat_mul_scale_right:
  assumes "square_mat n A" and "square_mat n B"
  shows "mat_mul A (mat_scale c B) = mat_scale c (mat_mul A B)"
proof (rule mat_eqI [of n])
  fix i j assume "i < n" "j < n"
  then show "mat_mul A (mat_scale c B) ! i ! j = mat_scale c (mat_mul A B) ! i ! j"
    using assms by (simp add: mat_mul_nth [of n] mat_scale_nth [of n] sum_distrib_left mult.left_commute cong: sum.cong_simp)
qed (use assms in simp_all)

lemma diag_mul_left_nth:
  assumes "square_mat n A" and "length v = n" and "i < n" and "j < n"
  shows "mat_mul (diag_mat v) A ! i ! j = v ! i * A ! i ! j"
proof -
  have "mat_mul (diag_mat v) A ! i ! j = (\<Sum>k<n. diag_mat v ! i ! k * A ! k ! j)"
    using assms by (simp add: mat_mul_nth [of n])
  also have "\<dots> = (\<Sum>k<n. (if i = k then 1 else 0) * (v ! i * A ! k ! j))"
    using assms by (intro sum.cong refl) auto
  finally have "mat_mul (diag_mat v) A ! i ! j
      = (\<Sum>k<n. (if i = k then 1 else 0) * (v ! i * A ! k ! j))" .
  then show ?thesis using assms(3) by (simp only: sum_delta_left)
qed

lemma diag_mul_right_nth:
  assumes "square_mat n A" and "length v = n" and "i < n" and "j < n"
  shows "mat_mul A (diag_mat v) ! i ! j = A ! i ! j * v ! j"
proof -
  have "mat_mul A (diag_mat v) ! i ! j = (\<Sum>k<n. A ! i ! k * diag_mat v ! k ! j)"
    using assms by (simp add: mat_mul_nth [of n])
  also have "\<dots> = (\<Sum>k<n. (A ! i ! k * v ! j) * (if k = j then 1 else 0))"
    using assms by (intro sum.cong refl) auto
  finally have "mat_mul A (diag_mat v) ! i ! j
      = (\<Sum>k<n. (A ! i ! k * v ! j) * (if k = j then 1 else 0))" .
  then show ?thesis using assms(4) by (simp only: sum_delta_right)
qed

section \<open>The conversions between scattering and impedance parameters\<close>

lemma square_normalise_z [simp]:
  assumes "square_mat n z" and "length z0 = n"
  shows "square_mat n (normalise_z z z0)"
  using assms by (simp add: normalise_z_def)

lemma normalise_z_nth:
  assumes "square_mat n z" and "length z0 = n" and "i < n" and "j < n"
  shows "normalise_z z z0 ! i ! j = z ! i ! j / (csqrt (z0 ! i) * csqrt (z0 ! j))"
  using assms
  by (simp add: normalise_z_def diag_mul_left_nth [of n] diag_mul_right_nth [of n])

lemma square_denormalise_z [simp]:
  assumes "square_mat n N" and "length z0 = n"
  shows "square_mat n (denormalise_z N z0)"
  using assms by (simp add: denormalise_z_def)

lemma denormalise_z_nth:
  assumes "square_mat n N" and "length z0 = n" and "i < n" and "j < n"
  shows "denormalise_z N z0 ! i ! j = csqrt (z0 ! i) * N ! i ! j * csqrt (z0 ! j)"
  using assms
  by (simp add: denormalise_z_def diag_mul_left_nth [of n] diag_mul_right_nth [of n])

lemma normalise_denormalise:
  assumes "square_mat n N" and "length z0 = n" and "\<forall>x\<in>set z0. x \<noteq> 0"
  shows "normalise_z (denormalise_z N z0) z0 = N"
proof (rule mat_eqI [of n])
  fix i j assume ij: "i < n" "j < n"
  with assms have "csqrt (z0 ! i) \<noteq> 0" "csqrt (z0 ! j) \<noteq> 0" by auto
  with ij assms show "normalise_z (denormalise_z N z0) z0 ! i ! j = N ! i ! j"
    by (simp add: normalise_z_nth [of n] denormalise_z_nth [of n])
qed (use assms in simp_all)

lemma denormalise_normalise:
  assumes "square_mat n z" and "length z0 = n" and "\<forall>x\<in>set z0. x \<noteq> 0"
  shows "denormalise_z (normalise_z z z0) z0 = z"
proof (rule mat_eqI [of n])
  fix i j assume ij: "i < n" "j < n"
  with assms have "csqrt (z0 ! i) \<noteq> 0" "csqrt (z0 ! j) \<noteq> 0" by auto
  with ij assms show "denormalise_z (normalise_z z z0) z0 ! i ! j = z ! i ! j"
    by (simp add: normalise_z_nth [of n] denormalise_z_nth [of n])
qed (use assms in simp_all)


lemma mat_plus_minus_commute:
  assumes "square_mat n A"
  shows "mat_mul (mat_add A (mat_id n)) (mat_sub A (mat_id n))
       = mat_mul (mat_sub A (mat_id n)) (mat_add A (mat_id n))"
  using assms
  by (simp add: mat_mul_add_right [of n] mat_mul_sub_left [of n]
        mat_mul_sub_right [of n] mat_mul_add_left [of n],
      intro mat_eqI [of n], simp_all add: mat_add_nth [of n] mat_sub_nth [of n])

lemma mat_minus_plus_commute:
  assumes "square_mat n A"
  shows "mat_mul (mat_add (mat_id n) A) (mat_sub (mat_id n) A)
       = mat_mul (mat_sub (mat_id n) A) (mat_add (mat_id n) A)"
  using assms
  by (simp add: mat_mul_add_right [of n] mat_mul_sub_left [of n]
        mat_mul_sub_right [of n] mat_mul_add_left [of n],
      intro mat_eqI [of n], simp_all add: mat_add_nth [of n] mat_sub_nth [of n])

lemma mat_scale_scale [simp]: "mat_scale a (mat_scale b A) = mat_scale (a * b) A"
  by (simp add: mat_scale_def comp_def mult.assoc)

lemma mat_scale_one [simp]: "mat_scale 1 A = A"
  by (simp add: mat_scale_def map_idI)

lemma s2z_core_Inr:
  assumes "s2z_core s z0 = Inr z" and "length z0 = n"
  shows "\<exists>X. square_mat n s \<and> mat_inv (mat_sub (mat_id n) s) = Some X \<and>
           z = denormalise_z (mat_mul X (mat_add (mat_id n) s)) z0"
  using assms by (auto simp: s2z_core_def split: if_splits option.splits)

lemma z2s_point_Inr:
  assumes "z2s_point z z0 = Inr s" and "length z0 = n"
  shows "\<exists>V. square_mat n z \<and> (\<forall>x\<in>set z0. x \<noteq> 0) \<and>
           mat_inv (mat_add (normalise_z z z0) (mat_id n)) = Some V \<and>
           s = mat_mul (mat_sub (normalise_z z z0) (mat_id n)) V"
  using assms by (auto simp: z2s_point_def list_ex_iff split: if_splits option.splits)

lemma z2s_of_s2z_core:
  assumes "s2z_core s z0 = Inr z" and len: "length z0 = n" and nz: "\<forall>x\<in>set z0. x \<noteq> 0"
  shows "z2s_point z z0 = Inr s"
proof -
  let ?I = "mat_id n"
  let ?P = "mat_sub ?I s"
  let ?Q = "mat_add ?I s"
  from s2z_core_Inr [OF assms(1) len] obtain X
    where sq_s: "square_mat n s" and X: "mat_inv ?P = Some X"
      and z: "z = denormalise_z (mat_mul X ?Q) z0"
    by blast
  have sqP: "square_mat n ?P" and sqQ: "square_mat n ?Q"
    using sq_s by simp_all
  have sqX: "square_mat n X" and PX: "mat_mul ?P X = ?I" and XP: "mat_mul X ?P = ?I"
    using mat_inv_sound [OF sqP X] by simp_all
  let ?G = "mat_mul X ?Q"
  have sqG: "square_mat n ?G" using sqX sqQ by simp
  have sqz: "square_mat n z" using sqG len by (simp add: z)
  have N: "normalise_z z z0 = ?G"
    unfolding z using sqG len nz by (rule normalise_denormalise)
  let ?W = "mat_add ?G ?I"
  let ?L = "mat_scale (1 / 2) ?P"
  have sqW: "square_mat n ?W" using sqG by simp
  have sqL: "square_mat n ?L" using sqP by simp
  have PG: "mat_mul ?P ?G = ?Q"
    using sqP sqX sqQ by (simp add: mat_mul_assoc [of n, symmetric] PX)
  have "mat_mul ?P ?W = mat_add ?Q ?P"
    using sqP sqG by (simp add: mat_mul_add_left [of n] PG)
  also have "\<dots> = mat_scale 2 ?I"
    using sq_s
    by (intro mat_eqI [of n])
      (simp_all add: mat_add_nth [of n] mat_sub_nth [of n] mat_scale_nth [of n])
  finally have PW: "mat_mul ?P ?W = mat_scale 2 ?I" .
  have LW: "mat_mul ?L ?W = ?I"
    using sqP sqW by (simp add: mat_mul_scale_left [of n] PW)
  have inv: "mat_inv ?W = Some ?L"
    using sqW sqL LW by (rule mat_inv_complete)
  have "mat_mul ?G ?P = mat_mul X (mat_mul ?Q ?P)"
    using sqX sqQ sqP by (rule mat_mul_assoc)
  also have "\<dots> = mat_mul X (mat_mul ?P ?Q)"
    using sq_s by (simp add: mat_minus_plus_commute)
  also have "\<dots> = ?Q"
    using sqP sqX sqQ by (simp add: mat_mul_assoc [of n, symmetric] XP)
  finally have GP: "mat_mul ?G ?P = ?Q" .
  have "mat_mul (mat_sub ?G ?I) ?P = mat_sub ?Q ?P"
    using sqP sqG by (simp add: mat_mul_sub_right [of n] GP)
  also have "\<dots> = mat_scale 2 s"
    using sq_s
    by (intro mat_eqI [of n])
      (simp_all add: mat_add_nth [of n] mat_sub_nth [of n] mat_scale_nth [of n])
  finally have "mat_mul (mat_sub ?G ?I) ?P = mat_scale 2 s" .
  then have "mat_mul (mat_sub ?G ?I) ?L = s"
    using sqP sqG sq_s by (simp add: mat_mul_scale_right [of n])
  then show ?thesis
    using sqz nz len by (simp add: z2s_point_def list_ex_iff N inv)
qed

lemma s2z_core_of_z2s:
  assumes "z2s_point z z0 = Inr s" and len: "length z0 = n"
  shows "s2z_core s z0 = Inr z"
proof -
  let ?I = "mat_id n"
  let ?N = "normalise_z z z0"
  let ?W = "mat_add ?N ?I"
  let ?M = "mat_sub ?N ?I"
  from z2s_point_Inr [OF assms] obtain V
    where sqz: "square_mat n z" and nz: "\<forall>x\<in>set z0. x \<noteq> 0"
      and V: "mat_inv ?W = Some V" and s: "s = mat_mul ?M V"
    by blast
  have sqN: "square_mat n ?N" using sqz len by simp
  have sqW: "square_mat n ?W" and sqM: "square_mat n ?M" using sqN by simp_all
  have sqV: "square_mat n V" and WV: "mat_mul ?W V = ?I" and VW: "mat_mul V ?W = ?I"
    using mat_inv_sound [OF sqW V] by simp_all
  have sq_s: "square_mat n s" using sqM sqV by (simp add: s)
  let ?P = "mat_sub ?I s"
  let ?Q = "mat_add ?I s"
  let ?X = "mat_scale (1 / 2) ?W"
  have sqP: "square_mat n ?P" and sqQ: "square_mat n ?Q" using sq_s by simp_all
  have sqX: "square_mat n ?X" using sqW by simp
  have "?P = mat_mul (mat_sub ?W ?M) V"
    using sqW sqM sqV by (simp add: mat_mul_sub_right [of n] WV s)
  also have "mat_sub ?W ?M = mat_scale 2 ?I"
    using sqN
    by (intro mat_eqI [of n])
      (simp_all add: mat_add_nth [of n] mat_sub_nth [of n] mat_scale_nth [of n])
  finally have P: "?P = mat_scale 2 V"
    using sqV by (simp add: mat_mul_scale_left [of n])
  have "mat_mul ?X ?P = ?I"
    using sqW sqV by (simp add: P mat_mul_scale_left [of n] mat_mul_scale_right [of n] WV)
  with sqP sqX have inv: "mat_inv ?P = Some ?X"
    by (rule mat_inv_complete)
  have "?Q = mat_mul (mat_add ?W ?M) V"
    using sqW sqM sqV by (simp add: mat_mul_add_right [of n] WV s)
  also have "mat_add ?W ?M = mat_scale 2 ?N"
    using sqN
    by (intro mat_eqI [of n])
      (simp_all add: mat_add_nth [of n] mat_sub_nth [of n] mat_scale_nth [of n])
  finally have Q: "?Q = mat_scale 2 (mat_mul ?N V)"
    using sqN sqV by (simp add: mat_mul_scale_left [of n])
  have WN: "mat_mul ?W ?N = mat_mul ?N ?W"
    using sqN by (simp add: mat_mul_add_right [of n] mat_mul_add_left [of n])
  have "mat_mul ?X ?Q = mat_mul ?W (mat_mul ?N V)"
    using sqW sqN sqV
    by (simp add: Q mat_mul_scale_left [of n] mat_mul_scale_right [of n])
  also have "\<dots> = mat_mul (mat_mul ?N ?W) V"
    using sqW sqN sqV by (simp add: mat_mul_assoc [of n, symmetric] WN)
  also have "\<dots> = ?N"
    using sqW sqN sqV by (simp add: mat_mul_assoc [of n] WV)
  finally have XQ: "mat_mul ?X ?Q = ?N" .
  have "denormalise_z ?N z0 = z"
    using sqz len nz by (rule denormalise_normalise)
  then show ?thesis
    using sq_s len by (simp add: s2z_core_def inv XQ)
qed

subsection \<open>The regularisation of fully reflective entries\<close>

lemma square_regularise [simp]: "square_mat n (regularise s) = square_mat n s"
  by (simp add: regularise_def square_mat_def list_all_iff)

lemma regularise_nth:
  assumes "square_mat n s" and "i < n" and "j < n"
  shows "regularise s ! i ! j =
    (if s ! i ! j = 1 then 1 + singularity_shift
     else if s ! i ! j = - 1 then - 1 + singularity_shift else s ! i ! j)"
  using assms by (simp add: regularise_def square_mat_iff)

lemma regularise_regular:
  assumes "regular s"
  shows "regularise s = s"
proof -
  have "map (\<lambda>x. if x = 1 then 1 + singularity_shift
                 else if x = - 1 then - 1 + singularity_shift else x) row = row"
    if "row \<in> set s" for row
    using assms that by (intro map_idI) (auto simp: regular_def list_all_iff)
  then show ?thesis by (simp add: regularise_def map_idI)
qed

text \<open>The regularisation moves no entry by more than \<open>10^-12\<close>.\<close>

lemma regularise_close:
  assumes "square_mat n s" and "i < n" and "j < n"
  shows "cmod (regularise s ! i ! j - s ! i ! j) \<le> 1 / 10 ^ 12"
proof -
  have "cmod singularity_shift = 1 / 10 ^ 12"
    by (simp add: singularity_shift_def norm_divide norm_power)
  with assms show ?thesis by (simp add: regularise_nth [of n])
qed

lemma s2z_point_core: "s2z_point s z0 = s2z_core (regularise s) z0"
  by (simp add: s2z_point_def s2z_core_def)

lemma s2z_point_Inr:
  assumes "s2z_point s z0 = Inr z" and "length z0 = n"
  shows "\<exists>X. square_mat n s \<and> mat_inv (mat_sub (mat_id n) (regularise s)) = Some X \<and>
           z = denormalise_z (mat_mul X (mat_add (mat_id n) (regularise s))) z0"
  using s2z_core_Inr [OF assms [unfolded s2z_point_core]] by simp

text \<open>From scattering to impedance parameters and back: the scattering matrix comes back
  as the conversion took it.\<close>

lemma z2s_of_s2z_point:
  assumes "s2z_point s z0 = Inr z" and "length z0 = n" and "\<forall>x\<in>set z0. x \<noteq> 0"
  shows "z2s_point z z0 = Inr (regularise s)"
  using assms unfolding s2z_point_core by (rule z2s_of_s2z_core)

lemma s2z_of_z2s_point:
  assumes "z2s_point z z0 = Inr s" and "length z0 = n" and "regular s"
  shows "s2z_point s z0 = Inr z"
  using s2z_core_of_z2s [OF assms(1,2)] by (simp add: s2z_point_core regularise_regular assms(3))

section \<open>The conversions over the frequency grid, and the Renormalizer\<close>

lemma sequence_err_Inr_iff: "sequence_err ms = Inr xs \<longleftrightarrow> ms = map Inr xs"
proof (induction ms arbitrary: xs)
  case Nil
  then show ?case by auto
next
  case (Cons m ms)
  show ?case
  proof (cases m)
    case (Inl e)
    then show ?thesis by (cases xs) auto
  next
    case (Inr x)
    show ?thesis
    proof (cases "sequence_err ms")
      case (Inl e)
      with Cons [of "tl xs"] Inr show ?thesis by (cases xs) auto
    next
      case r: (Inr ys)
      with Cons [of ys] have ms: "ms = map Inr ys" by simp
      with Inr r show ?thesis by (cases xs) (auto simp: inj_map_eq_map)
    qed
  qed
qed

lemma sequence_err_map_Inr_iff:
  "sequence_err (map f xs) = Inr ys \<longleftrightarrow>
     length ys = length xs \<and> (\<forall>i<length xs. f (xs ! i) = Inr (ys ! i))"
  by (auto simp: sequence_err_Inr_iff list_eq_iff_nth_eq)

lemma sequence_err_Inl:
  "sequence_err ms = Inl e \<Longrightarrow> Inl e \<in> set ms"
proof (induction ms)
  case Nil
  then show ?case by simp
next
  case (Cons m ms)
  then show ?case
    by (cases m; cases "sequence_err ms") auto
qed

lemma sequence_err_first_Inl:
  "sequence_err (Inl e # ms) = Inl e"
  by simp

lemma s2z_Inr_iff:
  "s2z ss z0s = Inr zs \<longleftrightarrow>
     length ss = length z0s \<and> length zs = length ss \<and>
     (\<forall>f<length ss. s2z_point (ss ! f) (z0s ! f) = Inr (zs ! f))"
  by (auto simp: s2z_def sequence_err_map_Inr_iff)

lemma z2s_Inr_iff:
  "z2s zs z0s = Inr ss \<longleftrightarrow>
     length zs = length z0s \<and> length ss = length zs \<and>
     (\<forall>f<length zs. z2s_point (zs ! f) (z0s ! f) = Inr (ss ! f))"
  by (auto simp: z2s_def sequence_err_map_Inr_iff)



lemma z2s_nonzero:
  assumes "z2s zs z0s = Inr ss"
  shows "\<forall>z0\<in>set z0s. \<forall>x\<in>set z0. x \<noteq> 0"
proof -
  from assms have len: "length zs = length z0s"
    and pt: "\<And>f. f < length zs \<Longrightarrow> z2s_point (zs ! f) (z0s ! f) = Inr (ss ! f)"
    by (simp_all add: z2s_Inr_iff)
  have "\<forall>x\<in>set (z0s ! f). x \<noteq> 0" if "f < length z0s" for f
    using z2s_point_Inr [OF pt refl, of f] that len by simp
  then show ?thesis by (metis in_set_conv_nth)
qed

lemma renormalize_Inr_iff:
  "renormalize N z0_new = Inr N' \<longleftrightarrow>
     (\<exists>z s_new. network_z N = Inr z \<and> z2s z z0_new = Inr s_new \<and>
        N' = N\<lparr>ntwk_s := s_new, ntwk_z0 := z0_new\<rparr>)"
  by (cases "network_z N"; cases "z2s (projr (network_z N)) z0_new")
    (auto simp: renormalize_def bind_err_def)






lemma s2z_point_total:
  assumes "square_mat n s" and "length z0 = n"
    and "nonsingular (mat_sub (mat_id n) (regularise s))"
  shows "\<exists>z. s2z_point s z0 = Inr z"
  using assms by (auto simp: s2z_point_def nonsingular_def split: option.splits)


section \<open>Writing into the composite\<close>

lemma bind_err_Inr_iff:
  "bind_err m f = Inr y \<longleftrightarrow> (\<exists>x. m = Inr x \<and> f x = Inr y)"
  by (cases m) (simp_all add: bind_err_def)

lemma bind_err_Inl [simp]: "bind_err (Inl e) f = Inl e"
  by (simp add: bind_err_def)

lemma bind_err_Inr [simp]: "bind_err (Inr x) f = f x"
  by (simp add: bind_err_def)

lemma wf_networkD:
  assumes "wf_network N"
  shows "length (ntwk_s N) = length (frequency N)"
    and "length (ntwk_z0 N) = length (frequency N)"
    and "\<And>f. f < length (frequency N) \<Longrightarrow> square_mat (nports N) (ntwk_s N ! f)"
    and "\<And>f. f < length (frequency N) \<Longrightarrow> length (ntwk_z0 N ! f) = nports N"
  using assms by (simp_all add: wf_network_def list_all_length)

lemma wf_networkI:
  assumes "length (ntwk_s N) = length (frequency N)"
    and "length (ntwk_z0 N) = length (frequency N)"
    and "\<And>f. f < length (frequency N) \<Longrightarrow> square_mat (nports N) (ntwk_s N ! f)"
    and "\<And>f. f < length (frequency N) \<Longrightarrow> length (ntwk_z0 N ! f) = nports N"
  shows "wf_network N"
  using assms by (simp add: wf_network_def list_all_length)

lemma broadcast_Inr:
  assumes "broadcast F vals = Inr vs"
  shows "length vs = F" and "length vals = F \<Longrightarrow> vs = vals"
  using assms by (auto simp: broadcast_def split: if_splits)

lemma get_s_Inr:
  assumes "get_s T i j = Inr vals"
  shows "i < nports T" and "j < nports T" and "vals = map (\<lambda>M. M ! i ! j) (ntwk_s T)"
  using assms by (auto simp: get_s_def split: if_splits)

lemma get_z0_Inr:
  assumes "get_z0 T i = Inr vals"
  shows "i < nports T" and "vals = map (\<lambda>z. z ! i) (ntwk_z0 T)"
  using assms by (auto simp: get_z0_def split: if_splits)

lemma set_s_Inr:
  assumes "set_s C m n vals = Inr C'"
  shows "\<exists>vs. broadcast (length (ntwk_s C)) vals = Inr vs \<and> m < nports C \<and> n < nports C \<and>
    C' = C\<lparr>ntwk_s := map2 (\<lambda>M v. M[m := (M ! m)[n := v]]) (ntwk_s C) vs\<rparr>"
  using assms by (auto simp: set_s_def bind_err_Inr_iff split: if_splits)

lemma set_z0_Inr:
  assumes "set_z0 C m vals = Inr C'"
  shows "\<exists>vs. broadcast (length (ntwk_z0 C)) vals = Inr vs \<and> m < nports C \<and>
    C' = C\<lparr>ntwk_z0 := map2 (\<lambda>z v. z[m := v]) (ntwk_z0 C) vs\<rparr>"
  using assms by (auto simp: set_z0_def bind_err_Inr_iff split: if_splits)

text \<open>One assignment to a cell of \<open>s\<close>: what stays, and what the cell holds afterwards.\<close>

lemma set_s_same:
  assumes "set_s C m n vals = Inr C'"
  shows "frequency C' = frequency C" and "nports C' = nports C" and "ntwk_z0 C' = ntwk_z0 C"
    and "length (ntwk_s C') = length (ntwk_s C)"
  using set_s_Inr [OF assms] by (auto dest: broadcast_Inr(1))

lemma set_s_other:
  assumes "set_s C m n vals = Inr C'" and "(m', n') \<noteq> (m, n)" and "f < length (ntwk_s C)"
  shows "ntwk_s C' ! f ! m' ! n' = ntwk_s C ! f ! m' ! n'"
proof -
  from set_s_Inr [OF assms(1)] obtain vs
    where vs: "length vs = length (ntwk_s C)"
      and C': "C' = C\<lparr>ntwk_s := map2 (\<lambda>M v. M[m := (M ! m)[n := v]]) (ntwk_s C) vs\<rparr>"
    by (auto dest: broadcast_Inr(1))
  let ?M = "ntwk_s C ! f"
  have "ntwk_s C' ! f = ?M[m := (?M ! m)[n := vs ! f]]"
    using assms(3) vs by (simp add: C')
  moreover have "?M[m := (?M ! m)[n := vs ! f]] ! m' ! n' = ?M ! m' ! n'"
  proof (cases "m' = m")
    case True
    with assms(2) have "n' \<noteq> n" by simp
    with True show ?thesis by (cases "m < length ?M") (simp_all add: list_update_beyond)
  next
    case False
    then show ?thesis by simp
  qed
  ultimately show ?thesis by simp
qed

lemma set_s_cell:
  assumes "set_s C m n vals = Inr C'" and "wf_network C" and "length vals = length (ntwk_s C)"
    and "f < length (ntwk_s C)"
  shows "ntwk_s C' ! f ! m ! n = vals ! f"
proof -
  from set_s_Inr [OF assms(1)] assms(3) have mn: "m < nports C" "n < nports C"
    and C': "C' = C\<lparr>ntwk_s := map2 (\<lambda>M v. M[m := (M ! m)[n := v]]) (ntwk_s C) vals\<rparr>"
    by (auto dest: broadcast_Inr(2))
  from assms(2,4) have "square_mat (nports C) (ntwk_s C ! f)"
    by (simp add: wf_network_def list_all_length)
  with mn have "m < length (ntwk_s C ! f)" "n < length (ntwk_s C ! f ! m)"
    by (simp_all add: square_mat_iff)
  with assms(3,4) show ?thesis by (simp add: C')
qed

lemma set_s_wf:
  assumes "set_s C m n vals = Inr C'" and "wf_network C"
  shows "wf_network C'"
proof -
  from set_s_Inr [OF assms(1)] obtain vs
    where vs: "length vs = length (ntwk_s C)"
      and C': "C' = C\<lparr>ntwk_s := map2 (\<lambda>M v. M[m := (M ! m)[n := v]]) (ntwk_s C) vs\<rparr>"
    by (auto dest: broadcast_Inr(1))
  note wf = wf_networkD [OF assms(2)]
  show ?thesis
  proof (rule wf_networkI)
    fix f assume "f < length (frequency C')"
    then have f: "f < length (frequency C)" by (simp add: C')
    with wf have sq: "square_mat (nports C) (ntwk_s C ! f)" by simp
    have "ntwk_s C' ! f = (ntwk_s C ! f)[m := (ntwk_s C ! f ! m)[n := vs ! f]]"
      using f vs wf(1) by (simp add: C')
    moreover have "length ((ntwk_s C ! f)[m := (ntwk_s C ! f ! m)[n := vs ! f]] ! i) = nports C"
      if "i < nports C" for i
      using that sq by (cases "i = m") (simp_all add: square_mat_iff)
    ultimately show "square_mat (nports C') (ntwk_s C' ! f)"
      using sq by (simp add: C' square_mat_iff)
    from f wf show "length (ntwk_z0 C' ! f) = nports C'" by (simp add: C')
  qed (use vs wf in \<open>simp_all add: C'\<close>)
qed

text \<open>One assignment to a slot of \<open>z0\<close>.\<close>

lemma set_z0_same:
  assumes "set_z0 C m vals = Inr C'"
  shows "frequency C' = frequency C" and "nports C' = nports C" and "ntwk_s C' = ntwk_s C"
    and "length (ntwk_z0 C') = length (ntwk_z0 C)"
  using set_z0_Inr [OF assms] by (auto dest: broadcast_Inr(1))

lemma set_z0_other:
  assumes "set_z0 C m vals = Inr C'" and "m' \<noteq> m" and "f < length (ntwk_z0 C)"
  shows "ntwk_z0 C' ! f ! m' = ntwk_z0 C ! f ! m'"
proof -
  from set_z0_Inr [OF assms(1)] obtain vs
    where vs: "length vs = length (ntwk_z0 C)"
      and C': "C' = C\<lparr>ntwk_z0 := map2 (\<lambda>z v. z[m := v]) (ntwk_z0 C) vs\<rparr>"
    by (auto dest: broadcast_Inr(1))
  with assms(2,3) show ?thesis by simp
qed

lemma set_z0_slot:
  assumes "set_z0 C m vals = Inr C'" and "wf_network C" and "length vals = length (ntwk_z0 C)"
    and "f < length (ntwk_z0 C)"
  shows "ntwk_z0 C' ! f ! m = vals ! f"
proof -
  from set_z0_Inr [OF assms(1)] assms(3) have m: "m < nports C"
    and C': "C' = C\<lparr>ntwk_z0 := map2 (\<lambda>z v. z[m := v]) (ntwk_z0 C) vals\<rparr>"
    by (auto dest: broadcast_Inr(2))
  from assms(2,4) have "length (ntwk_z0 C ! f) = nports C"
    by (simp add: wf_network_def list_all_length)
  with m assms(3,4) show ?thesis by (simp add: C')
qed

lemma set_z0_wf:
  assumes "set_z0 C m vals = Inr C'" and "wf_network C"
  shows "wf_network C'"
proof -
  from set_z0_Inr [OF assms(1)] obtain vs
    where vs: "length vs = length (ntwk_z0 C)"
      and C': "C' = C\<lparr>ntwk_z0 := map2 (\<lambda>z v. z[m := v]) (ntwk_z0 C) vs\<rparr>"
    by (auto dest: broadcast_Inr(1))
  note wf = wf_networkD [OF assms(2)]
  show ?thesis
  proof (rule wf_networkI)
    fix f assume "f < length (frequency C')"
    then have f: "f < length (frequency C)" by (simp add: C')
    with wf show "square_mat (nports C') (ntwk_s C' ! f)" by (simp add: C')
    from f wf vs show "length (ntwk_z0 C' ! f) = nports C'" by (simp add: C')
  qed (use vs wf in \<open>simp_all add: C'\<close>)
qed

lemma write_block_Inr:
  assumes "write_block C a b T = Inr C'"
  shows "\<exists>C1 C2 C3 C4 C5.
    2 \<le> nports T \<and>
    set_s C a a (map (\<lambda>M. M ! 0 ! 0) (ntwk_s T)) = Inr C1 \<and>
    set_s C1 a b (map (\<lambda>M. M ! 0 ! 1) (ntwk_s T)) = Inr C2 \<and>
    set_s C2 b a (map (\<lambda>M. M ! 1 ! 0) (ntwk_s T)) = Inr C3 \<and>
    set_s C3 b b (map (\<lambda>M. M ! 1 ! 1) (ntwk_s T)) = Inr C4 \<and>
    set_z0 C4 a (map (\<lambda>z. z ! 0) (ntwk_z0 T)) = Inr C5 \<and>
    set_z0 C5 b (map (\<lambda>z. z ! 1) (ntwk_z0 T)) = Inr C'"
proof -
  from assms obtain v1 C1 v2 C2 v3 C3 v4 C4 v5 C5 v6
    where g: "get_s T 0 0 = Inr v1" "get_s T 0 1 = Inr v2" "get_s T 1 0 = Inr v3"
      "get_s T 1 1 = Inr v4" "get_z0 T 0 = Inr v5" "get_z0 T 1 = Inr v6"
    and s: "set_s C a a v1 = Inr C1" "set_s C1 a b v2 = Inr C2" "set_s C2 b a v3 = Inr C3"
      "set_s C3 b b v4 = Inr C4" "set_z0 C4 a v5 = Inr C5" "set_z0 C5 b v6 = Inr C'"
    unfolding write_block_def bind_err_Inr_iff by blast
  from g(4) have "2 \<le> nports T" by (auto dest: get_s_Inr(1))
  with g s show ?thesis
    by (auto dest!: get_s_Inr(3) get_z0_Inr(2))
qed

lemma write_block_same:
  assumes "write_block C a b T = Inr C'"
  shows "frequency C' = frequency C" and "nports C' = nports C"
    and "length (ntwk_s C') = length (ntwk_s C)" and "length (ntwk_z0 C') = length (ntwk_z0 C)"
  using write_block_Inr [OF assms]
  by (auto simp: set_s_same set_z0_same)

lemma write_block_wf:
  assumes "write_block C a b T = Inr C'" and "wf_network C"
  shows "wf_network C'"
  using write_block_Inr [OF assms(1)] assms(2)
  by (elim exE conjE) (blast intro: set_s_wf set_z0_wf)

lemma write_block_other_s:
  assumes "write_block C a b T = Inr C'" and "(m, n) \<notin> s_cells a b"
    and "f < length (ntwk_s C)"
  shows "ntwk_s C' ! f ! m ! n = ntwk_s C ! f ! m ! n"
proof -
  from write_block_Inr [OF assms(1)] obtain C1 C2 C3 C4 C5
    where s: "set_s C a a (map (\<lambda>M. M ! 0 ! 0) (ntwk_s T)) = Inr C1"
      "set_s C1 a b (map (\<lambda>M. M ! 0 ! 1) (ntwk_s T)) = Inr C2"
      "set_s C2 b a (map (\<lambda>M. M ! 1 ! 0) (ntwk_s T)) = Inr C3"
      "set_s C3 b b (map (\<lambda>M. M ! 1 ! 1) (ntwk_s T)) = Inr C4"
      "set_z0 C4 a (map (\<lambda>z. z ! 0) (ntwk_z0 T)) = Inr C5"
      "set_z0 C5 b (map (\<lambda>z. z ! 1) (ntwk_z0 T)) = Inr C'"
    by blast
  from assms(2) have ne: "(m, n) \<noteq> (a, a)" "(m, n) \<noteq> (a, b)" "(m, n) \<noteq> (b, a)" "(m, n) \<noteq> (b, b)"
    by (auto simp: s_cells_def)
  have "ntwk_s C' ! f ! m ! n = ntwk_s C4 ! f ! m ! n"
    using s(5,6) by (simp add: set_z0_same)
  also have "\<dots> = ntwk_s C3 ! f ! m ! n"
    using s(4) ne(4) assms(3) s(1,2,3) by (intro set_s_other) (simp_all add: set_s_same)
  also have "\<dots> = ntwk_s C2 ! f ! m ! n"
    using s(3) ne(3) assms(3) s(1,2) by (intro set_s_other) (simp_all add: set_s_same)
  also have "\<dots> = ntwk_s C1 ! f ! m ! n"
    using s(2) ne(2) assms(3) s(1) by (intro set_s_other) (simp_all add: set_s_same)
  also have "\<dots> = ntwk_s C ! f ! m ! n"
    using s(1) ne(1) assms(3) by (intro set_s_other) simp_all
  finally show ?thesis .
qed

lemma write_block_other_z0:
  assumes "write_block C a b T = Inr C'" and "k \<notin> z0_slots a b"
    and "f < length (ntwk_z0 C)"
  shows "ntwk_z0 C' ! f ! k = ntwk_z0 C ! f ! k"
proof -
  from write_block_Inr [OF assms(1)] obtain C1 C2 C3 C4 C5
    where s: "set_s C a a (map (\<lambda>M. M ! 0 ! 0) (ntwk_s T)) = Inr C1"
      "set_s C1 a b (map (\<lambda>M. M ! 0 ! 1) (ntwk_s T)) = Inr C2"
      "set_s C2 b a (map (\<lambda>M. M ! 1 ! 0) (ntwk_s T)) = Inr C3"
      "set_s C3 b b (map (\<lambda>M. M ! 1 ! 1) (ntwk_s T)) = Inr C4"
      "set_z0 C4 a (map (\<lambda>z. z ! 0) (ntwk_z0 T)) = Inr C5"
      "set_z0 C5 b (map (\<lambda>z. z ! 1) (ntwk_z0 T)) = Inr C'"
    by blast
  from assms(2) have ne: "k \<noteq> a" "k \<noteq> b" by (auto simp: z0_slots_def)
  have z4: "ntwk_z0 C4 = ntwk_z0 C"
    using s(1-4) by (simp add: set_s_same)
  have "ntwk_z0 C' ! f ! k = ntwk_z0 C5 ! f ! k"
    using s(6) ne(2) assms(3) s(5) z4 by (intro set_z0_other) (simp_all add: set_z0_same)
  also have "\<dots> = ntwk_z0 C4 ! f ! k"
    using s(5) ne(1) assms(3) z4 by (intro set_z0_other) simp_all
  finally show ?thesis by (simp add: z4)
qed

lemma write_block_cells:
  assumes "write_block C a b T = Inr C'" and "wf_network C" and "a \<noteq> b"
    and "length (ntwk_s T) = length (frequency C)" and "length (ntwk_z0 T) = length (frequency C)"
    and "f < length (frequency C)"
  shows "ntwk_s C' ! f ! a ! a = ntwk_s T ! f ! 0 ! 0"
    and "ntwk_s C' ! f ! a ! b = ntwk_s T ! f ! 0 ! 1"
    and "ntwk_s C' ! f ! b ! a = ntwk_s T ! f ! 1 ! 0"
    and "ntwk_s C' ! f ! b ! b = ntwk_s T ! f ! 1 ! 1"
    and "ntwk_z0 C' ! f ! a = ntwk_z0 T ! f ! 0"
    and "ntwk_z0 C' ! f ! b = ntwk_z0 T ! f ! 1"
proof -
  from write_block_Inr [OF assms(1)] obtain C1 C2 C3 C4 C5
    where s: "set_s C a a (map (\<lambda>M. M ! 0 ! 0) (ntwk_s T)) = Inr C1"
      "set_s C1 a b (map (\<lambda>M. M ! 0 ! 1) (ntwk_s T)) = Inr C2"
      "set_s C2 b a (map (\<lambda>M. M ! 1 ! 0) (ntwk_s T)) = Inr C3"
      "set_s C3 b b (map (\<lambda>M. M ! 1 ! 1) (ntwk_s T)) = Inr C4"
      "set_z0 C4 a (map (\<lambda>z. z ! 0) (ntwk_z0 T)) = Inr C5"
      "set_z0 C5 b (map (\<lambda>z. z ! 1) (ntwk_z0 T)) = Inr C'"
    by blast
  note wf0 = assms(2)
  have wf1: "wf_network C1" using s(1) wf0 by (rule set_s_wf)
  have wf2: "wf_network C2" using s(2) wf1 by (rule set_s_wf)
  have wf3: "wf_network C3" using s(3) wf2 by (rule set_s_wf)
  have wf4: "wf_network C4" using s(4) wf3 by (rule set_s_wf)
  have wf5: "wf_network C5" using s(5) wf4 by (rule set_z0_wf)
  have F: "length (ntwk_s C) = length (frequency C)" "length (ntwk_z0 C) = length (frequency C)"
    using wf0 by (simp_all add: wf_network_def)
  have ls: "length (ntwk_s C1) = length (frequency C)" "length (ntwk_s C2) = length (frequency C)"
    "length (ntwk_s C3) = length (frequency C)" "length (ntwk_s C4) = length (frequency C)"
    using s F by (simp_all add: set_s_same)
  have lz: "length (ntwk_z0 C4) = length (frequency C)" "length (ntwk_z0 C5) = length (frequency C)"
    using s F by (simp_all add: set_s_same set_z0_same)
  have s': "ntwk_s C' = ntwk_s C4" using s(5,6) by (simp add: set_z0_same)
  have c1: "ntwk_s C1 ! f ! a ! a = ntwk_s T ! f ! 0 ! 0"
    using set_s_cell [OF s(1) wf0, of f] assms(4,6) F by simp
  have c2: "ntwk_s C2 ! f ! a ! b = ntwk_s T ! f ! 0 ! 1"
    using set_s_cell [OF s(2) wf1, of f] assms(4,6) ls by simp
  have c3: "ntwk_s C3 ! f ! b ! a = ntwk_s T ! f ! 1 ! 0"
    using set_s_cell [OF s(3) wf2, of f] assms(4,6) ls by simp
  have c4: "ntwk_s C4 ! f ! b ! b = ntwk_s T ! f ! 1 ! 1"
    using set_s_cell [OF s(4) wf3, of f] assms(4,6) ls by simp
  have o2: "ntwk_s C2 ! f ! m ! n = ntwk_s C1 ! f ! m ! n" if "(m, n) \<noteq> (a, b)" for m n
    using s(2) that by (rule set_s_other) (simp add: ls assms(6))
  have o3: "ntwk_s C3 ! f ! m ! n = ntwk_s C2 ! f ! m ! n" if "(m, n) \<noteq> (b, a)" for m n
    using s(3) that by (rule set_s_other) (simp add: ls assms(6))
  have o4: "ntwk_s C4 ! f ! m ! n = ntwk_s C3 ! f ! m ! n" if "(m, n) \<noteq> (b, b)" for m n
    using s(4) that by (rule set_s_other) (simp add: ls assms(6))
  show "ntwk_s C' ! f ! a ! a = ntwk_s T ! f ! 0 ! 0"
    using assms(3) by (simp add: s' o4 o3 o2 c1)
  show "ntwk_s C' ! f ! a ! b = ntwk_s T ! f ! 0 ! 1"
    using assms(3) by (simp add: s' o4 o3 c2)
  show "ntwk_s C' ! f ! b ! a = ntwk_s T ! f ! 1 ! 0"
    using assms(3) by (simp add: s' o4 c3)
  show "ntwk_s C' ! f ! b ! b = ntwk_s T ! f ! 1 ! 1"
    by (simp add: s' c4)
  have z5: "ntwk_z0 C5 ! f ! a = ntwk_z0 T ! f ! 0"
    using set_z0_slot [OF s(5) wf4, of f] assms(5,6) lz by simp
  have "ntwk_z0 C' ! f ! a = ntwk_z0 C5 ! f ! a"
    using s(6) assms(3) by (rule set_z0_other) (simp add: lz assms(6))
  with z5 show "ntwk_z0 C' ! f ! a = ntwk_z0 T ! f ! 0" by simp
  show "ntwk_z0 C' ! f ! b = ntwk_z0 T ! f ! 1"
    using set_z0_slot [OF s(6) wf5, of f] assms(5,6) lz by simp
qed

section \<open>The composition loop\<close>

lemma renormalize_shape:
  assumes "renormalize N X = Inr N'"
  shows "ntwk_z0 N' = X" and "length (ntwk_s N') = length X"
    and "frequency N' = frequency N" and "nports N' = nports N"
  using assms by (auto simp: renormalize_Inr_iff z2s_Inr_iff)

lemma renormalized_measurement_Inr:
  assumes "renormalized_measurement zl a b raw = Inr ren"
  shows "a < length zl" and "b < length zl"
    and "renormalize raw (map2 (\<lambda>x y. [x, y]) (zl ! a) (zl ! b)) = Inr ren"
  using assms
  by (auto simp: renormalized_measurement_def nth_err_def bind_err_Inr_iff split: if_splits)

lemma renormalized_measurement_shape:
  assumes "renormalized_measurement zl a b raw = Inr ren"
    and "\<forall>row\<in>set zl. length row = F"
  shows "length (ntwk_s ren) = F" and "length (ntwk_z0 ren) = F"
proof -
  note r = renormalized_measurement_Inr [OF assms(1)]
  from r(1,2) assms(2) have "length (zl ! a) = F" "length (zl ! b) = F" by simp_all
  then have "length (map2 (\<lambda>x y. [x, y]) (zl ! a) (zl ! b)) = F" by simp
  with renormalize_shape [OF r(3)] show "length (ntwk_s ren) = F" "length (ntwk_z0 ren) = F"
    by simp_all
qed

lemma composer_step_Inr:
  assumes "composer_step dut loads zl noise st (a, b) = Inr st'"
  shows "\<exists>raw ren. raw_measurement dut loads noise a b = Inr raw \<and>
    renormalized_measurement zl a b raw = Inr ren \<and>
    write_block (composite st) a b ren = Inr (composite st') \<and>
    measured st' = (measured st)((a, b) \<mapsto> raw) \<and>
    measured_renorm st' = (measured_renorm st)((a, b) \<mapsto> ren)"
  using assms by (auto simp: composer_step_def bind_err_Inr_iff)

lemma composer_loop_Cons_Inr:
  assumes "composer_loop dut loads zl noise st (ab # rest) = Inr st'"
  shows "\<exists>st1. composer_step dut loads zl noise st ab = Inr st1 \<and>
    composer_loop dut loads zl noise st1 rest = Inr st'"
  using assms by (auto split: sum.splits)

lemma composer_step_write:
  assumes "composer_step dut loads zl noise st ab = Inr st1"
  shows "\<exists>T. write_block (composite st) (fst ab) (snd ab) T = Inr (composite st1)"
  using composer_step_Inr [of dut loads zl noise st "fst ab" "snd ab" st1] assms by auto

lemma composer_loop_invariant:
  assumes "composer_loop dut loads zl noise st ps = Inr st'"
  shows "frequency (composite st') = frequency (composite st) \<and>
    nports (composite st') = nports (composite st) \<and>
    length (ntwk_s (composite st')) = length (ntwk_s (composite st)) \<and>
    length (ntwk_z0 (composite st')) = length (ntwk_z0 (composite st)) \<and>
    (wf_network (composite st) \<longrightarrow> wf_network (composite st'))"
  using assms
proof (induction ps arbitrary: st)
  case Nil
  then show ?case by simp
next
  case (Cons ab rest)
  from composer_loop_Cons_Inr [OF Cons.prems] obtain st1
    where step: "composer_step dut loads zl noise st ab = Inr st1"
      and r: "composer_loop dut loads zl noise st1 rest = Inr st'" by blast
  from composer_step_write [OF step] obtain T
    where w: "write_block (composite st) (fst ab) (snd ab) T = Inr (composite st1)" by blast
  from Cons.IH [OF r] write_block_same [OF w] write_block_wf [OF w] show ?case by simp
qed

lemma composer_loop_same:
  assumes "composer_loop dut loads zl noise st ps = Inr st'"
  shows "frequency (composite st') = frequency (composite st)"
    and "nports (composite st') = nports (composite st)"
    and "length (ntwk_s (composite st')) = length (ntwk_s (composite st))"
    and "length (ntwk_z0 (composite st')) = length (ntwk_z0 (composite st))"
    and "wf_network (composite st) \<Longrightarrow> wf_network (composite st')"
  using composer_loop_invariant [OF assms] by simp_all

text \<open>Cells that no pair of the remaining loop covers keep their values; pairs that the
  remaining loop does not measure keep their dictionary entries.\<close>

lemma covers_diagonal [simp]: "covers k k ab \<longleftrightarrow> touches k ab"
  by (auto simp: covers_def touches_def s_cells_def)

lemma composer_loop_untouched:
  assumes "composer_loop dut loads zl noise st ps = Inr st'"
  shows "\<forall>ab\<in>set ps. \<not> covers m n ab \<Longrightarrow> f < length (ntwk_s (composite st)) \<Longrightarrow>
      ntwk_s (composite st') ! f ! m ! n = ntwk_s (composite st) ! f ! m ! n"
    and "\<forall>ab\<in>set ps. \<not> touches k ab \<Longrightarrow> f < length (ntwk_z0 (composite st)) \<Longrightarrow>
      ntwk_z0 (composite st') ! f ! k = ntwk_z0 (composite st) ! f ! k"
  using assms
proof (induction ps arbitrary: st)
  case Nil
  {
    case 1 then show ?case by simp
  next
    case 2 then show ?case by simp
  }
next
  case (Cons ab rest)
  {
    case 1
    from composer_loop_Cons_Inr [OF 1(3)] obtain st1
      where step: "composer_step dut loads zl noise st ab = Inr st1"
        and r: "composer_loop dut loads zl noise st1 rest = Inr st'" by blast
    from composer_step_write [OF step] obtain T
      where w: "write_block (composite st) (fst ab) (snd ab) T = Inr (composite st1)" by blast
    from 1(1) have "(m, n) \<notin> s_cells (fst ab) (snd ab)"
      by (simp add: covers_def)
    with w have "ntwk_s (composite st1) ! f ! m ! n = ntwk_s (composite st) ! f ! m ! n"
      using 1(2) by (rule write_block_other_s)
    moreover have "ntwk_s (composite st') ! f ! m ! n = ntwk_s (composite st1) ! f ! m ! n"
      using 1 r write_block_same [OF w] by (intro Cons.IH(1)) simp_all
    ultimately show ?case by simp
  next
    case 2
    from composer_loop_Cons_Inr [OF 2(3)] obtain st1
      where step: "composer_step dut loads zl noise st ab = Inr st1"
        and r: "composer_loop dut loads zl noise st1 rest = Inr st'" by blast
    from composer_step_write [OF step] obtain T
      where w: "write_block (composite st) (fst ab) (snd ab) T = Inr (composite st1)" by blast
    from 2(1) have "k \<notin> z0_slots (fst ab) (snd ab)"
      by (auto simp: z0_slots_def touches_def)
    with w have "ntwk_z0 (composite st1) ! f ! k = ntwk_z0 (composite st) ! f ! k"
      using 2(2) by (rule write_block_other_z0)
    moreover have "ntwk_z0 (composite st') ! f ! k = ntwk_z0 (composite st1) ! f ! k"
      using 2 r write_block_same [OF w] by (intro Cons.IH(2)) simp_all
    ultimately show ?case by simp
  }
qed

lemma composer_loop_entry_kept:
  assumes "composer_loop dut loads zl noise st ps = Inr st'" and "ab \<notin> set ps"
  shows "measured_renorm st' ab = measured_renorm st ab"
    and "measured st' ab = measured st ab"
  using assms
proof (induction ps arbitrary: st)
  case Nil
  {
    case 1 then show ?case by simp
  next
    case 2 then show ?case by simp
  }
next
  case (Cons p rest)
  {
    case 1
    from composer_loop_Cons_Inr [OF 1(1)] obtain st1
      where step: "composer_step dut loads zl noise st p = Inr st1"
        and r: "composer_loop dut loads zl noise st1 rest = Inr st'" by blast
    from step 1(2) have "measured_renorm st1 ab = measured_renorm st ab"
      using composer_step_Inr [of dut loads zl noise st "fst p" "snd p" st1] by auto
    with Cons.IH(1) [OF r] 1(2) show ?case by simp
  next
    case 2
    from composer_loop_Cons_Inr [OF 2(1)] obtain st1
      where step: "composer_step dut loads zl noise st p = Inr st1"
        and r: "composer_loop dut loads zl noise st1 rest = Inr st'" by blast
    from step 2(2) have "measured st1 ab = measured st ab"
      using composer_step_Inr [of dut loads zl noise st "fst p" "snd p" st1] by auto
    with Cons.IH(2) [OF r] 2(2) show ?case by simp
  }
qed


text \<open>The last pair of the loop that covers a cell decides it.\<close>

lemma composer_loop_last_cell:
  assumes "composer_loop dut loads zl noise st ps = Inr st'"
    and "wf_network (composite st)"
    and "\<forall>row\<in>set zl. length row = length (frequency (composite st))"
    and "\<forall>ab\<in>set ps. fst ab \<noteq> snd ab"
    and "filter (covers m n) ps \<noteq> []"
  shows "\<exists>raw T.
    raw_measurement dut loads noise (fst (last (filter (covers m n) ps)))
      (snd (last (filter (covers m n) ps))) = Inr raw \<and>
    renormalized_measurement zl (fst (last (filter (covers m n) ps)))
      (snd (last (filter (covers m n) ps))) raw = Inr T \<and>
    measured st' (last (filter (covers m n) ps)) = Some raw \<and>
    measured_renorm st' (last (filter (covers m n) ps)) = Some T \<and>
    (\<forall>f<length (frequency (composite st)).
       ntwk_s (composite st') ! f ! m ! n
         = ntwk_s T ! f ! position_in m (last (filter (covers m n) ps))
             ! position_in n (last (filter (covers m n) ps)))"
  using assms
proof (induction ps arbitrary: st)
  case Nil
  then show ?case by simp
next
  case (Cons ab rest)
  from composer_loop_Cons_Inr [OF Cons.prems(1)] obtain st1
    where step: "composer_step dut loads zl noise st ab = Inr st1"
      and r: "composer_loop dut loads zl noise st1 rest = Inr st'" by blast
  obtain a b where ab: "ab = (a, b)" by (cases ab)
  from composer_step_Inr [OF step [unfolded ab]] obtain raw ren
    where raw: "raw_measurement dut loads noise a b = Inr raw"
      and ren: "renormalized_measurement zl a b raw = Inr ren"
      and w: "write_block (composite st) a b ren = Inr (composite st1)"
      and dict0: "measured st1 = (measured st)((a, b) \<mapsto> raw)"
      and dict: "measured_renorm st1 = (measured_renorm st)((a, b) \<mapsto> ren)"
    by blast
  have wf1: "wf_network (composite st1)"
    using w Cons.prems(2) by (rule write_block_wf)
  have fr1: "frequency (composite st1) = frequency (composite st)"
    using w by (rule write_block_same)
  note wf0 = wf_networkD [OF Cons.prems(2)]
  show ?case
  proof (cases "filter (covers m n) rest = []")
    case False
    then have last: "last (filter (covers m n) (ab # rest)) = last (filter (covers m n) rest)"
      by simp
    have "\<exists>raw T.
      raw_measurement dut loads noise (fst (last (filter (covers m n) rest)))
        (snd (last (filter (covers m n) rest))) = Inr raw \<and>
      renormalized_measurement zl (fst (last (filter (covers m n) rest)))
        (snd (last (filter (covers m n) rest))) raw = Inr T \<and>
      measured st' (last (filter (covers m n) rest)) = Some raw \<and>
      measured_renorm st' (last (filter (covers m n) rest)) = Some T \<and>
      (\<forall>f<length (frequency (composite st1)).
         ntwk_s (composite st') ! f ! m ! n
           = ntwk_s T ! f ! position_in m (last (filter (covers m n) rest))
               ! position_in n (last (filter (covers m n) rest)))"
      using r wf1 Cons.prems(3,4) False by (intro Cons.IH) (simp_all add: fr1)
    then show ?thesis by (simp only: last fr1)
  next
    case True
    with Cons.prems(5) have t: "covers m n ab" by (auto split: if_splits)
    with True have last: "last (filter (covers m n) (ab # rest)) = (a, b)"
      by (simp add: ab)
    from True have none: "\<forall>p\<in>set rest. \<not> covers m n p"
      by (simp add: filter_empty_conv)
    with t have notin: "(a, b) \<notin> set rest" by (auto simp: ab)
    from r notin have "measured_renorm st' (a, b) = measured_renorm st1 (a, b)"
      by (rule composer_loop_entry_kept)
    with dict have d: "measured_renorm st' (a, b) = Some ren" by simp
    from r notin have "measured st' (a, b) = measured st1 (a, b)"
      by (rule composer_loop_entry_kept)
    with dict0 have d0: "measured st' (a, b) = Some raw" by simp
    from Cons.prems(4) have neq: "a \<noteq> b" by (simp add: ab)
    from t have mn: "(m = a \<or> m = b) \<and> (n = a \<or> n = b)"
      by (auto simp: covers_def s_cells_def ab)
    have shape: "length (ntwk_s ren) = length (frequency (composite st))"
      "length (ntwk_z0 ren) = length (frequency (composite st))"
      using renormalized_measurement_shape [OF ren Cons.prems(3)] by simp_all
    have cells: "ntwk_s (composite st') ! f ! m ! n
          = ntwk_s ren ! f ! position_in m (a, b) ! position_in n (a, b)"
      if f: "f < length (frequency (composite st))" for f
    proof -
      note c = write_block_cells(1-4) [OF w Cons.prems(2) neq shape f]
      have "f < length (ntwk_s (composite st1))"
        using f wf0(1) write_block_same [OF w] by simp
      with r none have "ntwk_s (composite st') ! f ! m ! n = ntwk_s (composite st1) ! f ! m ! n"
        by (intro composer_loop_untouched(1))
      moreover have "ntwk_s (composite st1) ! f ! m ! n
          = ntwk_s ren ! f ! position_in m (a, b) ! position_in n (a, b)"
        using mn c neq by (auto simp: position_in_def)
      ultimately show ?thesis by simp
    qed
    from raw ren d d0 cells show ?thesis
      unfolding last by auto
  qed
qed

text \<open>The last pair of the loop that measures a port decides its impedance slot.\<close>

lemma composer_loop_last_slot:
  assumes "composer_loop dut loads zl noise st ps = Inr st'"
    and "wf_network (composite st)"
    and "\<forall>row\<in>set zl. length row = length (frequency (composite st))"
    and "\<forall>ab\<in>set ps. fst ab \<noteq> snd ab"
    and "filter (touches k) ps \<noteq> []"
  shows "\<exists>raw T.
    raw_measurement dut loads noise (fst (last (filter (touches k) ps)))
      (snd (last (filter (touches k) ps))) = Inr raw \<and>
    renormalized_measurement zl (fst (last (filter (touches k) ps)))
      (snd (last (filter (touches k) ps))) raw = Inr T \<and>
    (\<forall>f<length (frequency (composite st)).
       ntwk_z0 (composite st') ! f ! k
         = ntwk_z0 T ! f ! position_in k (last (filter (touches k) ps)))"
  using assms
proof (induction ps arbitrary: st)
  case Nil
  then show ?case by simp
next
  case (Cons ab rest)
  from composer_loop_Cons_Inr [OF Cons.prems(1)] obtain st1
    where step: "composer_step dut loads zl noise st ab = Inr st1"
      and r: "composer_loop dut loads zl noise st1 rest = Inr st'" by blast
  obtain a b where ab: "ab = (a, b)" by (cases ab)
  from composer_step_Inr [OF step [unfolded ab]] obtain raw ren
    where raw: "raw_measurement dut loads noise a b = Inr raw"
      and ren: "renormalized_measurement zl a b raw = Inr ren"
      and w: "write_block (composite st) a b ren = Inr (composite st1)"
    by blast
  have wf1: "wf_network (composite st1)"
    using w Cons.prems(2) by (rule write_block_wf)
  have fr1: "frequency (composite st1) = frequency (composite st)"
    using w by (rule write_block_same)
  note wf0 = wf_networkD [OF Cons.prems(2)]
  show ?case
  proof (cases "filter (touches k) rest = []")
    case False
    then have last: "last (filter (touches k) (ab # rest)) = last (filter (touches k) rest)"
      by simp
    have "\<exists>raw T.
      raw_measurement dut loads noise (fst (last (filter (touches k) rest)))
        (snd (last (filter (touches k) rest))) = Inr raw \<and>
      renormalized_measurement zl (fst (last (filter (touches k) rest)))
        (snd (last (filter (touches k) rest))) raw = Inr T \<and>
      (\<forall>f<length (frequency (composite st1)).
         ntwk_z0 (composite st') ! f ! k
           = ntwk_z0 T ! f ! position_in k (last (filter (touches k) rest)))"
      using r wf1 Cons.prems(3,4) False by (intro Cons.IH) (simp_all add: fr1)
    then show ?thesis by (simp only: last fr1)
  next
    case True
    with Cons.prems(5) have t: "touches k ab" by (auto split: if_splits)
    with True have last: "last (filter (touches k) (ab # rest)) = (a, b)"
      by (simp add: ab)
    from True have none: "\<forall>p\<in>set rest. \<not> touches k p"
      by (simp add: filter_empty_conv)
    from Cons.prems(4) have neq: "a \<noteq> b" by (simp add: ab)
    have shape: "length (ntwk_s ren) = length (frequency (composite st))"
      "length (ntwk_z0 ren) = length (frequency (composite st))"
      using renormalized_measurement_shape [OF ren Cons.prems(3)] by simp_all
    have slots: "ntwk_z0 (composite st') ! f ! k = ntwk_z0 ren ! f ! position_in k (a, b)"
      if f: "f < length (frequency (composite st))" for f
    proof -
      note c = write_block_cells(5,6) [OF w Cons.prems(2) neq shape f]
      have "f < length (ntwk_z0 (composite st1))"
        using f wf0(2) write_block_same [OF w] by simp
      with r none have "ntwk_z0 (composite st') ! f ! k = ntwk_z0 (composite st1) ! f ! k"
        by (intro composer_loop_untouched(2))
      moreover have "ntwk_z0 (composite st1) ! f ! k = ntwk_z0 ren ! f ! position_in k (a, b)"
        using t c neq by (auto simp: position_in_def touches_def ab)
      ultimately show ?thesis by simp
    qed
    from raw ren slots show ?thesis
      unfolding last by auto
  qed
qed

text \<open>The last pair of the loop that measures port \<open>k\<close> decides the diagonal cell and the
  impedance slot of \<open>k\<close>.\<close>

lemma composer_loop_last_write:
  assumes "composer_loop dut loads zl noise st ps = Inr st'"
    and "wf_network (composite st)"
    and "\<forall>row\<in>set zl. length row = length (frequency (composite st))"
    and "\<forall>ab\<in>set ps. fst ab \<noteq> snd ab"
    and "filter (touches k) ps \<noteq> []"
  shows "\<exists>raw T.
    raw_measurement dut loads noise (fst (last (filter (touches k) ps)))
      (snd (last (filter (touches k) ps))) = Inr raw \<and>
    renormalized_measurement zl (fst (last (filter (touches k) ps)))
      (snd (last (filter (touches k) ps))) raw = Inr T \<and>
    measured_renorm st' (last (filter (touches k) ps)) = Some T \<and>
    (\<forall>f<length (frequency (composite st)).
       ntwk_s (composite st') ! f ! k ! k
         = ntwk_s T ! f ! position_in k (last (filter (touches k) ps))
             ! position_in k (last (filter (touches k) ps)) \<and>
       ntwk_z0 (composite st') ! f ! k
         = ntwk_z0 T ! f ! position_in k (last (filter (touches k) ps)))"
proof -
  have eq: "filter (covers k k) ps = filter (touches k) ps"
    by (rule filter_cong) simp_all
  from composer_loop_last_cell [OF assms(1-4), of k k] assms(5)
  obtain raw T where raw: "raw_measurement dut loads noise (fst (last (filter (touches k) ps)))
      (snd (last (filter (touches k) ps))) = Inr raw"
    and T: "renormalized_measurement zl (fst (last (filter (touches k) ps)))
      (snd (last (filter (touches k) ps))) raw = Inr T"
    and d: "measured_renorm st' (last (filter (touches k) ps)) = Some T"
    and c: "\<And>f. f < length (frequency (composite st)) \<Longrightarrow>
       ntwk_s (composite st') ! f ! k ! k
         = ntwk_s T ! f ! position_in k (last (filter (touches k) ps))
             ! position_in k (last (filter (touches k) ps))"
    unfolding eq by blast
  from composer_loop_last_slot [OF assms] raw T
  have "\<forall>f<length (frequency (composite st)).
       ntwk_z0 (composite st') ! f ! k
         = ntwk_z0 T ! f ! position_in k (last (filter (touches k) ps))"
    by auto
  with raw T d c show ?thesis by blast
qed

section \<open>The inputs and the result of the composition\<close>

lemma match_simps [simp]:
  "frequency (match wg n) = med_frequency wg" "nports (match wg n) = n"
  by (simp_all add: match_def)

lemma match_wf: "wf_media wg \<Longrightarrow> wf_network (match wg n)"
  by (simp add: wf_media_def match_def wf_network_def square_mat_def list_all_iff)

lemma load_simps [simp]:
  "frequency (load wg gamma) = med_frequency wg" "nports (load wg gamma) = 1"
  by (simp_all add: load_def)

lemma load_wf: "wf_media wg \<Longrightarrow> wf_network (load wg gamma)"
  by (simp add: wf_media_def load_def wf_network_def square_mat_def list_all_iff)

lemma s2z_core_square:
  assumes "s2z_core s z0 = Inr z"
  shows "square_mat (length z0) z"
proof -
  from s2z_core_Inr [OF assms refl] obtain X
    where sq: "square_mat (length z0) s"
      and X: "mat_inv (mat_sub (mat_id (length z0)) s) = Some X"
      and z: "z = denormalise_z (mat_mul X (mat_add (mat_id (length z0)) s)) z0"
    by blast
  from sq have "square_mat (length z0) (mat_sub (mat_id (length z0)) s)" by simp
  from mat_inv_sound(1) [OF this X] sq show ?thesis by (simp add: z)
qed

lemma s2z_point_square:
  assumes "s2z_point s z0 = Inr z"
  shows "square_mat (length z0) z"
  using assms unfolding s2z_point_core by (rule s2z_core_square)

lemma z2s_point_square:
  assumes "z2s_point z z0 = Inr s"
  shows "square_mat (length z0) s"
proof -
  from z2s_point_Inr [OF assms refl] obtain V
    where sq: "square_mat (length z0) z"
      and V: "mat_inv (mat_add (normalise_z z z0) (mat_id (length z0))) = Some V"
      and s: "s = mat_mul (mat_sub (normalise_z z z0) (mat_id (length z0))) V"
    by blast
  from sq have "square_mat (length z0) (mat_add (normalise_z z z0) (mat_id (length z0)))"
    by simp
  from mat_inv_sound(1) [OF this V] sq show ?thesis by (simp add: s)
qed

lemma network_z_shape:
  assumes "network_z N = Inr z" and "wf_network N"
  shows "length z = length (frequency N)"
    and "\<And>f. f < length (frequency N) \<Longrightarrow> square_mat (nports N) (z ! f)"
    and "\<And>f. f < length (frequency N) \<Longrightarrow> s2z_point (ntwk_s N ! f) (ntwk_z0 N ! f) = Inr (z ! f)"
proof -
  note wf = wf_networkD [OF assms(2)]
  from assms(1) have len: "length z = length (ntwk_s N)"
    and pt: "\<And>f. f < length (ntwk_s N) \<Longrightarrow> s2z_point (ntwk_s N ! f) (ntwk_z0 N ! f) = Inr (z ! f)"
    by (simp_all add: network_z_def s2z_Inr_iff)
  from len wf show "length z = length (frequency N)" by simp
  show "square_mat (nports N) (z ! f)" if "f < length (frequency N)" for f
    using s2z_point_square [OF pt [of f]] that wf by simp
  show "s2z_point (ntwk_s N ! f) (ntwk_z0 N ! f) = Inr (z ! f)" if "f < length (frequency N)" for f
    using pt [of f] that wf by simp
qed

lemma concat_one_port:
  assumes "\<forall>M\<in>set z. square_mat 1 M"
  shows "length (concat (map concat z)) = length z"
  using assms
proof (induction z)
  case Nil
  then show ?case by simp
next
  case (Cons M z)
  then have "square_mat 1 M" by simp
  then have "length (concat M) = 1"
    by (cases M) (auto simp: square_mat_iff)
  with Cons show ?case by simp
qed

lemma load_z_length:
  assumes "load_z L = Inr row" and "wf_network L" and "nports L = 1"
  shows "length row = length (frequency L)"
proof -
  from assms(1) obtain z where z: "network_z L = Inr z" and row: "row = concat (map concat z)"
    by (auto simp: load_z_def bind_err_Inr_iff)
  note sh = network_z_shape [OF z assms(2)]
  have "\<forall>M\<in>set z. square_mat 1 M"
    using sh(1,2) assms(3) by (auto simp: in_set_conv_nth)
  then show ?thesis by (simp add: row concat_one_port sh(1))
qed

lemma z_loads_rows:
  assumes "z_loads loads = Inr zl" and "loads_on wg loads"
  shows "length zl = length loads" and "\<forall>row\<in>set zl. length row = length (med_frequency wg)"
proof -
  from assms(1) have len: "length zl = length loads"
    and pt: "\<And>i. i < length loads \<Longrightarrow> load_z (loads ! i) = Inr (zl ! i)"
    by (simp_all add: z_loads_def sequence_err_map_Inr_iff)
  show "length zl = length loads" by (rule len)
  show "\<forall>row\<in>set zl. length row = length (med_frequency wg)"
  proof
    fix row assume "row \<in> set zl"
    then obtain i where i: "i < length loads" and row: "row = zl ! i"
      using len by (auto simp: in_set_conv_nth)
    from assms(2) i have "wf_network (loads ! i)" "nports (loads ! i) = 1"
      "frequency (loads ! i) = med_frequency wg"
      by (simp_all add: loads_on_def list_all_length)
    with load_z_length [OF pt [OF i]] show "length row = length (med_frequency wg)"
      by (simp add: row)
  qed
qed

lemma compose_Inr:
  assumes "compose wg dut loads noise = Inr st"
  shows "\<exists>zl. z_loads loads = Inr zl \<and>
    composer_loop dut loads zl noise
      \<lparr>composite = match wg (nports dut), measured = Map.empty, measured_renorm = Map.empty\<rparr>
      (port_combos (nports dut)) = Inr st"
  using assms by (simp add: compose_def bind_err_Inr_iff)

lemma port_combos_four_distinct: "\<forall>ab\<in>set (port_combos 4). fst ab \<noteq> snd ab"
  by (simp add: port_combos_four)

lemma last_pair_with_four:
  assumes "k < 4"
  shows "filter (touches k) (port_combos 4) \<noteq> []"
    and "last_pair_with 4 k = (if k = 3 then (2, 3) else (k, 3))"
proof -
  from assms have "k = 0 \<or> k = 1 \<or> k = 2 \<or> k = 3" by arith
  then show "filter (touches k) (port_combos 4) \<noteq> []"
    by (elim disjE) (simp_all add: port_combos_four touches_def)
  from \<open>k = 0 \<or> k = 1 \<or> k = 2 \<or> k = 3\<close>
  show "last_pair_with 4 k = (if k = 3 then (2, 3) else (k, 3))"
    by (elim disjE) (simp_all add: last_pair_with_def port_combos_four touches_def)
qed

section \<open>The Connector\<close>

lemma length_delete_at: "i < length xs \<Longrightarrow> length (delete_at i xs) = length xs - 1"
  by (simp add: delete_at_def)

lemma nth_delete_at:
  "k < length xs - 1 \<Longrightarrow> delete_at i xs ! k = xs ! (if k < i then k else Suc k)"
  by (auto simp: delete_at_def nth_append min_def)

lemma connect_ports_Inr:
  assumes "connect_ports pa i pb j = Inr ps"
  shows "i < length pa" and "j < length pb" and "ps = delete_at i pa @ delete_at j pb"
    and "length ps = length pa + length pb - 2"
  using assms by (auto simp: connect_ports_def length_delete_at split: if_splits)

lemma square_block_diag:
  assumes "square_mat P A" and "square_mat Q B"
  shows "square_mat (P + Q) (block_diag A B)"
  using assms by (auto simp: block_diag_def square_mat_iff nth_append)

lemma length_filter_two_out:
  assumes "p < n" and "q < n" and "p \<noteq> q"
  shows "length (filter (\<lambda>r. r \<noteq> p \<and> r \<noteq> q) [0..<n]) = n - 2"
proof -
  have "{r \<in> {0..<n}. r \<noteq> p \<and> r \<noteq> q} = {0..<n} - {p, q}" by auto
  moreover have "card ({0..<n} - {p, q}) = n - 2"
    using assms by (simp add: card_Diff_subset)
  moreover have "length (filter (\<lambda>r. r \<noteq> p \<and> r \<noteq> q) [0..<n])
      = card {r \<in> set [0..<n]. r \<noteq> p \<and> r \<noteq> q}"
    by (simp add: distinct_length_filter Int_def conj_commute)
  ultimately show ?thesis by simp
qed

lemma join_ports_Inr:
  assumes "join_ports Z p q = Inr z"
  shows "Z ! p ! p + Z ! q ! q - Z ! p ! q - Z ! q ! p \<noteq> 0"
    and "z = map (\<lambda>r. map (\<lambda>c. Z ! r ! c - (Z ! r ! p - Z ! r ! q) * (Z ! p ! c - Z ! q ! c)
              / (Z ! p ! p + Z ! q ! q - Z ! p ! q - Z ! q ! p))
            (filter (\<lambda>r. r \<noteq> p \<and> r \<noteq> q) [0..<length Z]))
          (filter (\<lambda>r. r \<noteq> p \<and> r \<noteq> q) [0..<length Z])"
  using assms by (auto simp: join_ports_def Let_def split: if_splits)

lemma join_ports_error:
  "join_ports Z p q = Inl err \<Longrightarrow> err = SingularityError"
  by (auto simp: join_ports_def Let_def split: if_splits)

lemma join_ports_square:
  assumes "join_ports Z p q = Inr z" and "length Z = n" and "p < n" and "q < n" and "p \<noteq> q"
  shows "square_mat (n - 2) z"
  using join_ports_Inr(2) [OF assms(1)] length_filter_two_out [OF assms(3-5)] assms(2)
  by (simp add: square_mat_iff)

lemma s2z_point_error:
  assumes "s2z_point s z0 = Inl err" and "square_mat (length z0) s"
  shows "err = SingularityError"
  using assms by (auto simp: s2z_point_def split: if_splits option.splits)

lemma z2s_point_error:
  assumes "z2s_point z z0 = Inl err" and "square_mat (length z0) z"
  shows "err = SingularityError"
  using assms by (auto simp: z2s_point_def split: if_splits option.splits)

lemma network_z_error:
  assumes "network_z N = Inl err" and "wf_network N"
  shows "err = SingularityError"
proof -
  note wf = wf_networkD [OF assms(2)]
  from assms(1) wf have "sequence_err (map2 s2z_point (ntwk_s N) (ntwk_z0 N)) = Inl err"
    by (simp add: network_z_def s2z_def)
  then have "Inl err \<in> set (map2 s2z_point (ntwk_s N) (ntwk_z0 N))"
    by (rule sequence_err_Inl)
  then obtain f where f: "f < length (frequency N)"
    and e: "s2z_point (ntwk_s N ! f) (ntwk_z0 N ! f) = Inl err"
    using wf(1,2) by (auto simp: in_set_conv_nth)
  from wf(3,4) [OF f] have "square_mat (length (ntwk_z0 N ! f)) (ntwk_s N ! f)" by simp
  with e show ?thesis by (rule s2z_point_error)
qed

text \<open>The Connector at one frequency point.\<close>

lemma connect_point_cases:
  assumes "square_mat P zA" and "length z0A = P" and "square_mat Q zB" and "length z0B = Q"
    and "i < P" and "j < Q"
  shows "connect_point zA z0A i zB z0B j = Inl SingularityError \<or>
    (\<exists>s z0. connect_point zA z0A i zB z0B j = Inr (s, z0) \<and>
       z0 = delete_at i z0A @ delete_at j z0B \<and> length z0 = P + Q - 2 \<and>
       square_mat (P + Q - 2) s)"
proof -
  let ?Z = "block_diag zA zB"
  have sqZ: "square_mat (P + Q) ?Z" using assms(1,3) by (rule square_block_diag)
  have lenA: "length zA = P" using assms(1) by (simp add: square_mat_iff)
  have cp: "connect_ports z0A i z0B j = Inr (delete_at i z0A @ delete_at j z0B)"
    using assms by (simp add: connect_ports_def)
  have lz0: "length (delete_at i z0A @ delete_at j z0B) = P + Q - 2"
    using assms by (simp add: length_delete_at)
  show ?thesis
  proof (cases "join_ports ?Z i (P + j)")
    case (Inl err)
    then have "err = SingularityError" by (rule join_ports_error)
    with Inl show ?thesis by (simp add: connect_point_def lenA)
  next
    case (Inr z)
    have sqz: "square_mat (P + Q - 2) z"
      using Inr _ _ _ _
    proof (rule join_ports_square)
      show "length ?Z = P + Q" using sqZ by (simp add: square_mat_iff)
    qed (use assms in simp_all)
    show ?thesis
    proof (cases "z2s_point z (delete_at i z0A @ delete_at j z0B)")
      case (Inl err)
      moreover from sqz lz0
      have "square_mat (length (delete_at i z0A @ delete_at j z0B)) z" by simp
      ultimately have "err = SingularityError" by (rule z2s_point_error)
      with Inl Inr cp show ?thesis by (simp add: connect_point_def lenA)
    next
      case r: (Inr s)
      from z2s_point_square [OF r] lz0 have "square_mat (P + Q - 2) s" by simp
      with r Inr cp lz0 show ?thesis by (simp add: connect_point_def lenA)
    qed
  qed
qed

lemma connect_cases:
  assumes "wf_network A" and "wf_network B" and "frequency A = frequency B"
    and "i < nports A" and "j < nports B"
  shows "connect A i B j = Inl SingularityError \<or>
    (\<exists>C. connect A i B j = Inr C \<and> nports C = nports A + nports B - 2 \<and>
       frequency C = frequency A \<and> wf_network C \<and>
       (\<forall>f<length (frequency A).
          ntwk_z0 C ! f = delete_at i (ntwk_z0 A ! f) @ delete_at j (ntwk_z0 B ! f)))"
proof -
  note wfA = wf_networkD [OF assms(1)]
  note wfB = wf_networkD [OF assms(2)]
  let ?F = "length (frequency A)"
  show ?thesis
  proof (cases "network_z A")
    case (Inl err)
    with network_z_error [OF Inl assms(1)] assms(3-5) show ?thesis
      by (simp add: connect_def)
  next
    case zA: (Inr zA)
    note shA = network_z_shape [OF zA assms(1)]
    show ?thesis
    proof (cases "network_z B")
      case (Inl err)
      with network_z_error [OF Inl assms(2)] assms(3-5) zA show ?thesis
        by (simp add: connect_def)
    next
      case zB: (Inr zB)
      note shB = network_z_shape [OF zB assms(2)]
      let ?pt = "\<lambda>f. connect_point (zA ! f) (ntwk_z0 A ! f) i (zB ! f) (ntwk_z0 B ! f) j"
      have pt: "?pt f = Inl SingularityError \<or>
          (\<exists>s z0. ?pt f = Inr (s, z0) \<and>
             z0 = delete_at i (ntwk_z0 A ! f) @ delete_at j (ntwk_z0 B ! f) \<and>
             length z0 = nports A + nports B - 2 \<and>
             square_mat (nports A + nports B - 2) s)"
        if "f < ?F" for f
        using that assms(3-5) shA(2) wfA(4) shB(2) wfB(4)
        by (intro connect_point_cases) simp_all
      show ?thesis
      proof (cases "sequence_err (map ?pt [0..<?F])")
        case (Inl err)
        then have "Inl err \<in> set (map ?pt [0..<?F])" by (rule sequence_err_Inl)
        then obtain f where "f < ?F" "?pt f = Inl err" by auto
        with pt [of f] have "err = SingularityError" by auto
        with Inl zA zB assms(3-5) show ?thesis by (simp add: connect_def)
      next
        case (Inr pts)
        then have len: "length pts = ?F" and nth: "\<And>f. f < ?F \<Longrightarrow> ?pt f = Inr (pts ! f)"
          by (simp_all add: sequence_err_map_Inr_iff)
        let ?C = "\<lparr>frequency = frequency A, nports = nports A + nports B - 2,
              ntwk_s = map fst pts, ntwk_z0 = map snd pts\<rparr>"
        have C: "connect A i B j = Inr ?C"
          using Inr zA zB assms(3-5) by (simp add: connect_def)
        have props: "snd (pts ! f) = delete_at i (ntwk_z0 A ! f) @ delete_at j (ntwk_z0 B ! f) \<and>
            length (snd (pts ! f)) = nports A + nports B - 2 \<and>
            square_mat (nports A + nports B - 2) (fst (pts ! f))" if "f < ?F" for f
          using pt [OF that] nth [OF that] by auto
        have "wf_network ?C"
        proof (rule wf_networkI)
          fix f assume "f < length (frequency ?C)"
          then have f: "f < ?F" by simp
          from props [OF f] f len show "square_mat (nports ?C) (ntwk_s ?C ! f)" by simp
          from props [OF f] have "length (snd (pts ! f)) = nports A + nports B - 2" by blast
          with f len show "length (ntwk_z0 ?C ! f) = nports ?C" by simp
        qed (simp_all add: len)
        with C props len show ?thesis by simp
      qed
    qed
  qed
qed

lemma connect_Inr:
  assumes "connect A i B j = Inr C" and "wf_network A" and "wf_network B"
  shows "frequency A = frequency B" and "i < nports A" and "j < nports B"
    and "nports C = nports A + nports B - 2" and "frequency C = frequency A"
    and "wf_network C"
    and "\<And>f. f < length (frequency A) \<Longrightarrow>
          ntwk_z0 C ! f = delete_at i (ntwk_z0 A ! f) @ delete_at j (ntwk_z0 B ! f)"
proof -
  from assms(1) show g: "frequency A = frequency B" "i < nports A" "j < nports B"
    by (auto simp: connect_def split: if_splits)
  from connect_cases [OF assms(2,3) g] assms(1)
  show "nports C = nports A + nports B - 2" "frequency C = frequency A" "wf_network C"
    "\<And>f. f < length (frequency A) \<Longrightarrow>
          ntwk_z0 C ! f = delete_at i (ntwk_z0 A ! f) @ delete_at j (ntwk_z0 B ! f)"
    by auto
qed

lemma connect_domain_error:
  assumes "frequency A \<noteq> frequency B \<or> \<not> i < nports A \<or> \<not> j < nports B"
  shows "connect A i B j = Inl DomainError"
  using assms by (auto simp: connect_def)

section \<open>Currents, voltages and waves\<close>

lemma mv_cong:
  assumes "\<And>j. j < n \<Longrightarrow> u j = v j"
  shows "mv n A u k = mv n A v k"
  unfolding mv_def by (intro sum.cong refl) (simp add: assms)

lemma mv_mat_mul:
  assumes "square_mat n A" and "square_mat n B" and "k < n"
  shows "mv n (mat_mul A B) u k = mv n A (mv n B u) k"
proof -
  have "mv n (mat_mul A B) u k = (\<Sum>j<n. (\<Sum>l<n. A ! k ! l * B ! l ! j) * u j)"
    unfolding mv_def using assms by (intro sum.cong refl) (simp add: mat_mul_nth [of n])
  also have "\<dots> = (\<Sum>j<n. \<Sum>l<n. A ! k ! l * (B ! l ! j * u j))"
    by (simp add: sum_distrib_right mult.assoc)
  also have "\<dots> = (\<Sum>l<n. \<Sum>j<n. A ! k ! l * (B ! l ! j * u j))"
    by (rule sum.swap)
  also have "\<dots> = mv n A (mv n B u) k"
    by (simp add: mv_def sum_distrib_left)
  finally show ?thesis .
qed

lemma mv_mat_id:
  assumes "k < n"
  shows "mv n (mat_id n) u k = u k"
proof -
  have "mv n (mat_id n) u k = (\<Sum>j<n. (if k = j then 1 else 0) * u j)"
    unfolding mv_def using assms by (intro sum.cong refl) simp
  with assms show ?thesis by (simp only: sum_delta_left)
qed

lemma mv_mat_add:
  assumes "square_mat n A" and "square_mat n B" and "k < n"
  shows "mv n (mat_add A B) u k = mv n A u k + mv n B u k"
proof -
  have "mv n (mat_add A B) u k = (\<Sum>j<n. A ! k ! j * u j + B ! k ! j * u j)"
    unfolding mv_def using assms
    by (intro sum.cong refl) (simp add: mat_add_nth [of n] algebra_simps)
  then show ?thesis by (simp add: mv_def sum.distrib)
qed

lemma mv_mat_sub:
  assumes "square_mat n A" and "square_mat n B" and "k < n"
  shows "mv n (mat_sub A B) u k = mv n A u k - mv n B u k"
proof -
  have "mv n (mat_sub A B) u k = (\<Sum>j<n. A ! k ! j * u j - B ! k ! j * u j)"
    unfolding mv_def using assms
    by (intro sum.cong refl) (simp add: mat_sub_nth [of n] algebra_simps)
  then show ?thesis by (simp add: mv_def sum_subtractf)
qed

text \<open>The normalised impedance matrix acts on the scaled currents \<open>u j = sqrt (z0 j) * I j\<close>
  as the impedance matrix acts on the currents, up to the scaling of the result.\<close>

lemma mv_normalise_z:
  assumes "square_mat n Z" and "length z0 = n" and "\<forall>x\<in>set z0. x \<noteq> 0" and "k < n"
  shows "mv n (normalise_z Z z0) (\<lambda>j. csqrt (z0 ! j) * I j) k = mv n Z I k / csqrt (z0 ! k)"
proof -
  have nz: "csqrt (z0 ! j) \<noteq> 0" if "j < n" for j
    using assms(2,3) that by simp
  have "mv n (normalise_z Z z0) (\<lambda>j. csqrt (z0 ! j) * I j) k
      = (\<Sum>j<n. Z ! k ! j * I j / csqrt (z0 ! k))"
    unfolding mv_def using assms nz
    by (intro sum.cong refl) (simp add: normalise_z_nth [of n])
  then show ?thesis by (simp add: mv_def sum_divide_distrib)
qed

lemma incident_wave:
  assumes "square_mat n Z" and "length z0 = n" and "\<forall>x\<in>set z0. x \<noteq> 0" and "k < n"
  shows "mv n (mat_add (normalise_z Z z0) (mat_id n)) (\<lambda>j. csqrt (z0 ! j) * I j) k
       = (mv n Z I k + z0 ! k * I k) / csqrt (z0 ! k)"
proof -
  have "csqrt (z0 ! k) \<noteq> 0" using assms(2-4) by simp
  moreover have "csqrt (z0 ! k) * csqrt (z0 ! k) = z0 ! k"
    using power2_csqrt [of "z0 ! k"] by (simp add: power2_eq_square)
  ultimately have "csqrt (z0 ! k) * I k = z0 ! k * I k / csqrt (z0 ! k)"
    by (simp add: field_simps)
  with assms show ?thesis
    by (simp add: mv_mat_add mv_mat_id mv_normalise_z add_divide_distrib)
qed

lemma reflected_wave:
  assumes "square_mat n Z" and "length z0 = n" and "\<forall>x\<in>set z0. x \<noteq> 0" and "k < n"
  shows "mv n (mat_sub (normalise_z Z z0) (mat_id n)) (\<lambda>j. csqrt (z0 ! j) * I j) k
       = (mv n Z I k - z0 ! k * I k) / csqrt (z0 ! k)"
proof -
  have "csqrt (z0 ! k) \<noteq> 0" using assms(2-4) by simp
  moreover have "csqrt (z0 ! k) * csqrt (z0 ! k) = z0 ! k"
    using power2_csqrt [of "z0 ! k"] by (simp add: power2_eq_square)
  ultimately have "csqrt (z0 ! k) * I k = z0 ! k * I k / csqrt (z0 ! k)"
    by (simp add: field_simps)
  with assms show ?thesis
    by (simp add: mv_mat_sub mv_mat_id mv_normalise_z diff_divide_distrib)
qed

section \<open>Evaluating the model\<close>

text \<open>The square roots of the conversions are not computed by rewriting. The lemmas of
  this section reduce a conversion to products of matrices with rational entries: for
  reference impedances that are all equal, and for reference impedances whose square roots
  are known. An inverse is recognised by its product with the matrix.\<close>

lemma square_scale_ports: "length r = n \<Longrightarrow> square_mat n (scale_ports r A)"
  by (simp add: scale_ports_def square_mat_iff)

lemma scale_ports_nth:
  "i < length r \<Longrightarrow> j < length r \<Longrightarrow> scale_ports r A ! i ! j = r ! i * A ! i ! j * r ! j"
  by (simp add: scale_ports_def)

lemma normalise_z_roots:
  assumes "square_mat n z" and "length z0 = n" and "map csqrt z0 = r"
  shows "normalise_z z z0 = scale_ports (map (\<lambda>x. 1 / x) r) z"
proof (rule mat_eqI [of n])
  from assms(2,3) have len: "length r = n" by auto
  show "square_mat n (normalise_z z z0)" using assms(1,2) by simp
  show "square_mat n (scale_ports (map (\<lambda>x. 1 / x) r) z)"
    using len by (simp add: square_scale_ports)
  fix i j assume ij: "i < n" "j < n"
  from assms(3) have "r ! i = csqrt (z0 ! i)" "r ! j = csqrt (z0 ! j)"
    using ij assms(2) by auto
  with ij len show "normalise_z z z0 ! i ! j = scale_ports (map (\<lambda>x. 1 / x) r) z ! i ! j"
    using assms(1,2) by (simp add: normalise_z_nth [of n] scale_ports_nth)
qed

lemma csqrt_times_self: "csqrt c * csqrt c = c"
  using power2_csqrt [of c] by (simp add: power2_eq_square)

lemma normalise_z_const:
  assumes "square_mat n z" and "length z0 = n" and "\<forall>x\<in>set z0. x = c"
  shows "normalise_z z z0 = mat_scale (1 / c) z"
proof (rule mat_eqI [of n])
  show "square_mat n (normalise_z z z0)" using assms(1,2) by simp
  show "square_mat n (mat_scale (1 / c) z)" using assms(1) by simp
  fix i j assume ij: "i < n" "j < n"
  with assms(2,3) have "z0 ! i = c" "z0 ! j = c" by simp_all
  then show "normalise_z z z0 ! i ! j = mat_scale (1 / c) z ! i ! j"
    using assms(1,2) ij
    by (simp add: normalise_z_nth [of n] mat_scale_nth [of n] csqrt_times_self)
qed

lemma denormalise_z_const:
  assumes "square_mat n N" and "length z0 = n" and "\<forall>x\<in>set z0. x = c"
  shows "denormalise_z N z0 = mat_scale c N"
proof (rule mat_eqI [of n])
  show "square_mat n (denormalise_z N z0)" using assms(1,2) by simp
  show "square_mat n (mat_scale c N)" using assms(1) by simp
  fix i j assume ij: "i < n" "j < n"
  with assms(2,3) have "z0 ! i = c" "z0 ! j = c" by simp_all
  moreover have "csqrt c * x * csqrt c = c * x" for x
    using csqrt_times_self [of c] by (metis mult.assoc mult.commute)
  ultimately show "denormalise_z N z0 ! i ! j = mat_scale c N ! i ! j"
    using assms(1,2) ij by (simp add: denormalise_z_nth [of n] mat_scale_nth [of n])
qed

lemma mat_inv_eval:
  assumes "square_mat n A" and "square_mat n X" and "mat_mul X A = mat_id n"
  shows "mat_inv A = Some X"
  using assms by (rule mat_inv_complete)

lemma s2z_point_const:
  assumes "square_mat n s" and "regular s" and "length z0 = n" and "\<forall>x\<in>set z0. x = c"
    and "square_mat n X" and "mat_mul X (mat_sub (mat_id n) s) = mat_id n"
    and "mat_scale c (mat_mul X (mat_add (mat_id n) s)) = Z"
  shows "s2z_point s z0 = Inr Z"
proof -
  have "square_mat n (mat_sub (mat_id n) s)" using assms(1) by simp
  from this assms(5,6) have inv: "mat_inv (mat_sub (mat_id n) s) = Some X"
    by (rule mat_inv_complete)
  have "square_mat n (mat_mul X (mat_add (mat_id n) s))" using assms(1,5) by simp
  from denormalise_z_const [OF this assms(3,4)] assms(1,3,7) inv show ?thesis
    by (simp add: s2z_point_def regularise_regular [OF assms(2)])
qed

lemma z2s_point_const:
  assumes "square_mat n z" and "length z0 = n" and "\<forall>x\<in>set z0. x = c" and "c \<noteq> 0"
    and "mat_scale (1 / c) z = N"
    and "square_mat n X" and "mat_mul X (mat_add N (mat_id n)) = mat_id n"
    and "mat_mul (mat_sub N (mat_id n)) X = S"
  shows "z2s_point z z0 = Inr S"
proof -
  have N: "normalise_z z z0 = N"
    using normalise_z_const [OF assms(1-3)] assms(5) by simp
  have "square_mat n N" using assms(1,5) by auto
  then have "square_mat n (mat_add N (mat_id n))" by simp
  from this assms(6,7) have "mat_inv (mat_add N (mat_id n)) = Some X"
    by (rule mat_inv_complete)
  with assms(1-4,8) N show ?thesis
    by (auto simp: z2s_point_def list_ex_iff)
qed

lemma z2s_point_roots:
  assumes "square_mat n z" and "length z0 = n" and "\<forall>x\<in>set z0. x \<noteq> 0"
    and "map csqrt z0 = r"
    and "scale_ports (map (\<lambda>x. 1 / x) r) z = N"
    and "square_mat n X" and "mat_mul X (mat_add N (mat_id n)) = mat_id n"
    and "mat_mul (mat_sub N (mat_id n)) X = S"
  shows "z2s_point z z0 = Inr S"
proof -
  have N: "normalise_z z z0 = N"
    using normalise_z_roots [OF assms(1,2,4)] assms(5) by simp
  have "square_mat n (normalise_z z z0)" using assms(1,2) by simp
  then have "square_mat n (mat_add N (mat_id n))" by (simp add: N)
  from this assms(6,7) have "mat_inv (mat_add N (mat_id n)) = Some X"
    by (rule mat_inv_complete)
  with assms(1-3,8) N show ?thesis
    by (auto simp: z2s_point_def list_ex_iff)
qed

subsection \<open>Networks with a single frequency point\<close>

lemma network_z_single:
  assumes "s2z_point S z0 = Inr Z"
  shows "network_z \<lparr>frequency = [x], nports = n, ntwk_s = [S], ntwk_z0 = [z0]\<rparr> = Inr [Z]"
  using assms by (simp add: network_z_def s2z_def)

lemma load_z_single:
  assumes "s2z_point [[g]] [z] = Inr [[v]]"
  shows "load_z \<lparr>frequency = [x], nports = n, ntwk_s = [[[g]]], ntwk_z0 = [[z]]\<rparr> = Inr [v]"
  using network_z_single [OF assms, of x n] by (simp add: load_z_def)

lemma renormalize_single:
  assumes "s2z_point S z0 = Inr Z" and "z2s_point Z z0' = Inr S'"
  shows "renormalize \<lparr>frequency = [x], nports = n, ntwk_s = [S], ntwk_z0 = [z0]\<rparr> [z0']
    = Inr \<lparr>frequency = [x], nports = n, ntwk_s = [S'], ntwk_z0 = [z0']\<rparr>"
  using assms network_z_single [OF assms(1), of x n]
  by (simp add: renormalize_def z2s_def)

lemma connect_point_eval:
  assumes "join_ports (block_diag ZA ZB) i (length ZA + j) = Inr Z'"
    and "connect_ports z0A i z0B j = Inr z0'"
    and "z2s_point Z' z0' = Inr S'"
  shows "connect_point ZA z0A i ZB z0B j = Inr (S', z0')"
  using assms by (simp add: connect_point_def)

lemma connect_single:
  assumes "s2z_point SA z0A = Inr ZA" and "s2z_point SB z0B = Inr ZB"
    and "i < nA" and "j < nB" and "n' = nA + nB - 2"
    and "connect_point ZA z0A i ZB z0B j = Inr (S', z0')"
  shows "connect \<lparr>frequency = [x], nports = nA, ntwk_s = [SA], ntwk_z0 = [z0A]\<rparr> i
      \<lparr>frequency = [x], nports = nB, ntwk_s = [SB], ntwk_z0 = [z0B]\<rparr> j
    = Inr \<lparr>frequency = [x], nports = n', ntwk_s = [S'], ntwk_z0 = [z0']\<rparr>"
  using assms network_z_single [OF assms(1), of x nA] network_z_single [OF assms(2), of x nB]
  by (simp add: connect_def)

subsection \<open>The steps of the loop\<close>

lemma raw_measurement_eval:
  assumes "other_ports (ports (nports dut)) a b = Inr (c, d)"
    and "index_after (ports (nports dut)) c d = Inr e"
    and "nth_err loads c = Inr load_c" and "connect dut c load_c 0 = Inr three_port"
    and "nth_err loads d = Inr load_d" and "connect three_port e load_d 0 = Inr two_port"
  shows "raw_measurement dut loads None a b = Inr two_port"
    and "raw_measurement dut loads (Some perturb) a b = Inr (perturb (a, b) two_port)"
  using assms by (simp_all add: raw_measurement_def)

lemma renormalized_measurement_eval:
  assumes "nth_err zl a = Inr za" and "nth_err zl b = Inr zb"
    and "renormalize two_port (map2 (\<lambda>x y. [x, y]) za zb) = Inr T"
  shows "renormalized_measurement zl a b two_port = Inr T"
  using assms by (simp add: renormalized_measurement_def)

lemma composer_step_eval:
  assumes "raw_measurement dut loads noise a b = Inr raw"
    and "renormalized_measurement zl a b raw = Inr ren"
    and "write_block C a b ren = Inr C'"
  shows "composer_step dut loads zl noise
      \<lparr>composite = C, measured = m, measured_renorm = r\<rparr> (a, b)
    = Inr \<lparr>composite = C', measured = m((a, b) \<mapsto> raw), measured_renorm = r((a, b) \<mapsto> ren)\<rparr>"
  using assms by (simp add: composer_step_def)

lemma composer_loop_step:
  assumes "composer_step dut loads zl noise st ab = Inr st1"
  shows "composer_loop dut loads zl noise st (ab # rest)
    = composer_loop dut loads zl noise st1 rest"
  using assms by simp

lemma compose_eval:
  assumes "z_loads loads = Inr zl"
  shows "compose wg dut loads noise
    = composer_loop dut loads zl noise
        \<lparr>composite = match wg (nports dut), measured = Map.empty, measured_renorm = Map.empty\<rparr>
        (port_combos (nports dut))"
  using assms by (simp add: compose_def)

lemma composer_eval:
  assumes "compose wg dut loads noise = Inr st"
  shows "composer wg dut loads noise = renormalize (composite st) (scalar_z0 (composite st) 50)"
  using assms by (simp add: composer_def)

subsection \<open>Matrices with rational entries\<close>

lemmas mat_eval = square_mat_def mat_mul_def mat_add_def mat_sub_def mat_id_def mat_scale_def
  scale_ports_def numeral_eq_Suc

lemmas join_eval = join_ports_def block_diag_def Let_def

lemmas regular_eval = regular_def complex_eq_iff

lemmas write_eval = write_block_def get_s_def get_z0_def set_s_def set_z0_def broadcast_def

section \<open>Evaluating the model on concrete networks\<close>

lemma csqrt_4 [simp]: "csqrt 4 = 2"
  by (rule csqrt_unique) simp_all


lemma csqrt_9 [simp]: "csqrt 9 = 3"
  by (rule csqrt_unique) simp_all

section \<open>The worked example\<close>

lemma csqrt_squares [simp]:
  "csqrt 25 = 5" "csqrt 100 = 10" "csqrt 225 = 15" "csqrt 400 = 20"
  by (rule csqrt_unique; simp)+

subsection \<open>The impedances of the device and of the loads\<close>

lemma ex_dut_z:
  "s2z_point [[1 / 2, 0, 0, 0], [0, 0, 1 / 3, 1 / 3], [0, 1 / 3, 0, 1 / 3], [0, 1 / 3, 1 / 3, 0]] [50, 50, 50, 50]
     = Inr [[150, 0, 0, 0], [0, 100, 75, 75], [0, 75, 100, 75], [0, 75, 75, 100]]"
  apply (rule s2z_point_const [where n = 4 and c = 50 and X = "[[2, 0, 0, 0], [0, 3 / 2, 3 / 4, 3 / 4], [0, 3 / 4, 3 / 2, 3 / 4], [0, 3 / 4, 3 / 4, 3 / 2]]"])
        apply (simp add: mat_eval)
       apply (simp add: regular_eval)
      apply simp
     apply simp
    apply (simp add: mat_eval)
   apply (simp add: mat_eval)
  apply (simp add: mat_eval)
  done

lemma ex_load_z_0:
  "s2z_point [[- (1 / 3)]] [50]
     = Inr [[25]]"
  apply (rule s2z_point_const [where n = 1 and c = 50 and X = "[[3 / 4]]"])
        apply (simp add: mat_eval)
       apply (simp add: regular_eval)
      apply simp
     apply simp
    apply (simp add: mat_eval)
   apply (simp add: mat_eval)
  apply (simp add: mat_eval)
  done

lemma ex_load_z_1:
  "s2z_point [[1 / 3]] [50]
     = Inr [[100]]"
  apply (rule s2z_point_const [where n = 1 and c = 50 and X = "[[3 / 2]]"])
        apply (simp add: mat_eval)
       apply (simp add: regular_eval)
      apply simp
     apply simp
    apply (simp add: mat_eval)
   apply (simp add: mat_eval)
  apply (simp add: mat_eval)
  done

lemma ex_load_z_2:
  "s2z_point [[7 / 11]] [50]
     = Inr [[225]]"
  apply (rule s2z_point_const [where n = 1 and c = 50 and X = "[[11 / 4]]"])
        apply (simp add: mat_eval)
       apply (simp add: regular_eval)
      apply simp
     apply simp
    apply (simp add: mat_eval)
   apply (simp add: mat_eval)
  apply (simp add: mat_eval)
  done

lemma ex_load_z_3:
  "s2z_point [[7 / 9]] [50]
     = Inr [[400]]"
  apply (rule s2z_point_const [where n = 1 and c = 50 and X = "[[9 / 2]]"])
        apply (simp add: mat_eval)
       apply (simp add: regular_eval)
      apply simp
     apply simp
    apply (simp add: mat_eval)
   apply (simp add: mat_eval)
  apply (simp add: mat_eval)
  done

lemma ex_loads_nth:
  "nth_err ex_loads 0 = Inr \<lparr>frequency = [1], nports = 1, ntwk_s = [[[- (1 / 3)]]], ntwk_z0 = [[50]]\<rparr>"
  "nth_err ex_loads 1 = Inr \<lparr>frequency = [1], nports = 1, ntwk_s = [[[1 / 3]]], ntwk_z0 = [[50]]\<rparr>"
  "nth_err ex_loads 2 = Inr \<lparr>frequency = [1], nports = 1, ntwk_s = [[[7 / 11]]], ntwk_z0 = [[50]]\<rparr>"
  "nth_err ex_loads 3 = Inr \<lparr>frequency = [1], nports = 1, ntwk_s = [[[7 / 9]]], ntwk_z0 = [[50]]\<rparr>"
  by (simp_all add: ex_loads_def ex_wg_def load_def nth_err_def)

lemma ex_z_loads: "z_loads ex_loads = Inr [[25], [100], [225], [400]]"
  by (simp add: z_loads_def ex_loads_def ex_wg_def load_def
      load_z_single [OF ex_load_z_0] load_z_single [OF ex_load_z_1]
      load_z_single [OF ex_load_z_2] load_z_single [OF ex_load_z_3])

lemma ex_zl_nth:
  "nth_err [[25], [100], [225], [400]] 0 = Inr [25]"
  "nth_err [[25], [100], [225], [400]] 1 = Inr [100]"
  "nth_err [[25], [100], [225], [400]] 2 = Inr [225]"
  "nth_err [[25], [100], [225], [400]] 3 = Inr [400]"
  by (simp_all add: nth_err_def)

subsection \<open>The device with one port terminated\<close>

lemma ex_three_0_join:
  "join_ports (block_diag [[150, 0, 0, 0], [0, 100, 75, 75], [0, 75, 100, 75], [0, 75, 75, 100]] [[25]]) 0 (length [[150, 0, 0, 0], [0, 100, 75, 75], [0, 75, 100, 75], [0, 75, 75, 100]] + 0)
     = Inr [[100, 75, 75], [75, 100, 75], [75, 75, 100]]"
  by (simp add: join_eval)

lemma ex_three_0_s:
  "z2s_point [[100, 75, 75], [75, 100, 75], [75, 75, 100]] [50, 50, 50]
     = Inr [[0, 1 / 3, 1 / 3], [1 / 3, 0, 1 / 3], [1 / 3, 1 / 3, 0]]"
  apply (rule z2s_point_const [where n = 3 and c = 50 and N = "[[2, 3 / 2, 3 / 2], [3 / 2, 2, 3 / 2], [3 / 2, 3 / 2, 2]]"
        and X = "[[1 / 2, - (1 / 6), - (1 / 6)], [- (1 / 6), 1 / 2, - (1 / 6)], [- (1 / 6), - (1 / 6), 1 / 2]]"])
         apply (simp add: mat_eval)
        apply simp
       apply simp
      apply simp
     apply (simp add: mat_eval)
    apply (simp add: mat_eval)
   apply (simp add: mat_eval)
  apply (simp add: mat_eval)
  done

lemma ex_three_0_z:
  "s2z_point [[0, 1 / 3, 1 / 3], [1 / 3, 0, 1 / 3], [1 / 3, 1 / 3, 0]] [50, 50, 50]
     = Inr [[100, 75, 75], [75, 100, 75], [75, 75, 100]]"
  apply (rule s2z_of_z2s_point [OF ex_three_0_s])
   apply simp
  apply (simp add: regular_eval)
  done

lemma ex_three_0_connect: "connect ex_dut 0 \<lparr>frequency = [1], nports = 1, ntwk_s = [[[- (1 / 3)]]], ntwk_z0 = [[50]]\<rparr> 0 = Inr ex_three_0"
  unfolding ex_dut_def ex_three_0_def
  apply (rule connect_single [OF ex_dut_z ex_load_z_0])
     apply simp
    apply simp
   apply simp
  apply (rule connect_point_eval [OF ex_three_0_join _ ex_three_0_s])
  apply (simp add: connect_ports_def delete_at_def)
  done

lemma ex_three_1_join:
  "join_ports (block_diag [[150, 0, 0, 0], [0, 100, 75, 75], [0, 75, 100, 75], [0, 75, 75, 100]] [[100]]) 1 (length [[150, 0, 0, 0], [0, 100, 75, 75], [0, 75, 100, 75], [0, 75, 75, 100]] + 0)
     = Inr [[150, 0, 0], [0, 575 / 8, 375 / 8], [0, 375 / 8, 575 / 8]]"
  by (simp add: join_eval)

lemma ex_three_1_s:
  "z2s_point [[150, 0, 0], [0, 575 / 8, 375 / 8], [0, 375 / 8, 575 / 8]] [50, 50, 50]
     = Inr [[1 / 2, 0, 0], [0, 1 / 27, 10 / 27], [0, 10 / 27, 1 / 27]]"
  apply (rule z2s_point_const [where n = 3 and c = 50 and N = "[[3, 0, 0], [0, 23 / 16, 15 / 16], [0, 15 / 16, 23 / 16]]"
        and X = "[[1 / 4, 0, 0], [0, 13 / 27, - (5 / 27)], [0, - (5 / 27), 13 / 27]]"])
         apply (simp add: mat_eval)
        apply simp
       apply simp
      apply simp
     apply (simp add: mat_eval)
    apply (simp add: mat_eval)
   apply (simp add: mat_eval)
  apply (simp add: mat_eval)
  done

lemma ex_three_1_z:
  "s2z_point [[1 / 2, 0, 0], [0, 1 / 27, 10 / 27], [0, 10 / 27, 1 / 27]] [50, 50, 50]
     = Inr [[150, 0, 0], [0, 575 / 8, 375 / 8], [0, 375 / 8, 575 / 8]]"
  apply (rule s2z_of_z2s_point [OF ex_three_1_s])
   apply simp
  apply (simp add: regular_eval)
  done

lemma ex_three_1_connect: "connect ex_dut 1 \<lparr>frequency = [1], nports = 1, ntwk_s = [[[1 / 3]]], ntwk_z0 = [[50]]\<rparr> 0 = Inr ex_three_1"
  unfolding ex_dut_def ex_three_1_def
  apply (rule connect_single [OF ex_dut_z ex_load_z_1])
     apply simp
    apply simp
   apply simp
  apply (rule connect_point_eval [OF ex_three_1_join _ ex_three_1_s])
  apply (simp add: connect_ports_def delete_at_def)
  done

lemma ex_three_2_join:
  "join_ports (block_diag [[150, 0, 0, 0], [0, 100, 75, 75], [0, 75, 100, 75], [0, 75, 75, 100]] [[225]]) 2 (length [[150, 0, 0, 0], [0, 100, 75, 75], [0, 75, 100, 75], [0, 75, 75, 100]] + 0)
     = Inr [[150, 0, 0], [0, 1075 / 13, 750 / 13], [0, 750 / 13, 1075 / 13]]"
  by (simp add: join_eval)

lemma ex_three_2_s:
  "z2s_point [[150, 0, 0], [0, 1075 / 13, 750 / 13], [0, 750 / 13, 1075 / 13]] [50, 50, 50]
     = Inr [[1 / 2, 0, 0], [0, 7 / 99, 40 / 99], [0, 40 / 99, 7 / 99]]"
  apply (rule z2s_point_const [where n = 3 and c = 50 and N = "[[3, 0, 0], [0, 43 / 26, 15 / 13], [0, 15 / 13, 43 / 26]]"
        and X = "[[1 / 4, 0, 0], [0, 46 / 99, - (20 / 99)], [0, - (20 / 99), 46 / 99]]"])
         apply (simp add: mat_eval)
        apply simp
       apply simp
      apply simp
     apply (simp add: mat_eval)
    apply (simp add: mat_eval)
   apply (simp add: mat_eval)
  apply (simp add: mat_eval)
  done

lemma ex_three_2_z:
  "s2z_point [[1 / 2, 0, 0], [0, 7 / 99, 40 / 99], [0, 40 / 99, 7 / 99]] [50, 50, 50]
     = Inr [[150, 0, 0], [0, 1075 / 13, 750 / 13], [0, 750 / 13, 1075 / 13]]"
  apply (rule s2z_of_z2s_point [OF ex_three_2_s])
   apply simp
  apply (simp add: regular_eval)
  done

lemma ex_three_2_connect: "connect ex_dut 2 \<lparr>frequency = [1], nports = 1, ntwk_s = [[[7 / 11]]], ntwk_z0 = [[50]]\<rparr> 0 = Inr ex_three_2"
  unfolding ex_dut_def ex_three_2_def
  apply (rule connect_single [OF ex_dut_z ex_load_z_2])
     apply simp
    apply simp
   apply simp
  apply (rule connect_point_eval [OF ex_three_2_join _ ex_three_2_s])
  apply (simp add: connect_ports_def delete_at_def)
  done

lemma ex_match: "match ex_wg 4 = ex_comp_0"
  by (simp add: match_def ex_wg_def ex_comp_0_def numeral_eq_Suc)

subsection \<open>The six measurements\<close>

lemma ex_raw_01_join:
  "join_ports (block_diag [[150, 0, 0], [0, 1075 / 13, 750 / 13], [0, 750 / 13, 1075 / 13]] [[400]]) 2 (length [[150, 0, 0], [0, 1075 / 13, 750 / 13], [0, 750 / 13, 1075 / 13]] + 0)
     = Inr [[150, 0], [0, 19025 / 251]]"
  by (simp add: join_eval)

lemma ex_raw_01_s:
  "z2s_point [[150, 0], [0, 19025 / 251]] [50, 50]
     = Inr [[1 / 2, 0], [0, 259 / 1263]]"
  apply (rule z2s_point_const [where n = 2 and c = 50 and N = "[[3, 0], [0, 761 / 502]]"
        and X = "[[1 / 4, 0], [0, 502 / 1263]]"])
         apply (simp add: mat_eval)
        apply simp
       apply simp
      apply simp
     apply (simp add: mat_eval)
    apply (simp add: mat_eval)
   apply (simp add: mat_eval)
  apply (simp add: mat_eval)
  done

lemma ex_raw_01_z:
  "s2z_point [[1 / 2, 0], [0, 259 / 1263]] [50, 50]
     = Inr [[150, 0], [0, 19025 / 251]]"
  apply (rule s2z_of_z2s_point [OF ex_raw_01_s])
   apply simp
  apply (simp add: regular_eval)
  done

lemma ex_raw_01_connect: "connect ex_three_2 2 \<lparr>frequency = [1], nports = 1, ntwk_s = [[[7 / 9]]], ntwk_z0 = [[50]]\<rparr> 0 = Inr ex_raw_01"
  unfolding ex_three_2_def ex_raw_01_def
  apply (rule connect_single [OF ex_three_2_z ex_load_z_3])
     apply simp
    apply simp
   apply simp
  apply (rule connect_point_eval [OF ex_raw_01_join _ ex_raw_01_s])
  apply (simp add: connect_ports_def delete_at_def)
  done

lemma ex_raw_01_pair:
  "other_ports (ports (nports ex_dut)) 0 1 = Inr (2, 3)"
  "index_after (ports (nports ex_dut)) 2 3 = Inr 2"
  unfolding ex_dut_def by code_simp+

lemma ex_raw_01_measured: "raw_measurement ex_dut ex_loads None 0 1 = Inr ex_raw_01"
  by (rule raw_measurement_eval(1) [OF ex_raw_01_pair ex_loads_nth(3) ex_three_2_connect
        ex_loads_nth(4) ex_raw_01_connect])

lemma ex_ren_01_s:
  "z2s_point [[150, 0], [0, 19025 / 251]] [25, 100]
     = Inr [[5 / 7, 0], [0, - (243 / 1765)]]"
  apply (rule z2s_point_roots [where n = 2 and r = "[5, 10]" and N = "[[6, 0], [0, 761 / 1004]]"
        and X = "[[1 / 7, 0], [0, 1004 / 1765]]"])
         apply (simp add: mat_eval)
        apply simp
       apply simp
      apply simp
     apply (simp add: mat_eval)
    apply (simp add: mat_eval)
   apply (simp add: mat_eval)
  apply (simp add: mat_eval)
  done

lemma ex_ren_01_measured:
  "renormalized_measurement [[25], [100], [225], [400]] 0 1 ex_raw_01 = Inr ex_ren_01"
  unfolding ex_raw_01_def ex_ren_01_def
  apply (rule renormalized_measurement_eval [OF ex_zl_nth(1) ex_zl_nth(2)])
  using renormalize_single [OF ex_raw_01_z ex_ren_01_s, of 1 2] apply simp
  done

lemma ex_comp_1_write: "write_block ex_comp_0 0 1 ex_ren_01 = Inr ex_comp_1"
  unfolding ex_comp_0_def ex_ren_01_def ex_comp_1_def by code_simp

lemma ex_raw_02_join:
  "join_ports (block_diag [[150, 0, 0], [0, 575 / 8, 375 / 8], [0, 375 / 8, 575 / 8]] [[400]]) 2 (length [[150, 0, 0], [0, 575 / 8, 375 / 8], [0, 375 / 8, 575 / 8]] + 0)
     = Inr [[150, 0], [0, 10150 / 151]]"
  by (simp add: join_eval)

lemma ex_raw_02_s:
  "z2s_point [[150, 0], [0, 10150 / 151]] [50, 50]
     = Inr [[1 / 2, 0], [0, 26 / 177]]"
  apply (rule z2s_point_const [where n = 2 and c = 50 and N = "[[3, 0], [0, 203 / 151]]"
        and X = "[[1 / 4, 0], [0, 151 / 354]]"])
         apply (simp add: mat_eval)
        apply simp
       apply simp
      apply simp
     apply (simp add: mat_eval)
    apply (simp add: mat_eval)
   apply (simp add: mat_eval)
  apply (simp add: mat_eval)
  done

lemma ex_raw_02_z:
  "s2z_point [[1 / 2, 0], [0, 26 / 177]] [50, 50]
     = Inr [[150, 0], [0, 10150 / 151]]"
  apply (rule s2z_of_z2s_point [OF ex_raw_02_s])
   apply simp
  apply (simp add: regular_eval)
  done

lemma ex_raw_02_connect: "connect ex_three_1 2 \<lparr>frequency = [1], nports = 1, ntwk_s = [[[7 / 9]]], ntwk_z0 = [[50]]\<rparr> 0 = Inr ex_raw_02"
  unfolding ex_three_1_def ex_raw_02_def
  apply (rule connect_single [OF ex_three_1_z ex_load_z_3])
     apply simp
    apply simp
   apply simp
  apply (rule connect_point_eval [OF ex_raw_02_join _ ex_raw_02_s])
  apply (simp add: connect_ports_def delete_at_def)
  done

lemma ex_raw_02_pair:
  "other_ports (ports (nports ex_dut)) 0 2 = Inr (1, 3)"
  "index_after (ports (nports ex_dut)) 1 3 = Inr 2"
  unfolding ex_dut_def by code_simp+

lemma ex_raw_02_measured: "raw_measurement ex_dut ex_loads None 0 2 = Inr ex_raw_02"
  by (rule raw_measurement_eval(1) [OF ex_raw_02_pair ex_loads_nth(2) ex_three_1_connect
        ex_loads_nth(4) ex_raw_02_connect])

lemma ex_ren_02_s:
  "z2s_point [[150, 0], [0, 10150 / 151]] [25, 225]
     = Inr [[5 / 7, 0], [0, - (953 / 1765)]]"
  apply (rule z2s_point_roots [where n = 2 and r = "[5, 15]" and N = "[[6, 0], [0, 406 / 1359]]"
        and X = "[[1 / 7, 0], [0, 1359 / 1765]]"])
         apply (simp add: mat_eval)
        apply simp
       apply simp
      apply simp
     apply (simp add: mat_eval)
    apply (simp add: mat_eval)
   apply (simp add: mat_eval)
  apply (simp add: mat_eval)
  done

lemma ex_ren_02_measured:
  "renormalized_measurement [[25], [100], [225], [400]] 0 2 ex_raw_02 = Inr ex_ren_02"
  unfolding ex_raw_02_def ex_ren_02_def
  apply (rule renormalized_measurement_eval [OF ex_zl_nth(1) ex_zl_nth(3)])
  using renormalize_single [OF ex_raw_02_z ex_ren_02_s, of 1 2] apply simp
  done

lemma ex_comp_2_write: "write_block ex_comp_1 0 2 ex_ren_02 = Inr ex_comp_2"
  unfolding ex_comp_1_def ex_ren_02_def ex_comp_2_def by code_simp

lemma ex_raw_03_join:
  "join_ports (block_diag [[150, 0, 0], [0, 575 / 8, 375 / 8], [0, 375 / 8, 575 / 8]] [[225]]) 1 (length [[150, 0, 0], [0, 575 / 8, 375 / 8], [0, 375 / 8, 575 / 8]] + 0)
     = Inr [[150, 0], [0, 1225 / 19]]"
  by (simp add: join_eval)

lemma ex_raw_03_s:
  "z2s_point [[150, 0], [0, 1225 / 19]] [50, 50]
     = Inr [[1 / 2, 0], [0, 11 / 87]]"
  apply (rule z2s_point_const [where n = 2 and c = 50 and N = "[[3, 0], [0, 49 / 38]]"
        and X = "[[1 / 4, 0], [0, 38 / 87]]"])
         apply (simp add: mat_eval)
        apply simp
       apply simp
      apply simp
     apply (simp add: mat_eval)
    apply (simp add: mat_eval)
   apply (simp add: mat_eval)
  apply (simp add: mat_eval)
  done

lemma ex_raw_03_z:
  "s2z_point [[1 / 2, 0], [0, 11 / 87]] [50, 50]
     = Inr [[150, 0], [0, 1225 / 19]]"
  apply (rule s2z_of_z2s_point [OF ex_raw_03_s])
   apply simp
  apply (simp add: regular_eval)
  done

lemma ex_raw_03_connect: "connect ex_three_1 1 \<lparr>frequency = [1], nports = 1, ntwk_s = [[[7 / 11]]], ntwk_z0 = [[50]]\<rparr> 0 = Inr ex_raw_03"
  unfolding ex_three_1_def ex_raw_03_def
  apply (rule connect_single [OF ex_three_1_z ex_load_z_2])
     apply simp
    apply simp
   apply simp
  apply (rule connect_point_eval [OF ex_raw_03_join _ ex_raw_03_s])
  apply (simp add: connect_ports_def delete_at_def)
  done

lemma ex_raw_03_pair:
  "other_ports (ports (nports ex_dut)) 0 3 = Inr (1, 2)"
  "index_after (ports (nports ex_dut)) 1 2 = Inr 1"
  unfolding ex_dut_def by code_simp+

lemma ex_raw_03_measured: "raw_measurement ex_dut ex_loads None 0 3 = Inr ex_raw_03"
  by (rule raw_measurement_eval(1) [OF ex_raw_03_pair ex_loads_nth(2) ex_three_1_connect
        ex_loads_nth(3) ex_raw_03_connect])

lemma ex_ren_03_s:
  "z2s_point [[150, 0], [0, 1225 / 19]] [25, 400]
     = Inr [[5 / 7, 0], [0, - (255 / 353)]]"
  apply (rule z2s_point_roots [where n = 2 and r = "[5, 20]" and N = "[[6, 0], [0, 49 / 304]]"
        and X = "[[1 / 7, 0], [0, 304 / 353]]"])
         apply (simp add: mat_eval)
        apply simp
       apply simp
      apply simp
     apply (simp add: mat_eval)
    apply (simp add: mat_eval)
   apply (simp add: mat_eval)
  apply (simp add: mat_eval)
  done

lemma ex_ren_03_measured:
  "renormalized_measurement [[25], [100], [225], [400]] 0 3 ex_raw_03 = Inr ex_ren_03"
  unfolding ex_raw_03_def ex_ren_03_def
  apply (rule renormalized_measurement_eval [OF ex_zl_nth(1) ex_zl_nth(4)])
  using renormalize_single [OF ex_raw_03_z ex_ren_03_s, of 1 2] apply simp
  done

lemma ex_comp_3_write: "write_block ex_comp_2 0 3 ex_ren_03 = Inr ex_comp_3"
  unfolding ex_comp_2_def ex_ren_03_def ex_comp_3_def by code_simp

lemma ex_raw_12_join:
  "join_ports (block_diag [[100, 75, 75], [75, 100, 75], [75, 75, 100]] [[400]]) 2 (length [[100, 75, 75], [75, 100, 75], [75, 75, 100]] + 0)
     = Inr [[355 / 4, 255 / 4], [255 / 4, 355 / 4]]"
  by (simp add: join_eval)

lemma ex_raw_12_s:
  "z2s_point [[355 / 4, 255 / 4], [255 / 4, 355 / 4]] [50, 50]
     = Inr [[7 / 81, 34 / 81], [34 / 81, 7 / 81]]"
  apply (rule z2s_point_const [where n = 2 and c = 50 and N = "[[71 / 40, 51 / 40], [51 / 40, 71 / 40]]"
        and X = "[[37 / 81, - (17 / 81)], [- (17 / 81), 37 / 81]]"])
         apply (simp add: mat_eval)
        apply simp
       apply simp
      apply simp
     apply (simp add: mat_eval)
    apply (simp add: mat_eval)
   apply (simp add: mat_eval)
  apply (simp add: mat_eval)
  done

lemma ex_raw_12_z:
  "s2z_point [[7 / 81, 34 / 81], [34 / 81, 7 / 81]] [50, 50]
     = Inr [[355 / 4, 255 / 4], [255 / 4, 355 / 4]]"
  apply (rule s2z_of_z2s_point [OF ex_raw_12_s])
   apply simp
  apply (simp add: regular_eval)
  done

lemma ex_raw_12_connect: "connect ex_three_0 2 \<lparr>frequency = [1], nports = 1, ntwk_s = [[[7 / 9]]], ntwk_z0 = [[50]]\<rparr> 0 = Inr ex_raw_12"
  unfolding ex_three_0_def ex_raw_12_def
  apply (rule connect_single [OF ex_three_0_z ex_load_z_3])
     apply simp
    apply simp
   apply simp
  apply (rule connect_point_eval [OF ex_raw_12_join _ ex_raw_12_s])
  apply (simp add: connect_ports_def delete_at_def)
  done

lemma ex_raw_12_pair:
  "other_ports (ports (nports ex_dut)) 1 2 = Inr (0, 3)"
  "index_after (ports (nports ex_dut)) 0 3 = Inr 2"
  unfolding ex_dut_def by code_simp+

lemma ex_raw_12_measured: "raw_measurement ex_dut ex_loads None 1 2 = Inr ex_raw_12"
  by (rule raw_measurement_eval(1) [OF ex_raw_12_pair ex_loads_nth(1) ex_three_0_connect
        ex_loads_nth(4) ex_raw_12_connect])

lemma ex_ren_12_s:
  "z2s_point [[355 / 4, 255 / 4], [255 / 4, 355 / 4]] [100, 225]
     = Inr [[- (243 / 1765), 612 / 1765], [612 / 1765, - (953 / 1765)]]"
  apply (rule z2s_point_roots [where n = 2 and r = "[10, 15]" and N = "[[71 / 80, 17 / 40], [17 / 40, 71 / 180]]"
        and X = "[[1004 / 1765, - (306 / 1765)], [- (306 / 1765), 1359 / 1765]]"])
         apply (simp add: mat_eval)
        apply simp
       apply simp
      apply simp
     apply (simp add: mat_eval)
    apply (simp add: mat_eval)
   apply (simp add: mat_eval)
  apply (simp add: mat_eval)
  done

lemma ex_ren_12_measured:
  "renormalized_measurement [[25], [100], [225], [400]] 1 2 ex_raw_12 = Inr ex_ren_12"
  unfolding ex_raw_12_def ex_ren_12_def
  apply (rule renormalized_measurement_eval [OF ex_zl_nth(2) ex_zl_nth(3)])
  using renormalize_single [OF ex_raw_12_z ex_ren_12_s, of 1 2] apply simp
  done

lemma ex_comp_4_write: "write_block ex_comp_3 1 2 ex_ren_12 = Inr ex_comp_4"
  unfolding ex_comp_3_def ex_ren_12_def ex_comp_4_def by code_simp

lemma ex_raw_13_join:
  "join_ports (block_diag [[100, 75, 75], [75, 100, 75], [75, 75, 100]] [[225]]) 1 (length [[100, 75, 75], [75, 100, 75], [75, 75, 100]] + 0)
     = Inr [[1075 / 13, 750 / 13], [750 / 13, 1075 / 13]]"
  by (simp add: join_eval)

lemma ex_raw_13_s:
  "z2s_point [[1075 / 13, 750 / 13], [750 / 13, 1075 / 13]] [50, 50]
     = Inr [[7 / 99, 40 / 99], [40 / 99, 7 / 99]]"
  apply (rule z2s_point_const [where n = 2 and c = 50 and N = "[[43 / 26, 15 / 13], [15 / 13, 43 / 26]]"
        and X = "[[46 / 99, - (20 / 99)], [- (20 / 99), 46 / 99]]"])
         apply (simp add: mat_eval)
        apply simp
       apply simp
      apply simp
     apply (simp add: mat_eval)
    apply (simp add: mat_eval)
   apply (simp add: mat_eval)
  apply (simp add: mat_eval)
  done

lemma ex_raw_13_z:
  "s2z_point [[7 / 99, 40 / 99], [40 / 99, 7 / 99]] [50, 50]
     = Inr [[1075 / 13, 750 / 13], [750 / 13, 1075 / 13]]"
  apply (rule s2z_of_z2s_point [OF ex_raw_13_s])
   apply simp
  apply (simp add: regular_eval)
  done

lemma ex_raw_13_connect: "connect ex_three_0 1 \<lparr>frequency = [1], nports = 1, ntwk_s = [[[7 / 11]]], ntwk_z0 = [[50]]\<rparr> 0 = Inr ex_raw_13"
  unfolding ex_three_0_def ex_raw_13_def
  apply (rule connect_single [OF ex_three_0_z ex_load_z_2])
     apply simp
    apply simp
   apply simp
  apply (rule connect_point_eval [OF ex_raw_13_join _ ex_raw_13_s])
  apply (simp add: connect_ports_def delete_at_def)
  done

lemma ex_raw_13_pair:
  "other_ports (ports (nports ex_dut)) 1 3 = Inr (0, 2)"
  "index_after (ports (nports ex_dut)) 0 2 = Inr 1"
  unfolding ex_dut_def by code_simp+

lemma ex_raw_13_measured: "raw_measurement ex_dut ex_loads None 1 3 = Inr ex_raw_13"
  by (rule raw_measurement_eval(1) [OF ex_raw_13_pair ex_loads_nth(1) ex_three_0_connect
        ex_loads_nth(3) ex_raw_13_connect])

lemma ex_ren_13_s:
  "z2s_point [[1075 / 13, 750 / 13], [750 / 13, 1075 / 13]] [100, 400]
     = Inr [[- (243 / 1765), 96 / 353], [96 / 353, - (255 / 353)]]"
  apply (rule z2s_point_roots [where n = 2 and r = "[10, 20]" and N = "[[43 / 52, 15 / 52], [15 / 52, 43 / 208]]"
        and X = "[[1004 / 1765, - (48 / 353)], [- (48 / 353), 304 / 353]]"])
         apply (simp add: mat_eval)
        apply simp
       apply simp
      apply simp
     apply (simp add: mat_eval)
    apply (simp add: mat_eval)
   apply (simp add: mat_eval)
  apply (simp add: mat_eval)
  done

lemma ex_ren_13_measured:
  "renormalized_measurement [[25], [100], [225], [400]] 1 3 ex_raw_13 = Inr ex_ren_13"
  unfolding ex_raw_13_def ex_ren_13_def
  apply (rule renormalized_measurement_eval [OF ex_zl_nth(2) ex_zl_nth(4)])
  using renormalize_single [OF ex_raw_13_z ex_ren_13_s, of 1 2] apply simp
  done

lemma ex_comp_5_write: "write_block ex_comp_4 1 3 ex_ren_13 = Inr ex_comp_5"
  unfolding ex_comp_4_def ex_ren_13_def ex_comp_5_def by code_simp

lemma ex_raw_23_join:
  "join_ports (block_diag [[100, 75, 75], [75, 100, 75], [75, 75, 100]] [[100]]) 0 (length [[100, 75, 75], [75, 100, 75], [75, 75, 100]] + 0)
     = Inr [[575 / 8, 375 / 8], [375 / 8, 575 / 8]]"
  by (simp add: join_eval)

lemma ex_raw_23_s:
  "z2s_point [[575 / 8, 375 / 8], [375 / 8, 575 / 8]] [50, 50]
     = Inr [[1 / 27, 10 / 27], [10 / 27, 1 / 27]]"
  apply (rule z2s_point_const [where n = 2 and c = 50 and N = "[[23 / 16, 15 / 16], [15 / 16, 23 / 16]]"
        and X = "[[13 / 27, - (5 / 27)], [- (5 / 27), 13 / 27]]"])
         apply (simp add: mat_eval)
        apply simp
       apply simp
      apply simp
     apply (simp add: mat_eval)
    apply (simp add: mat_eval)
   apply (simp add: mat_eval)
  apply (simp add: mat_eval)
  done

lemma ex_raw_23_z:
  "s2z_point [[1 / 27, 10 / 27], [10 / 27, 1 / 27]] [50, 50]
     = Inr [[575 / 8, 375 / 8], [375 / 8, 575 / 8]]"
  apply (rule s2z_of_z2s_point [OF ex_raw_23_s])
   apply simp
  apply (simp add: regular_eval)
  done

lemma ex_raw_23_connect: "connect ex_three_0 0 \<lparr>frequency = [1], nports = 1, ntwk_s = [[[1 / 3]]], ntwk_z0 = [[50]]\<rparr> 0 = Inr ex_raw_23"
  unfolding ex_three_0_def ex_raw_23_def
  apply (rule connect_single [OF ex_three_0_z ex_load_z_1])
     apply simp
    apply simp
   apply simp
  apply (rule connect_point_eval [OF ex_raw_23_join _ ex_raw_23_s])
  apply (simp add: connect_ports_def delete_at_def)
  done

lemma ex_raw_23_pair:
  "other_ports (ports (nports ex_dut)) 2 3 = Inr (0, 1)"
  "index_after (ports (nports ex_dut)) 0 1 = Inr 0"
  unfolding ex_dut_def by code_simp+

lemma ex_raw_23_measured: "raw_measurement ex_dut ex_loads None 2 3 = Inr ex_raw_23"
  by (rule raw_measurement_eval(1) [OF ex_raw_23_pair ex_loads_nth(1) ex_three_0_connect
        ex_loads_nth(2) ex_raw_23_connect])

lemma ex_ren_23_s:
  "z2s_point [[575 / 8, 375 / 8], [375 / 8, 575 / 8]] [225, 400]
     = Inr [[- (953 / 1765), 72 / 353], [72 / 353, - (255 / 353)]]"
  apply (rule z2s_point_roots [where n = 2 and r = "[15, 20]" and N = "[[23 / 72, 5 / 32], [5 / 32, 23 / 128]]"
        and X = "[[1359 / 1765, - (36 / 353)], [- (36 / 353), 304 / 353]]"])
         apply (simp add: mat_eval)
        apply simp
       apply simp
      apply simp
     apply (simp add: mat_eval)
    apply (simp add: mat_eval)
   apply (simp add: mat_eval)
  apply (simp add: mat_eval)
  done

lemma ex_ren_23_measured:
  "renormalized_measurement [[25], [100], [225], [400]] 2 3 ex_raw_23 = Inr ex_ren_23"
  unfolding ex_raw_23_def ex_ren_23_def
  apply (rule renormalized_measurement_eval [OF ex_zl_nth(3) ex_zl_nth(4)])
  using renormalize_single [OF ex_raw_23_z ex_ren_23_s, of 1 2] apply simp
  done

lemma ex_comp_6_write: "write_block ex_comp_5 2 3 ex_ren_23 = Inr ex_comp_6"
  unfolding ex_comp_5_def ex_ren_23_def ex_comp_6_def by code_simp

lemma ex_loop:
  "composer_loop ex_dut ex_loads [[25], [100], [225], [400]] None
     \<lparr>composite = ex_comp_0, measured = Map.empty, measured_renorm = Map.empty\<rparr>
     (port_combos 4) = Inr ex_state"
  unfolding port_combos_four ex_state_def
  by (simp only:
      composer_loop_step [OF composer_step_eval [OF ex_raw_01_measured ex_ren_01_measured ex_comp_1_write]]
      composer_loop_step [OF composer_step_eval [OF ex_raw_02_measured ex_ren_02_measured ex_comp_2_write]]
      composer_loop_step [OF composer_step_eval [OF ex_raw_03_measured ex_ren_03_measured ex_comp_3_write]]
      composer_loop_step [OF composer_step_eval [OF ex_raw_12_measured ex_ren_12_measured ex_comp_4_write]]
      composer_loop_step [OF composer_step_eval [OF ex_raw_13_measured ex_ren_13_measured ex_comp_5_write]]
      composer_loop_step [OF composer_step_eval [OF ex_raw_23_measured ex_ren_23_measured ex_comp_6_write]]
      composer_loop.simps(1))

lemma ex_nports: "nports ex_dut = 4"
  by (simp add: ex_dut_def)

lemma ex_compose: "compose ex_wg ex_dut ex_loads None = Inr ex_state"
  by (simp add: compose_eval [OF ex_z_loads] ex_nports ex_match ex_loop)

lemma ex_comp_6_s:
  "z2s_point [[150, 0, 0, 0], [0, 100, 75, 75], [0, 75, 100, 75], [0, 75, 75, 100]] [25, 100, 225, 400]
     = Inr [[5 / 7, 0, 0, 0], [0, - (243 / 1765), 612 / 1765, 96 / 353], [0, 612 / 1765, - (953 / 1765), 72 / 353], [0, 96 / 353, 72 / 353, - (255 / 353)]]"
  apply (rule z2s_point_roots [where n = 4 and r = "[5, 10, 15, 20]" and N = "[[6, 0, 0, 0], [0, 1, 1 / 2, 3 / 8], [0, 1 / 2, 4 / 9, 1 / 4], [0, 3 / 8, 1 / 4, 1 / 4]]"
        and X = "[[1 / 7, 0, 0, 0], [0, 1004 / 1765, - (306 / 1765), - (48 / 353)], [0, - (306 / 1765), 1359 / 1765, - (36 / 353)], [0, - (48 / 353), - (36 / 353), 304 / 353]]"])
         apply (simp add: mat_eval)
        apply simp
       apply simp
      apply simp
     apply (simp add: mat_eval)
    apply (simp add: mat_eval)
   apply (simp add: mat_eval)
  apply (simp add: mat_eval)
  done

lemma ex_comp_6_z:
  "s2z_point [[5 / 7, 0, 0, 0], [0, - (243 / 1765), 612 / 1765, 96 / 353], [0, 612 / 1765, - (953 / 1765), 72 / 353], [0, 96 / 353, 72 / 353, - (255 / 353)]] [25, 100, 225, 400]
     = Inr [[150, 0, 0, 0], [0, 100, 75, 75], [0, 75, 100, 75], [0, 75, 75, 100]]"
  apply (rule s2z_of_z2s_point [OF ex_comp_6_s])
   apply simp
  apply (simp add: regular_eval)
  done

lemma ex_final_s:
  "z2s_point [[150, 0, 0, 0], [0, 100, 75, 75], [0, 75, 100, 75], [0, 75, 75, 100]] [50, 50, 50, 50]
     = Inr [[1 / 2, 0, 0, 0], [0, 0, 1 / 3, 1 / 3], [0, 1 / 3, 0, 1 / 3], [0, 1 / 3, 1 / 3, 0]]"
  apply (rule z2s_point_const [where n = 4 and c = 50 and N = "[[3, 0, 0, 0], [0, 2, 3 / 2, 3 / 2], [0, 3 / 2, 2, 3 / 2], [0, 3 / 2, 3 / 2, 2]]"
        and X = "[[1 / 4, 0, 0, 0], [0, 1 / 2, - (1 / 6), - (1 / 6)], [0, - (1 / 6), 1 / 2, - (1 / 6)], [0, - (1 / 6), - (1 / 6), 1 / 2]]"])
         apply (simp add: mat_eval)
        apply simp
       apply simp
      apply simp
     apply (simp add: mat_eval)
    apply (simp add: mat_eval)
   apply (simp add: mat_eval)
  apply (simp add: mat_eval)
  done

lemma ex_final_z0: "scalar_z0 ex_comp_6 50 = [[50, 50, 50, 50]]"
  by (simp add: scalar_z0_def ex_comp_6_def numeral_eq_Suc)

lemma ex_final: "renormalize ex_comp_6 [[50, 50, 50, 50]] = Inr ex_dut"
  unfolding ex_comp_6_def ex_dut_def by (rule renormalize_single [OF ex_comp_6_z ex_final_s])

lemma ex_composer: "composer ex_wg ex_dut ex_loads None = Inr ex_dut"
proof -
  have "composite ex_state = ex_comp_6" by (simp add: ex_state_def)
  with composer_eval [OF ex_compose] show ?thesis by (simp add: ex_final_z0 ex_final)
qed

section \<open>Failures of the loop\<close>

lemma composer_loop_fails:
  assumes "composer_loop dut loads zl noise st ps = Inr st1"
    and "composer_step dut loads zl noise st1 ab = Inl err"
  shows "composer_loop dut loads zl noise st (ps @ ab # rest) = Inl err"
  using assms
proof (induction ps arbitrary: st)
  case Nil
  then show ?case by simp
next
  case (Cons p ps)
  from composer_loop_Cons_Inr [OF Cons.prems(1)] obtain st2
    where s: "composer_step dut loads zl noise st p = Inr st2"
      and r: "composer_loop dut loads zl noise st2 ps = Inr st1" by blast
  from Cons.IH [OF r Cons.prems(2)] s show ?case by simp
qed

lemma composer_step_fails:
  assumes "raw_measurement dut loads noise a b = Inl err"
  shows "composer_step dut loads zl noise st (a, b) = Inl err"
  using assms by (simp add: composer_step_def)

lemma raw_measurement_fails:
  assumes "other_ports (ports (nports dut)) a b = Inr (c, d)"
    and "index_after (ports (nports dut)) c d = Inr e"
    and "c < length loads" and "d < length loads"
  shows "connect dut c (loads ! c) 0 = Inl err \<Longrightarrow>
      raw_measurement dut loads noise a b = Inl err"
    and "connect dut c (loads ! c) 0 = Inr three_port \<Longrightarrow>
      connect three_port e (loads ! d) 0 = Inl err \<Longrightarrow>
      raw_measurement dut loads noise a b = Inl err"
  using assms by (simp_all add: raw_measurement_def nth_err_def)

lemma composer_fails:
  assumes "z_loads loads = Inr zl" and "port_combos (nports dut) = ps @ ab # rest"
    and "composer_loop dut loads zl noise
      \<lparr>composite = match wg (nports dut), measured = Map.empty, measured_renorm = Map.empty\<rparr>
      ps = Inr st1"
    and "composer_step dut loads zl noise st1 ab = Inl err"
  shows "composer wg dut loads noise = Inl err"
  using composer_loop_fails [OF assms(3,4), of rest] assms(1,2)
  by (simp add: composer_def compose_def)

section \<open>The claims\<close>

subsection \<open>C5: the two measured ports survive in their original order\<close>

text \<open>
  C5. For every pair \<open>(a, b)\<close> of measured ports of the device, terminating the two
  complementary ports \<open>c < d\<close> one after the other (first \<open>c\<close>, then \<open>d\<close> at the
  position \<open>e\<close> that the index lookup finds for it among the three surviving ports)
  leaves a 2-port whose port 0 is the device's port \<open>a\<close> and whose port 1 is its port
  \<open>b\<close>. The notebook's \<^verbatim>\<open>c,d = ...\<close> unpacks exactly two complementary ports, so this
  holds for the 4-port device the notebook is written for; on a device with another number
  of ports the unpacking raises.
\<close>

theorem measured_ports_original_order:
  assumes "a < b" and "b < 4"
  shows "measured_ports 4 a b = Inr [a, b]"
proof -
  from assms have "a = 0 \<and> b = 1 \<or> a = 0 \<and> b = 2 \<or> a = 0 \<and> b = 3 \<or>
      a = 1 \<and> b = 2 \<or> a = 1 \<and> b = 3 \<or> a = 2 \<and> b = 3"
    by (rule pairs_below_four)
  then show ?thesis
    by (elim disjE conjE) (simp_all only: measured_ports_four_cases)
qed

theorem measured_ports_original_order_witness:
  "(1::nat) < 3 \<and> (3::nat) < 4 \<and> measured_ports 4 1 3 = Inr [1, 3]"
  using measured_ports_original_order [of 1 3] by simp

text \<open>On a 5-port device the first pair already has three complementary ports, and the
  unpacking into \<open>c\<close> and \<open>d\<close> raises: no 2-port is produced.\<close>

theorem measured_ports_five_counterexample:
  "measured_ports 5 0 1 = Inl ValueError \<and> measured_ports 5 0 1 \<noteq> Inr [0, 1]"
  by code_simp

subsection \<open>C10: \<^verbatim>\<open>tippits\<close> terminates every port with the same load\<close>

text \<open>
  C10. The function \<^verbatim>\<open>tippits\<close> builds its terminations from the single reflection
  coefficient \<open>gamma\<close> it is given: a call of \<^verbatim>\<open>tippits\<close> is the composition of the device with
  as many copies of \<open>load gamma\<close> as the device has ports. So every load has the reflection
  coefficient \<open>gamma\<close> at every frequency point (a sweep over \<open>gamma\<close> moves all loads
  together, and at \<open>|gamma| = 1\<close> all of them are fully reflective), and a list of loads in
  which two ports differ is not the list of any call.
\<close>

theorem tippits_terminations_identical:
  "tippits wg dut gamma noise
     = composer wg dut (replicate (nports dut) (load wg gamma)) noise \<and>
   tippits_loads wg n gamma = replicate n (load wg gamma) \<and>
   (\<forall>k < n. \<forall>f < length (med_frequency wg).
      ntwk_s (tippits_loads wg n gamma ! k) ! f = [[gamma]]) \<and>
   (\<forall>loads j k. j < n \<and> k < n \<and> loads ! j \<noteq> loads ! k \<longrightarrow>
      tippits_loads wg n gamma \<noteq> loads)"
proof -
  have eq: "tippits_loads wg n gamma = replicate n (load wg gamma)" for n
    by (simp add: tippits_loads_def ports_def map_replicate_const)
  have "tippits wg dut gamma noise
     = composer wg dut (replicate (nports dut) (load wg gamma)) noise"
    by (simp add: tippits_def eq)
  moreover have "ntwk_s (tippits_loads wg n gamma ! k) ! f = [[gamma]]"
    if "k < n" and "f < length (med_frequency wg)" for k f
    using that by (simp add: eq load_def)
  moreover have "tippits_loads wg n gamma \<noteq> loads"
    if "j < n \<and> k < n \<and> loads ! j \<noteq> loads ! k" for loads j k
    using that by (auto simp: eq)
  ultimately show ?thesis
    using eq by blast
qed

theorem tippits_terminations_identical_witness:
  "tippits \<lparr>med_frequency = [1], med_z0 = [50]\<rparr>
     \<lparr>frequency = [1], nports = 4, ntwk_s = [replicate 4 (replicate 4 0)],
      ntwk_z0 = [[50, 50, 50, 50]]\<rparr> 1 None
     = composer \<lparr>med_frequency = [1], med_z0 = [50]\<rparr>
         \<lparr>frequency = [1], nports = 4, ntwk_s = [replicate 4 (replicate 4 0)],
          ntwk_z0 = [[50, 50, 50, 50]]\<rparr>
         (replicate 4 (load \<lparr>med_frequency = [1], med_z0 = [50]\<rparr> 1)) None \<and>
   tippits_loads \<lparr>med_frequency = [1], med_z0 = [50]\<rparr> 4 1
     = replicate 4 (load \<lparr>med_frequency = [1], med_z0 = [50]\<rparr> 1) \<and>
   ntwk_s (tippits_loads \<lparr>med_frequency = [1], med_z0 = [50]\<rparr> 4 1 ! 3) ! 0 = [[1]] \<and>
   tippits_loads \<lparr>med_frequency = [1], med_z0 = [50]\<rparr> 4 1
     \<noteq> [load \<lparr>med_frequency = [1], med_z0 = [50]\<rparr> 0,
         load \<lparr>med_frequency = [1], med_z0 = [50]\<rparr> 1,
         load \<lparr>med_frequency = [1], med_z0 = [50]\<rparr> 1,
         load \<lparr>med_frequency = [1], med_z0 = [50]\<rparr> 1]"
proof -
  let ?wg = "\<lparr>med_frequency = [1], med_z0 = [50]\<rparr>"
  let ?dut = "\<lparr>frequency = [1], nports = 4, ntwk_s = [replicate 4 (replicate 4 0)],
      ntwk_z0 = [[50, 50, 50, 50]]\<rparr>"
  let ?other = "[load ?wg 0, load ?wg 1, load ?wg 1, load ?wg 1]"
  note t = tippits_terminations_identical [of ?wg ?dut 1 None 4]
  have a: "tippits ?wg ?dut 1 None = composer ?wg ?dut (replicate 4 (load ?wg 1)) None"
    using t by simp
  have b: "tippits_loads ?wg 4 1 = replicate 4 (load ?wg 1)"
    using t by blast
  have c: "ntwk_s (tippits_loads ?wg 4 1 ! 3) ! 0 = [[1]]"
    using t by (simp add: load_def)
  have "(0::nat) < 4 \<and> (1::nat) < 4 \<and> ?other ! 0 \<noteq> ?other ! 1"
    by (simp add: load_def)
  with t have d: "tippits_loads ?wg 4 1 \<noteq> ?other"
    by blast
  from a b c d show ?thesis by blast
qed

subsection \<open>C4: scattering to impedance parameters and back\<close>

text \<open>
  C4. For every scattering matrix \<open>s\<close> for which \<open>1 - s\<close> is non-singular (\<open>s\<close> as the
  conversion takes it, with the entries that are exactly \<open>1\<close> or \<open>-1\<close> moved by \<open>10^-12\<close>), and
  every vector \<open>z0\<close> of non-zero reference impedances (complex, and possibly different from
  port to port), the conversion of \<open>s\<close> to impedance parameters is defined, and converting
  the result back with the same \<open>z0\<close> gives \<open>s\<close> again up to \<open>10^-12\<close> in every entry: the
  matrix that comes back is \<open>s\<close> as the conversion took it, which is \<open>s\<close> itself when no entry
  of \<open>s\<close> is \<open>1\<close> or \<open>-1\<close>.
\<close>

theorem s2z_z2s_round_trip:
  assumes "square_mat n s" and "length z0 = n" and "list_all (\<lambda>x. x \<noteq> 0) z0"
    and "nonsingular (mat_sub (mat_id n) (regularise s))"
  shows "\<exists>z. s2z_point s z0 = Inr z \<and> z2s_point z z0 = Inr (regularise s) \<and>
    (\<forall>i<n. \<forall>j<n. cmod (regularise s ! i ! j - s ! i ! j) \<le> 1 / 10 ^ 12) \<and>
    (regular s \<longrightarrow> z2s_point z z0 = Inr s)"
proof -
  from assms(1,2,4) obtain z where z: "s2z_point s z0 = Inr z"
    using s2z_point_total by blast
  from assms(3) have "\<forall>x\<in>set z0. x \<noteq> 0" by (simp add: list_all_iff)
  with z assms(2) have rt: "z2s_point z z0 = Inr (regularise s)" by (rule z2s_of_s2z_point)
  have "cmod (regularise s ! i ! j - s ! i ! j) \<le> 1 / 10 ^ 12" if "i < n" "j < n" for i j
    using assms(1) that by (rule regularise_close)
  moreover have "z2s_point z z0 = Inr s" if "regular s"
    using rt that by (simp add: regularise_regular)
  ultimately show ?thesis using z rt by blast
qed

text \<open>The round trip of the open circuit at 50 Ohm, the last point of the notebook's sweep,
  and of a 2-port referenced to two different impedances.\<close>

theorem s2z_z2s_round_trip_witness:
  "square_mat 1 [[1]] \<and> length [50 :: complex] = 1 \<and> list_all (\<lambda>x. x \<noteq> 0) [50 :: complex] \<and>
   nonsingular (mat_sub (mat_id 1) (regularise [[1]])) \<and>
   (\<exists>z. s2z_point [[1]] [50] = Inr z \<and> z2s_point z [50] = Inr [[1 + 1 / 10 ^ 12]]) \<and>
   square_mat 2 [[0, 1 / 2], [1 / 2, 0]] \<and> length [4 :: complex, 1] = 2 \<and>
   list_all (\<lambda>x. x \<noteq> 0) [4 :: complex, 1] \<and>
   nonsingular (mat_sub (mat_id 2) (regularise [[0, 1 / 2], [1 / 2, 0]])) \<and>
   regular [[0, 1 / 2], [1 / 2, 0]] \<and>
   (\<exists>z. s2z_point [[0, 1 / 2], [1 / 2, 0]] [4, 1] = Inr z \<and>
        z2s_point z [4, 1] = Inr [[0, 1 / 2], [1 / 2, 0]])"
proof -
  have 1: "square_mat 1 [[1 :: complex]]" by (simp add: square_mat_def)
  have 2: "length [50 :: complex] = 1" by simp
  have 3: "list_all (\<lambda>x. x \<noteq> 0) [50 :: complex]" by simp
  have 4: "nonsingular (mat_sub (mat_id 1) (regularise [[1]]))"
    by (simp add: nonsingular_def regularise_def singularity_shift_def mat_inv_def mat_id_def
        eliminate_def Let_def mat_sub_def)
  have 5: "regularise [[1]] = [[1 + 1 / 10 ^ 12]]"
    by (simp add: regularise_def singularity_shift_def)
  have a: "\<exists>z. s2z_point [[1]] [50] = Inr z \<and> z2s_point z [50] = Inr [[1 + 1 / 10 ^ 12]]"
    using s2z_z2s_round_trip [OF 1 2 3 4] unfolding 5 by blast
  have 6: "square_mat 2 [[0, 1 / 2], [1 / 2, 0 :: complex]]"
    by (simp add: square_mat_def)
  have 7: "length [4 :: complex, 1] = 2" by simp
  have 8: "list_all (\<lambda>x. x \<noteq> 0) [4 :: complex, 1]" by simp
  have 9: "nonsingular (mat_sub (mat_id 2) (regularise [[0, 1 / 2], [1 / 2, 0]]))"
    by code_simp
  have 10: "regular [[0, 1 / 2], [1 / 2, 0]]" by (simp add: regular_def)
  have b: "\<exists>z. s2z_point [[0, 1 / 2], [1 / 2, 0]] [4, 1] = Inr z \<and>
        z2s_point z [4, 1] = Inr [[0, 1 / 2], [1 / 2, 0]]"
    using s2z_z2s_round_trip [OF 6 7 8 9] 10 by blast
  from 1 2 3 4 a 6 7 8 9 10 b show ?thesis by blast
qed

text \<open>A scattering matrix for which \<open>1 - s\<close> is singular, with no entry equal to \<open>1\<close> or
  \<open>-1\<close>, has no impedance parameters: the conversion fails, for reference impedances that
  are not zero.\<close>

theorem s2z_singular_counterexample:
  "square_mat 2 [[1 / 2, 1 / 2], [1 / 2, 1 / 2]] \<and> length [50 :: complex, 50] = 2 \<and>
   list_all (\<lambda>x. x \<noteq> 0) [50 :: complex, 50] \<and>
   s2z_point [[1 / 2, 1 / 2], [1 / 2, 1 / 2]] [50, 50] = Inl SingularityError"
  by (simp add: s2z_point_def regularise_def square_mat_def mat_inv_def mat_id_def eliminate_def
      Let_def mat_sub_def)

subsection \<open>C3: renormalization to the same impedances, and there and back\<close>




subsection \<open>C6: the Connector leaves \<open>P + Q - 2\<close> ports\<close>

text \<open>
  C6. For every well-formed \<open>P\<close>-port network \<open>A\<close> and \<open>Q\<close>-port network \<open>B\<close> on the same
  frequency grid, and every port \<open>i\<close> of \<open>A\<close> and \<open>j\<close> of \<open>B\<close>, the network that the Connector
  returns for joining port \<open>i\<close> of \<open>A\<close> to port \<open>j\<close> of \<open>B\<close> has exactly \<open>P + Q - 2\<close> ports: that
  is its port count, the size of its scattering matrix and the number of its reference
  impedances at every frequency point, the impedances being those of the surviving ports
  in their order. The Connector returns such a network unless one of its conversions is
  singular, which is the only way it can fail on these inputs.
\<close>

theorem connect_port_count:
  assumes "wf_network A" and "wf_network B" and "frequency A = frequency B"
    and "i < nports A" and "j < nports B"
  shows "connect A i B j = Inl SingularityError \<or>
    (\<exists>C. connect A i B j = Inr C \<and> nports C = nports A + nports B - 2 \<and>
       frequency C = frequency A \<and> wf_network C \<and>
       (\<forall>f<length (frequency A).
          square_mat (nports A + nports B - 2) (ntwk_s C ! f) \<and>
          length (ntwk_z0 C ! f) = nports A + nports B - 2 \<and>
          ntwk_z0 C ! f = delete_at i (ntwk_z0 A ! f) @ delete_at j (ntwk_z0 B ! f)))"
proof -
  from connect_cases [OF assms]
  consider "connect A i B j = Inl SingularityError"
    | C where "connect A i B j = Inr C" "nports C = nports A + nports B - 2"
      "frequency C = frequency A" "wf_network C"
      "\<forall>f<length (frequency A).
          ntwk_z0 C ! f = delete_at i (ntwk_z0 A ! f) @ delete_at j (ntwk_z0 B ! f)"
    by blast
  then show ?thesis
  proof cases
    case 1
    then show ?thesis ..
  next
    case 2
    note w = wf_networkD(3,4) [OF 2(4), unfolded 2(2,3)]
    from 2 w show ?thesis by auto
  qed
qed

text \<open>The device of the worked example, a 4-port, with its port 2 terminated by the 1-port
  load of 225 Ohm: a 3-port.\<close>

theorem connect_port_count_witness:
  "wf_network ex_dut \<and> wf_network (load ex_wg (7 / 11)) \<and>
   frequency ex_dut = frequency (load ex_wg (7 / 11)) \<and>
   2 < nports ex_dut \<and> 0 < nports (load ex_wg (7 / 11)) \<and>
   connect ex_dut 2 (load ex_wg (7 / 11)) 0 = Inr ex_three_2 \<and>
   nports ex_three_2 = nports ex_dut + nports (load ex_wg (7 / 11)) - 2 \<and>
   nports ex_three_2 = 3 \<and> square_mat 3 (ntwk_s ex_three_2 ! 0) \<and>
   ntwk_z0 ex_three_2 ! 0 = [50, 50, 50]"
proof -
  let ?L = "load ex_wg (7 / 11)"
  have L: "?L = \<lparr>frequency = [1], nports = 1, ntwk_s = [[[7 / 11]]], ntwk_z0 = [[50]]\<rparr>"
    by (simp add: load_def ex_wg_def)
  have 1: "wf_network ex_dut" by (simp add: ex_dut_def wf_network_def square_mat_def)
  have 2: "wf_network ?L" by (simp add: L wf_network_def square_mat_def)
  have 3: "frequency ex_dut = frequency ?L" by (simp add: ex_dut_def L)
  have 4: "2 < nports ex_dut" by (simp add: ex_dut_def)
  have 5: "0 < nports ?L" by (simp add: L)
  have c: "connect ex_dut 2 ?L 0 = Inr ex_three_2"
    unfolding L by (rule ex_three_2_connect)
  from connect_port_count [OF 1 2 3 4 5] c
  have 6: "nports ex_three_2 = nports ex_dut + nports ?L - 2" by simp
  have 7: "nports ex_three_2 = 3" "square_mat 3 (ntwk_s ex_three_2 ! 0)"
    "ntwk_z0 ex_three_2 ! 0 = [50, 50, 50]"
    by (simp_all add: ex_three_2_def square_mat_def)
  from 1 2 3 4 5 c 6 7 show ?thesis by blast
qed

subsection \<open>C8: a DomainError of the Connector fails the whole composition\<close>

text \<open>
  C8. The Connector fails with a DomainError, which is none of the other errors, when the
  two networks have different frequency grids or when one of the two port indices is out
  of range. The failure of a Connector call of the loop, whatever the error and whichever
  the pair, is the result of the whole call of the Composer (and of \<^verbatim>\<open>tippits\<close>): the first
  failing iteration ends the loop, no later pair is tried, and no composite is returned.
\<close>

theorem connect_domain_error_propagates:
  "(frequency A \<noteq> frequency B \<or> \<not> i < nports A \<or> \<not> j < nports B \<longrightarrow>
      connect A i B j = Inl DomainError) \<and>
   DomainError \<notin> {ValueError, IndexError, ShapeError, SingularityError} \<and>
   (z_loads loads = Inr zl \<and> port_combos (nports dut) = ps @ (a, b) # rest \<and>
    composer_loop dut loads zl noise
      \<lparr>composite = match wg (nports dut), measured = Map.empty, measured_renorm = Map.empty\<rparr>
      ps = Inr st1 \<and>
    other_ports (ports (nports dut)) a b = Inr (c, d) \<and>
    index_after (ports (nports dut)) c d = Inr e \<and> c < length loads \<and> d < length loads \<and>
    (connect dut c (loads ! c) 0 = Inl err \<or>
     (\<exists>three_port. connect dut c (loads ! c) 0 = Inr three_port \<and>
        connect three_port e (loads ! d) 0 = Inl err)) \<longrightarrow>
      composer wg dut loads noise = Inl err \<and>
      (\<forall>net. composer wg dut loads noise \<noteq> Inr net)) \<and>
   (composer wg dut (tippits_loads wg (nports dut) gamma) noise = Inl err \<longrightarrow>
      tippits wg dut gamma noise = Inl err)"
proof -
  have 1: "connect A i B j = Inl DomainError"
    if "frequency A \<noteq> frequency B \<or> \<not> i < nports A \<or> \<not> j < nports B"
    using that by (rule connect_domain_error)
  have 2: "DomainError \<notin> {ValueError, IndexError, ShapeError, SingularityError}" by simp
  have 3: "composer wg dut loads noise = Inl err \<and> (\<forall>net. composer wg dut loads noise \<noteq> Inr net)"
    if h: "z_loads loads = Inr zl \<and> port_combos (nports dut) = ps @ (a, b) # rest \<and>
      composer_loop dut loads zl noise
        \<lparr>composite = match wg (nports dut), measured = Map.empty, measured_renorm = Map.empty\<rparr>
        ps = Inr st1 \<and>
      other_ports (ports (nports dut)) a b = Inr (c, d) \<and>
      index_after (ports (nports dut)) c d = Inr e \<and> c < length loads \<and> d < length loads \<and>
      (connect dut c (loads ! c) 0 = Inl err \<or>
       (\<exists>three_port. connect dut c (loads ! c) 0 = Inr three_port \<and>
          connect three_port e (loads ! d) 0 = Inl err))"
  proof -
    from h have p: "other_ports (ports (nports dut)) a b = Inr (c, d)"
      "index_after (ports (nports dut)) c d = Inr e" "c < length loads" "d < length loads"
      by simp_all
    from h raw_measurement_fails [OF p]
    have "raw_measurement dut loads noise a b = Inl err" by blast
    then have "composer_step dut loads zl noise st1 (a, b) = Inl err"
      by (rule composer_step_fails)
    with h have "composer wg dut loads noise = Inl err"
      by (intro composer_fails [of loads zl dut ps "(a, b)" rest noise wg st1]) simp_all
    then show ?thesis by simp
  qed
  have 4: "tippits wg dut gamma noise = Inl err"
    if "composer wg dut (tippits_loads wg (nports dut) gamma) noise = Inl err"
    using that by (simp add: tippits_def)
  from 1 2 3 4 show ?thesis by blast
qed

text \<open>The device of the worked example moved to another frequency grid: the first Connector
  call of the first pair, which terminates port 2, fails with a DomainError, and so does the
  Composer.\<close>

theorem connect_domain_error_propagates_witness:
  "frequency (ex_dut\<lparr>frequency := [2]\<rparr>) \<noteq> frequency (ex_loads ! 2) \<and>
   connect (ex_dut\<lparr>frequency := [2]\<rparr>) 2 (ex_loads ! 2) 0 = Inl DomainError \<and>
   z_loads ex_loads = Inr [[25], [100], [225], [400]] \<and>
   port_combos (nports (ex_dut\<lparr>frequency := [2]\<rparr>)) = [] @ (0, 1) # [(0, 2), (0, 3), (1, 2), (1, 3), (2, 3)] \<and>
   other_ports (ports (nports (ex_dut\<lparr>frequency := [2]\<rparr>))) 0 1 = Inr (2, 3) \<and>
   index_after (ports (nports (ex_dut\<lparr>frequency := [2]\<rparr>))) 2 3 = Inr 2 \<and>
   2 < length ex_loads \<and> 3 < length ex_loads \<and>
   composer ex_wg (ex_dut\<lparr>frequency := [2]\<rparr>) ex_loads None = Inl DomainError"
proof -
  let ?dut = "ex_dut\<lparr>frequency := [2]\<rparr>"
  let ?st = "\<lparr>composite = match ex_wg (nports ?dut), measured = Map.empty,
      measured_renorm = Map.empty\<rparr>"
  let ?rest = "[(0, 2), (0, 3), (1, 2), (1, 3), (2, 3)] :: (nat \<times> nat) list"
  have n: "nports ?dut = 4" by (simp add: ex_dut_def)
  have 1: "frequency ?dut \<noteq> frequency (ex_loads ! 2)"
    by (simp add: ex_loads_def ex_wg_def)
  note t = connect_domain_error_propagates [of ?dut "ex_loads ! 2" 2 0 ex_loads
      "[[25], [100], [225], [400]]" ?dut "[]" 0 1 ?rest None ex_wg ?st 2 3 2 DomainError]
  from t 1 have 2: "connect ?dut 2 (ex_loads ! 2) 0 = Inl DomainError" by blast
  have 3: "port_combos (nports ?dut) = [] @ (0, 1) # ?rest"
    by (simp add: n port_combos_four)
  have 4: "other_ports (ports (nports ?dut)) 0 1 = Inr (2, 3)"
    "index_after (ports (nports ?dut)) 2 3 = Inr 2"
    unfolding n by code_simp+
  have 5: "2 < length ex_loads" "3 < length ex_loads" by (simp_all add: ex_loads_def)
  have 6: "composer_loop ?dut ex_loads [[25], [100], [225], [400]] None ?st [] = Inr ?st"
    by simp
  from t ex_z_loads 2 3 4 5 6 have 7: "composer ex_wg ?dut ex_loads None = Inl DomainError"
    by blast
  from 1 2 ex_z_loads 3 4 5 7 show ?thesis by blast
qed

end
